(* ===== verification/Go_Prelude.thy ===== *)
theory Go_Prelude
  imports
    Main
    "HOL-Library.Word"
    "HOL-Library.FSet"
    "HOL-Library.Finite_Map"
    "HOL-Library.Multiset"
    "HOL-Library.Char_ord"
    "HOL-Library.List_Lexorder"
    "HOL-Library.Product_Lexorder"
begin

text \<open>
  Shared vocabulary of the development: the Go types and the standard library functions
  the destination controller uses, and the generic lemmas the component theories share.

  \<^item> Go integers keep their width: \<open>uint32\<close> and \<open>int32\<close> are both \<open>32 word\<close> (a conversion
    between them keeps the bits; a signed reading is \<open>sint\<close>), \<open>uint16\<close> is \<open>16 word\<close>. The
    64-bit \<open>int\<close> is \<open>int\<close>, with the range check of \<open>strconv.Atoi\<close> written out.
  \<^item> A Go map is a finite map \<open>('k, 'v) fmap\<close>. Iteration order is unspecified in Go; a loop
    that only writes another map is a map operation here, and a loop whose effect depends
    on the order is never turned into a map operation. A nil map reads like an empty one.
  \<^item> \<open>map[k]struct{}\<close> is a finite set \<open>'k fset\<close>.
  \<^item> Strings are byte strings, as in Go; \<open>TrimSpace\<close> knows the ASCII white space.
  \<^item> A value that may be nil is an \<open>option\<close>; a nil dereference (a run-time panic) is \<open>None\<close>
    of the result type where the source can reach one.
\<close>

section \<open>Proof collections\<close>

named_theorems fm_simps \<open>pointwise behaviour of the map operations\<close>
named_theorems str_simps \<open>printing and parsing of decimal numbers and lists\<close>

section \<open>Types\<close>

type_synonym uint16 = "16 word"
type_synonym uint32 = "32 word"
type_synonym int32 = "32 word"
type_synonym labels = "(string, string) fmap"

section \<open>Maps\<close>

text \<open>Value and key dependent filtering of a map (a \<open>for k, v := range m\<close> with a guard).\<close>

definition fm_filter_kv :: "('k \<Rightarrow> 'v \<Rightarrow> bool) \<Rightarrow> ('k, 'v) fmap \<Rightarrow> ('k, 'v) fmap" where
  "fm_filter_kv P m =
     fmfilter (\<lambda>k. case fmlookup m k of None \<Rightarrow> False | Some v \<Rightarrow> P k v) m"

text \<open>\<open>len(m)\<close>.\<close>

definition fm_size :: "('k, 'v) fmap \<Rightarrow> nat" where
  "fm_size m = fcard (fmdom m)"

text \<open>\<open>m[k]\<close> of a string map: the zero value for an absent key.\<close>

definition fm_str :: "labels \<Rightarrow> string \<Rightarrow> string" where
  "fm_str m k = (case fmlookup m k of None \<Rightarrow> [] | Some v \<Rightarrow> v)"

text \<open>\<open>delete(m, k)\<close> for each key of a list.\<close>

definition fm_del_list :: "'k list \<Rightarrow> ('k, 'v) fmap \<Rightarrow> ('k, 'v) fmap" where
  "fm_del_list ks m = fold fmdrop ks m"

lemma fmlookup_filter_kv [simp, fm_simps]:
  "fmlookup (fm_filter_kv P m) k =
     (case fmlookup m k of None \<Rightarrow> None | Some v \<Rightarrow> if P k v then Some v else None)"
  by (simp add: fm_filter_kv_def split: option.splits)

lemma fm_filter_kv_empty [simp]: "fm_filter_kv P fmempty = fmempty"
  by (simp add: fm_filter_kv_def)

lemma fm_filter_kv_upd [simp]:
  "fm_filter_kv P (fmupd k v m) =
     (if P k v then fmupd k v (fm_filter_kv P m) else fmdrop k (fm_filter_kv P m))"
  by (rule fmap_ext) (auto split: option.splits)

lemma fmdom_filter_kv:
  "k |\<in>| fmdom (fm_filter_kv P m) \<longleftrightarrow> (\<exists>v. fmlookup m k = Some v \<and> P k v)"
  by (auto simp: fmlookup_dom_iff split: option.splits)

lemma fm_size_empty [simp]: "fm_size fmempty = 0"
  by (simp add: fm_size_def)

lemma fm_size_upd [simp]:
  "fm_size (fmupd k v m) = (if k |\<in>| fmdom m then fm_size m else Suc (fm_size m))"
  by (simp add: fm_size_def finsert_absorb fcard_finsert_disjoint)

lemma fm_size_0_iff [simp]: "fm_size m = 0 \<longleftrightarrow> m = fmempty"
proof
  assume "fm_size m = 0"
  then have "fmdom m = {||}" by (simp add: fm_size_def)
  then show "m = fmempty" by (metis fmrestrict_fset_dom fmrestrict_fset_null)
qed simp

lemma fm_eq_empty_iff: "m = fmempty \<longleftrightarrow> (\<forall>k. fmlookup m k = None)"
proof
  assume "\<forall>k. fmlookup m k = None"
  then show "m = fmempty" by (intro fmap_ext) simp
qed simp

lemma fm_size_pos_iff: "0 < fm_size m \<longleftrightarrow> (\<exists>k v. fmlookup m k = Some v)"
  using fm_eq_empty_iff [of m] fm_size_0_iff [of m] by (metis not_gr_zero not_None_eq)

lemma fmlookup_del_list [simp, fm_simps]:
  "fmlookup (fm_del_list ks m) k = (if k \<in> set ks then None else fmlookup m k)"
  unfolding fm_del_list_def by (induction ks arbitrary: m) auto

lemma fm_str_upd [simp]: "fm_str (fmupd k v m) j = (if k = j then v else fm_str m j)"
  by (simp add: fm_str_def)

lemma fm_str_empty [simp]: "fm_str fmempty j = []"
  by (simp add: fm_str_def)

text \<open>
  A loop \<open>for _, x := range xs { m[k x] = v x }\<close> over a slice: later entries overwrite
  earlier ones.
\<close>

definition fm_put_all :: "('k \<times> 'v) list \<Rightarrow> ('k, 'v) fmap \<Rightarrow> ('k, 'v) fmap" where
  "fm_put_all kvs m = fold (\<lambda>(k, v). fmupd k v) kvs m"

lemma fm_put_all_Nil [simp]: "fm_put_all [] m = m"
  and fm_put_all_Cons [simp]: "fm_put_all ((k, v) # kvs) m = fm_put_all kvs (fmupd k v m)"
  by (simp_all add: fm_put_all_def)

lemma fm_put_all_append [simp]: "fm_put_all (xs @ ys) m = fm_put_all ys (fm_put_all xs m)"
  by (simp add: fm_put_all_def)

lemma fmdom_put_all:
  "k |\<in>| fmdom (fm_put_all kvs m) \<longleftrightarrow> k \<in> fst ` set kvs \<or> k |\<in>| fmdom m"
  by (induction kvs arbitrary: m) (auto simp: image_iff, force+)

lemma fm_put_all_SomeD:
  "fmlookup (fm_put_all kvs m) k = Some v \<Longrightarrow> (k, v) \<in> set kvs \<or> fmlookup m k = Some v"
proof (induction kvs arbitrary: m)
  case (Cons kv kvs)
  obtain a b where kv: "kv = (a, b)" by (cases kv)
  from Cons.prems have "fmlookup (fm_put_all kvs (fmupd a b m)) k = Some v"
    by (simp add: kv)
  from Cons.IH [OF this] show ?case by (auto simp: kv split: if_splits)
qed simp

lemma fm_put_all_lookup:
  assumes "\<And>v v'. (k, v) \<in> set kvs \<Longrightarrow> (k, v') \<in> set kvs \<Longrightarrow> v = v'"
  shows "fmlookup (fm_put_all kvs m) k = Some v \<longleftrightarrow>
    (k, v) \<in> set kvs \<or> (k \<notin> fst ` set kvs \<and> fmlookup m k = Some v)"
  using assms
proof (induction kvs arbitrary: m)
  case (Cons kv kvs)
  obtain a b where kv: "kv = (a, b)" by (cases kv)
  have IH: "fmlookup (fm_put_all kvs (fmupd a b m)) k = Some v \<longleftrightarrow>
      (k, v) \<in> set kvs \<or> (k \<notin> fst ` set kvs \<and> fmlookup (fmupd a b m) k = Some v)"
    using Cons.prems by (intro Cons.IH) auto
  show ?case
  proof (cases "a = k")
    case True
    have "(k, v) \<in> set kvs \<Longrightarrow> v = b" using Cons.prems [of v b] by (simp add: kv True)
    moreover have "k \<in> fst ` set kvs \<Longrightarrow> \<exists>w. (k, w) \<in> set kvs" by force
    moreover have "(k, w) \<in> set kvs \<Longrightarrow> w = b" for w using Cons.prems [of w b] by (simp add: kv True)
    ultimately show ?thesis using IH by (auto simp: kv True)
  next
    case False
    with IH show ?thesis by (auto simp: kv)
  qed
qed simp

text \<open>
  A loop over a map that replaces every value and may panic on one: \<open>None\<close> if it does.
\<close>

definition fm_traverse :: "('k \<Rightarrow> 'v \<Rightarrow> 'w option) \<Rightarrow> ('k, 'v) fmap \<Rightarrow> ('k, 'w) fmap option" where
  "fm_traverse f m =
     (if fm_filter_kv (\<lambda>k v. f k v = None) m = fmempty
      then Some (fmmap_keys (\<lambda>k v. the (f k v)) m) else None)"

lemma fm_traverse_SomeD:
  assumes "fm_traverse f m = Some n"
  shows "case fmlookup m k of
      None \<Rightarrow> fmlookup n k = None
    | Some v \<Rightarrow> (\<exists>w. f k v = Some w \<and> fmlookup n k = Some w)"
proof -
  from assms have "fm_filter_kv (\<lambda>k v. f k v = None) m = fmempty" and n: "n = fmmap_keys (\<lambda>k v. the (f k v)) m"
    by (auto simp: fm_traverse_def split: if_splits)
  then have "fmlookup (fm_filter_kv (\<lambda>k v. f k v = None) m) k = None" by simp
  then show ?thesis by (auto simp: n split: option.splits if_splits)
qed

lemma fm_traverse_lookup:
  assumes "fm_traverse f m = Some n" "fmlookup n k = Some w"
  obtains v where "fmlookup m k = Some v" "f k v = Some w"
  using fm_traverse_SomeD [OF assms(1), of k] assms(2) by (auto split: option.splits)

lemma fm_traverse_total:
  assumes "\<And>k v. fmlookup m k = Some v \<Longrightarrow> f k v \<noteq> None"
  shows "\<exists>n. fm_traverse f m = Some n"
proof -
  have "fm_filter_kv (\<lambda>k v. f k v = None) m = fmempty"
    unfolding fm_eq_empty_iff using assms by (fastforce split: option.splits)
  then show ?thesis by (simp add: fm_traverse_def)
qed

lemma in_set_map_filter: "y \<in> set (List.map_filter f xs) \<longleftrightarrow> (\<exists>x \<in> set xs. f x = Some y)"
  by (induction xs) (auto simp: List.map_filter_simps split: option.splits)

section \<open>Listener lists\<close>

text \<open>
  The watchers remove a subscriber by overwriting it with the last element and dropping
  the last slot (\<open>ls[i] = ls[n-1]; ls = ls[:n-1]\<close>), for the first matching index.
\<close>

fun index_of :: "'a \<Rightarrow> 'a list \<Rightarrow> nat option" where
  "index_of x [] = None"
| "index_of x (y # ys) = (if x = y then Some 0 else map_option Suc (index_of x ys))"

definition swap_remove :: "nat \<Rightarrow> 'a list \<Rightarrow> 'a list" where
  "swap_remove i xs = butlast (xs[i := last xs])"

definition remove_listener :: "'a \<Rightarrow> 'a list \<Rightarrow> 'a list" where
  "remove_listener x xs = (case index_of x xs of None \<Rightarrow> xs | Some i \<Rightarrow> swap_remove i xs)"

lemma index_of_None_iff [simp]: "index_of x xs = None \<longleftrightarrow> x \<notin> set xs"
  by (induction xs) auto

lemma index_of_SomeD: "index_of x xs = Some i \<Longrightarrow> i < length xs \<and> xs ! i = x"
proof (induction xs arbitrary: i)
  case (Cons y ys)
  then show ?case by (cases i) (auto split: if_splits)
qed simp

lemma mset_swap_remove:
  assumes "i < length xs"
  shows "mset (swap_remove i xs) = mset xs - {#xs ! i#}"
proof -
  from assms have ne: "xs \<noteq> []" by auto
  let ?l = "xs[i := last xs]"
  from ne have "?l = butlast ?l @ [last ?l]" by simp
  then have "mset ?l = mset (butlast ?l) + {#last ?l#}"
    by (metis mset.simps(1,2) mset_append)
  moreover have "last ?l = last xs"
    using ne by (cases "i = length xs - 1") (auto simp: last_conv_nth)
  moreover have "mset ?l = add_mset (last xs) (mset xs - {#xs ! i#})"
    using assms by (rule mset_update)
  ultimately show ?thesis by (simp add: swap_remove_def)
qed

lemma mset_remove_listener: "mset (remove_listener x xs) = mset xs - {#x#}"
proof (cases "index_of x xs")
  case None
  then have "x \<notin># mset xs" by simp
  then have "mset xs - {#x#} = mset xs" by (rule diff_single_trivial)
  with None show ?thesis by (simp only: remove_listener_def option.case)
next
  case (Some i)
  with index_of_SomeD [OF Some] show ?thesis
    by (simp add: remove_listener_def mset_swap_remove)
qed

lemma set_remove_listener_subset: "set (remove_listener x xs) \<subseteq> set xs"
  by (metis mset_remove_listener diff_subset_eq_self set_mset_mono set_mset_mset)

lemma mset_remove_listener_remove1: "mset (remove_listener x xs) = mset (remove1 x xs)"
  by (simp add: mset_remove_listener)

lemma set_remove_listener_distinct:
  "distinct xs \<Longrightarrow> set (remove_listener x xs) = set xs - {x}"
  using mset_eq_setD [OF mset_remove_listener_remove1 [of x xs]] by simp

lemma distinct_remove_listener: "distinct xs \<Longrightarrow> distinct (remove_listener x xs)"
  using mset_eq_imp_distinct_iff [OF mset_remove_listener_remove1 [of x xs]] by simp

text \<open>
  The calls one listener receives out of a list of calls, in order.
\<close>

definition calls_for :: "'l \<Rightarrow> ('l \<times> 'c) list \<Rightarrow> 'c list" where
  "calls_for l calls = map snd (filter (\<lambda>(x, _). x = l) calls)"

lemma calls_for_Nil [simp]: "calls_for l [] = []"
  and calls_for_Cons [simp]: "calls_for l ((x, c) # calls) = (if x = l then c # calls_for l calls else calls_for l calls)"
  and calls_for_append [simp]: "calls_for l (calls @ calls') = calls_for l calls @ calls_for l calls'"
  by (simp_all add: calls_for_def)

lemma calls_for_broadcast:
  "distinct ls \<Longrightarrow> calls_for l (map (\<lambda>k. (k, c)) ls) = (if l \<in> set ls then [c] else [])"
  by (induction ls) auto

section \<open>Decimal numbers\<close>

definition digit_char :: "nat \<Rightarrow> char" where
  "digit_char d = char_of (48 + d)"

fun dec_of_nat :: "nat \<Rightarrow> string" where
  "dec_of_nat n = (if n < 10 then [digit_char n] else dec_of_nat (n div 10) @ [digit_char (n mod 10)])"

declare dec_of_nat.simps [simp del]

text \<open>\<open>strconv.Itoa\<close> and \<open>fmt.Sprintf("%d", _)\<close>.\<close>

definition itoa :: "int \<Rightarrow> string" where
  "itoa i = (if i < 0 then CHR ''-'' # dec_of_nat (nat (- i)) else dec_of_nat (nat i))"

definition is_digit :: "char \<Rightarrow> bool" where
  "is_digit c \<longleftrightarrow> 48 \<le> (of_char c :: nat) \<and> (of_char c :: nat) \<le> 57"

definition digits_val :: "string \<Rightarrow> nat" where
  "digits_val = foldl (\<lambda>a c. 10 * a + (of_char c - 48)) 0"

text \<open>
  \<open>strconv.Atoi\<close>: an optional sign, at least one digit, nothing else, and a value in the
  range of a 64-bit \<open>int\<close>.
\<close>

definition split_sign :: "string \<Rightarrow> bool \<times> string" where
  "split_sign s = (case s of
     [] \<Rightarrow> (False, [])
   | c # cs \<Rightarrow> if c = CHR ''-'' then (True, cs) else if c = CHR ''+'' then (False, cs) else (False, s))"

definition atoi :: "string \<Rightarrow> int option" where
  "atoi s = (case split_sign s of (neg, ds) \<Rightarrow>
     if ds = [] \<or> \<not> list_all is_digit ds then None
     else let v = (if neg then - int (digits_val ds) else int (digits_val ds)) in
       if - (2 ^ 63) \<le> v \<and> v < 2 ^ 63 then Some v else None)"

text \<open>\<open>strconv.ParseUint(s, 10, 32)\<close>: digits only, no sign, at most \<open>2^32 - 1\<close>.\<close>

definition parse_uint32 :: "string \<Rightarrow> uint32 option" where
  "parse_uint32 s =
     (if s = [] \<or> \<not> list_all is_digit s then None
      else if digits_val s < 2 ^ 32 then Some (of_nat (digits_val s)) else None)"

lemma is_digit_digit_char: "d < 10 \<Longrightarrow> is_digit (digit_char d)"
  by (simp add: is_digit_def digit_char_def take_bit_nat_eq_self)

lemma of_char_digit_char: "d < 10 \<Longrightarrow> (of_char (digit_char d) :: nat) = 48 + d"
  by (simp add: digit_char_def take_bit_nat_eq_self)

lemma dec_of_nat_ne_Nil [simp]: "dec_of_nat n \<noteq> []"
  by (subst dec_of_nat.simps) simp

lemma dec_of_nat_digits [simp]: "list_all is_digit (dec_of_nat n)"
proof (induction n rule: dec_of_nat.induct)
  case (1 n)
  then show ?case by (subst dec_of_nat.simps) (auto simp: is_digit_digit_char)
qed

lemma digits_val_snoc: "digits_val (s @ [c]) = 10 * digits_val s + (of_char c - 48)"
  by (simp add: digits_val_def)

lemma digits_val_dec_of_nat [simp, str_simps]: "digits_val (dec_of_nat n) = n"
proof (induction n rule: dec_of_nat.induct)
  case (1 n)
  show ?case
  proof (cases "n < 10")
    case True
    then show ?thesis
      by (subst dec_of_nat.simps) (simp add: digits_val_def of_char_digit_char)
  next
    case False
    with "1.IH" have "digits_val (dec_of_nat (n div 10)) = n div 10" by simp
    with False show ?thesis
      by (subst dec_of_nat.simps) (simp add: digits_val_snoc of_char_digit_char)
  qed
qed

lemma digit_not_char:
  "is_digit c \<Longrightarrow> c \<noteq> CHR ''-''" "is_digit c \<Longrightarrow> c \<noteq> CHR ''+''"
  "is_digit c \<Longrightarrow> c \<noteq> CHR '',''" "is_digit c \<Longrightarrow> c \<noteq> CHR '' ''"
  by (auto simp: is_digit_def)

lemma dec_of_nat_no_sep:
  "CHR ''-'' \<notin> set (dec_of_nat n)" "CHR '','' \<notin> set (dec_of_nat n)"
  using dec_of_nat_digits [of n] by (auto simp: list_all_iff dest: digit_not_char)

lemma split_sign_dec_of_nat: "split_sign (dec_of_nat n) = (False, dec_of_nat n)"
proof (cases "dec_of_nat n")
  case (Cons c cs)
  with dec_of_nat_digits [of n] have "is_digit c" by simp
  with Cons show ?thesis by (auto simp: split_sign_def dest: digit_not_char)
qed simp

lemma atoi_itoa [simp, str_simps]: "0 \<le> i \<Longrightarrow> i < 2 ^ 63 \<Longrightarrow> atoi (itoa i) = Some i"
  by (simp add: itoa_def atoi_def split_sign_dec_of_nat)

lemma itoa_no_sep: "0 \<le> i \<Longrightarrow> CHR ''-'' \<notin> set (itoa i)" "CHR '','' \<notin> set (itoa i)"
  by (auto simp: itoa_def dec_of_nat_no_sep)

lemma itoa_inj_nonneg: "0 \<le> i \<Longrightarrow> 0 \<le> j \<Longrightarrow> itoa i = itoa j \<Longrightarrow> i = j"
  by (simp add: itoa_def) (metis digits_val_dec_of_nat eq_nat_nat_iff)

section \<open>String functions\<close>

text \<open>\<open>strings.Split(s, sep)\<close> for a one-byte separator; \<open>strings.Join\<close>.\<close>

fun split_on :: "char \<Rightarrow> string \<Rightarrow> string list" where
  "split_on c [] = [[]]"
| "split_on c (x # xs) =
     (if x = c then [] # split_on c xs
      else (case split_on c xs of [] \<Rightarrow> [[x]] | y # ys \<Rightarrow> (x # y) # ys))"

fun join_with :: "string \<Rightarrow> string list \<Rightarrow> string" where
  "join_with sep [] = []"
| "join_with sep [x] = x"
| "join_with sep (x # y # ys) = x @ sep @ join_with sep (y # ys)"

definition is_space :: "char \<Rightarrow> bool" where
  "is_space c \<longleftrightarrow> (of_char c :: nat) \<in> {9, 10, 11, 12, 13, 32}"

definition trim_space :: "string \<Rightarrow> string" where
  "trim_space s = rev (dropWhile is_space (rev (dropWhile is_space s)))"

definition trim_suffix :: "string \<Rightarrow> char \<Rightarrow> string" where
  "trim_suffix s c = (if s \<noteq> [] \<and> last s = c then butlast s else s)"

definition to_lower_char :: "char \<Rightarrow> char" where
  "to_lower_char c =
     (let n = (of_char c :: nat) in if 65 \<le> n \<and> n \<le> 90 then char_of (n + 32) else c)"

definition to_lower :: "string \<Rightarrow> string" where
  "to_lower = map to_lower_char"

text \<open>\<open>net.JoinHostPort\<close>: a host with a colon is put in square brackets.\<close>

definition join_host_port :: "string \<Rightarrow> string \<Rightarrow> string" where
  "join_host_port host port =
     (if CHR '':'' \<in> set host then ''['' @ host @ '']:'' @ port else host @ '':'' @ port)"

lemma split_on_ne_Nil [simp]: "split_on c s \<noteq> []"
  by (induction s) (auto split: list.splits)

lemma split_on_no_sep: "c \<notin> set s \<Longrightarrow> split_on c s = [s]"
  by (induction s) auto

lemma split_on_sep: "c \<notin> set s \<Longrightarrow> split_on c (s @ c # t) = s # split_on c t"
  by (induction s) auto

lemma join_split: "join_with [c] (split_on c s) = s"
proof (induction s)
  case (Cons x xs)
  obtain y ys where "split_on c xs = y # ys" by (cases "split_on c xs") auto
  with Cons show ?case by (cases ys) auto
qed simp

lemma split_join:
  "xs \<noteq> [] \<Longrightarrow> (\<And>x. x \<in> set xs \<Longrightarrow> c \<notin> set x) \<Longrightarrow> split_on c (join_with [c] xs) = xs"
proof (induction xs rule: induct_list012)
  case (3 x y zs)
  then have "split_on c (join_with [c] (y # zs)) = y # zs" by simp
  with "3.prems" show ?case by (simp add: split_on_sep)
qed (simp_all add: split_on_no_sep)

lemma trim_space_id: "(\<And>c. c \<in> set s \<Longrightarrow> \<not> is_space c) \<Longrightarrow> trim_space s = s"
proof -
  assume "\<And>c. c \<in> set s \<Longrightarrow> \<not> is_space c"
  then have *: "list_all (\<lambda>c. \<not> is_space c) s" by (simp add: list_all_iff)
  then have "dropWhile is_space s = s" by (cases s) auto
  moreover from * have "list_all (\<lambda>c. \<not> is_space c) (rev s)" by (simp add: list_all_iff)
  then have "dropWhile is_space (rev s) = rev s" by (cases "rev s") auto
  ultimately show ?thesis by (simp add: trim_space_def)
qed

end
