(* ===== verification/Port_Ranges.thy ===== *)
theory Port_Ranges
  imports Go_Prelude
begin

text \<open>
  The port range parser of \<open>pkg/util/portrange.go\<close> and \<open>pkg/util/parsing.go\<close>, which reads
  the opaque-ports and skip-ports annotations. A range is a record of its bounds; an error
  of the source is a value of \<open>port_error\<close>. The lemmas show what a parse accepts, that it
  never leaves the TCP port space, and that printing and parsing are inverse.
\<close>

section \<open>Model\<close>

record PortRange =
  LowerBound :: int
  UpperBound :: int

datatype port_error =
    ErrNotAPort string
  | ErrTooManyBounds
  | ErrLowerBound string
  | ErrUpperBound string
  | ErrUpperLessThanLower string

definition isPort :: "int \<Rightarrow> bool" where
  "isPort port \<longleftrightarrow> 0 \<le> port \<and> port \<le> 65535"

definition ParsePort :: "string \<Rightarrow> port_error + int" where
  "ParsePort port = (case atoi port of
     None \<Rightarrow> Inl (ErrNotAPort port)
   | Some i \<Rightarrow> if \<not> isPort i then Inl (ErrNotAPort port) else Inr i)"

definition ParsePortRange :: "string \<Rightarrow> port_error + PortRange" where
  "ParsePortRange portRange =
     (let bounds = split_on (CHR ''-'') portRange in
      if 2 < length bounds then Inl ErrTooManyBounds
      else
        let bounds = (if length bounds = 1 then bounds @ [hd bounds] else bounds) in
        case atoi (bounds ! 0) of
          None \<Rightarrow> Inl (ErrLowerBound (bounds ! 0))
        | Some lower \<Rightarrow>
            if \<not> isPort lower then Inl (ErrLowerBound (bounds ! 0))
            else (case atoi (bounds ! 1) of
                None \<Rightarrow> Inl (ErrUpperBound (bounds ! 1))
              | Some upper \<Rightarrow>
                  if \<not> isPort upper then Inl (ErrUpperBound (bounds ! 1))
                  else if upper < lower then Inl (ErrUpperLessThanLower portRange)
                  else Inr \<lparr>LowerBound = lower, UpperBound = upper\<rparr>))"

text \<open>\<open>PortRange.Ports\<close> converts each value to \<open>uint16\<close>, \<open>ParsePorts\<close> to \<open>uint32\<close>.\<close>

definition Ports :: "PortRange \<Rightarrow> uint16 list" where
  "Ports pr = map word_of_int [LowerBound pr..UpperBound pr]"

definition ToString :: "PortRange \<Rightarrow> string" where
  "ToString pr =
     (if LowerBound pr = UpperBound pr then itoa (LowerBound pr)
      else itoa (LowerBound pr) @ ''-'' @ itoa (UpperBound pr))"

definition GetPortRanges :: "string \<Rightarrow> string list" where
  "GetPortRanges override = map trim_space (split_on (CHR '','') (trim_suffix override (CHR '','')))"

fun insert_ranges :: "string list \<Rightarrow> uint32 fset \<Rightarrow> uint32 fset" where
  "insert_ranges [] ports = ports"
| "insert_ranges (pr # prs) ports =
     (case ParsePortRange pr of
        Inl _ \<Rightarrow> insert_ranges prs ports
      | Inr r \<Rightarrow>
          insert_ranges prs (ports |\<union>| fset_of_list (map word_of_int [LowerBound r..UpperBound r])))"

definition ParsePorts :: "string \<Rightarrow> uint32 fset" where
  "ParsePorts portsString =
     (if portsString \<noteq> [] then insert_ranges (GetPortRanges portsString) {||} else {||})"

fun container_port_ranges :: "(string, int32) fmap \<Rightarrow> string list \<Rightarrow> PortRange list" where
  "container_port_ranges namedPorts [] = []"
| "container_port_ranges namedPorts (pr # prs) =
     (case fmlookup namedPorts pr of
        Some port \<Rightarrow>
          \<lparr>LowerBound = sint port, UpperBound = sint port\<rparr> # container_port_ranges namedPorts prs
      | None \<Rightarrow>
          (case ParsePortRange pr of
             Inl _ \<Rightarrow> container_port_ranges namedPorts prs
           | Inr r \<Rightarrow> r # container_port_ranges namedPorts prs))"

definition ParseContainerOpaquePorts :: "string \<Rightarrow> (string, int32) fmap \<Rightarrow> PortRange list" where
  "ParseContainerOpaquePorts override namedPorts =
     container_port_ranges namedPorts (GetPortRanges override)"

fun ContainsString :: "string \<Rightarrow> string list \<Rightarrow> bool" where
  "ContainsString str [] = False"
| "ContainsString str (e # es) = (if str = e then True else ContainsString str es)"

section \<open>What a parse accepts\<close>

lemma ParsePortRange_bounds:
  "ParsePortRange s = Inr r \<Longrightarrow>
     0 \<le> LowerBound r \<and> LowerBound r \<le> UpperBound r \<and> UpperBound r \<le> 65535"
  by (auto simp: ParsePortRange_def Let_def isPort_def split: if_splits option.splits)

lemma ParsePortRange_single:
  "CHR ''-'' \<notin> set s \<Longrightarrow> atoi s = Some i \<Longrightarrow> isPort i \<Longrightarrow>
     ParsePortRange s = Inr \<lparr>LowerBound = i, UpperBound = i\<rparr>"
  by (simp add: ParsePortRange_def split_on_no_sep)

lemma ParsePortRange_pair:
  "CHR ''-'' \<notin> set s \<Longrightarrow> CHR ''-'' \<notin> set t \<Longrightarrow> atoi s = Some i \<Longrightarrow> atoi t = Some j \<Longrightarrow>
     isPort i \<Longrightarrow> isPort j \<Longrightarrow> i \<le> j \<Longrightarrow>
     ParsePortRange (s @ ''-'' @ t) = Inr \<lparr>LowerBound = i, UpperBound = j\<rparr>"
  by (simp add: ParsePortRange_def split_on_sep split_on_no_sep)

lemma atoi_itoa_port: "isPort i \<Longrightarrow> atoi (itoa i) = Some i"
  by (simp add: isPort_def)

lemma itoa_port_no_dash: "isPort i \<Longrightarrow> CHR ''-'' \<notin> set (itoa i)"
  by (simp add: isPort_def itoa_no_sep)

text \<open>
  Round trip: a valid range is read back from its printed form; a one-port range
  prints as a single number and is still read back.
\<close>
theorem ParsePortRange_ToString:
  assumes "isPort (LowerBound r)" and "isPort (UpperBound r)" and "LowerBound r \<le> UpperBound r"
  shows "ParsePortRange (ToString r) = Inr r"
proof (cases "LowerBound r = UpperBound r")
  case True
  with assms show ?thesis
    by (simp add: ToString_def ParsePortRange_single atoi_itoa_port itoa_port_no_dash)
next
  case False
  with assms show ?thesis
    by (simp only: ToString_def if_False)
       (subst ParsePortRange_pair [where i = "LowerBound r" and j = "UpperBound r"],
         simp_all add: atoi_itoa_port itoa_port_no_dash)
qed

theorem ParsePortRange_ToString_witness:
  "isPort 80 \<and> isPort 90 \<and>
   ParsePortRange (ToString \<lparr>LowerBound = 80, UpperBound = 90\<rparr>) =
     Inr \<lparr>LowerBound = 80, UpperBound = 90\<rparr>"
  using ParsePortRange_ToString [of "\<lparr>LowerBound = 80, UpperBound = 90\<rparr>"]
  by (simp add: isPort_def)

lemma word_range_mem:
  assumes "0 \<le> LowerBound r" "UpperBound r \<le> 65535"
  shows "p \<in> word_of_int ` {LowerBound r..UpperBound r} \<longleftrightarrow>
    LowerBound r \<le> uint p \<and> uint (p :: uint32) \<le> UpperBound r"
proof
  assume "p \<in> word_of_int ` {LowerBound r..UpperBound r}"
  then obtain i where i: "LowerBound r \<le> i" "i \<le> UpperBound r" "p = word_of_int i" by auto
  with assms have "uint p = i" by (simp add: take_bit_int_eq_self uint_word_of_int_eq)
  with i show "LowerBound r \<le> uint p \<and> uint p \<le> UpperBound r" by simp
next
  assume "LowerBound r \<le> uint p \<and> uint p \<le> UpperBound r"
  then show "p \<in> word_of_int ` {LowerBound r..UpperBound r}"
    by (intro image_eqI [of _ _ "uint p"]) auto
qed

lemma insert_ranges_mem:
  "p |\<in>| insert_ranges prs ports \<longleftrightarrow>
     p |\<in>| ports \<or>
     (\<exists>pr \<in> set prs. \<exists>r. ParsePortRange pr = Inr r \<and> LowerBound r \<le> uint p \<and> uint p \<le> UpperBound r)"
proof (induction prs arbitrary: ports)
  case (Cons pr prs)
  show ?case
  proof (cases "ParsePortRange pr")
    case (Inl e)
    then show ?thesis by (simp add: Cons.IH)
  next
    case (Inr r)
    have "p \<in> word_of_int ` {LowerBound r..UpperBound r} \<longleftrightarrow>
      LowerBound r \<le> uint p \<and> uint p \<le> UpperBound r"
      using ParsePortRange_bounds [OF Inr] by (intro word_range_mem) auto
    then show ?thesis by (auto simp: Inr Cons.IH fset_of_list_elem)
  qed
qed simp

text \<open>
  \<open>ParsePorts\<close> returns exactly the ports of the valid ranges among the comma-separated
  segments: an invalid segment contributes nothing and does not stop the others, and no
  port above 65535 is ever in the result.
\<close>
theorem ParsePorts_spec:
  "p |\<in>| ParsePorts s \<longleftrightarrow>
     s \<noteq> [] \<and> uint p \<le> 65535 \<and>
     (\<exists>seg r. seg \<in> set (GetPortRanges s) \<and> ParsePortRange seg = Inr r \<and>
        LowerBound r \<le> uint p \<and> uint p \<le> UpperBound r)"
proof -
  have "uint p \<le> 65535" if "ParsePortRange seg = Inr r" "uint p \<le> UpperBound r" for seg r
    using ParsePortRange_bounds [OF that(1)] that(2) by simp
  then show ?thesis by (auto simp: ParsePorts_def insert_ranges_mem)
qed

lemma container_port_ranges_mem:
  "r \<in> set (container_port_ranges named prs) \<longleftrightarrow>
     (\<exists>pr \<in> set prs.
        (\<exists>port. fmlookup named pr = Some port \<and> r = \<lparr>LowerBound = sint port, UpperBound = sint port\<rparr>) \<or>
        (fmlookup named pr = None \<and> ParsePortRange pr = Inr r))"
  by (induction named prs rule: container_port_ranges.induct)
     (auto split: option.splits sum.splits)

lemma ContainsString_iff: "ContainsString s xs \<longleftrightarrow> s \<in> set xs"
  by (induction xs) auto

end
