(* ===== verification/Update_Queue.thy ===== *)
theory Update_Queue
  imports Go_Prelude "HOL-Library.Sublist"
begin

text \<open>
  The bounded queue between the informer callbacks and the goroutine of a translator:
  \<open>enqueueUpdate\<close>, \<open>Start\<close>, \<open>Stop\<close> and \<open>DrainAndStop\<close> of \<open>endpoint_translator.go\<close>. The profile
  translators have the same queue (\<open>profileTranslator.Update\<close>,
  \<open>endpointProfileTranslator.Update\<close>), so the type of updates and the state they act on are
  parameters.

  A channel is a list of waiting values and a mark that it is closed. Sending on a closed
  channel and closing it again panic: \<open>None\<close>. The goroutine takes one step at a time,
  interleaved in any order with the callers; where an update and a stop are both ready,
  either may be taken, as in a Go \<open>select\<close>.
\<close>

section \<open>Model\<close>

record ('u, 's) update_queue =
  uq_updates :: "'u list"
  uq_updatesClosed :: bool
  uq_endStreamClosed :: bool
  uq_overflowCounter :: nat
  uq_stopClosed :: bool
  uq_running :: bool
  uq_state :: 's

definition updateQueueCapacity :: nat where
  "updateQueueCapacity = 100"

definition new_queue :: "'s \<Rightarrow> ('u, 's) update_queue" where
  "new_queue s =
     \<lparr>uq_updates = [], uq_updatesClosed = False, uq_endStreamClosed = False, uq_overflowCounter = 0,
      uq_stopClosed = False, uq_running = True, uq_state = s\<rparr>"

definition enqueueUpdate :: "('u, 's) update_queue \<Rightarrow> 'u \<Rightarrow> ('u, 's) update_queue option" where
  "enqueueUpdate q update =
     (if uq_updatesClosed q then None
      else if length (uq_updates q) < updateQueueCapacity
      then Some (q\<lparr>uq_updates := uq_updates q @ [update]\<rparr>)
      else
        let q1 = q\<lparr>uq_overflowCounter := Suc (uq_overflowCounter q)\<rparr> in
        if uq_endStreamClosed q1 then Some q1 else Some (q1\<lparr>uq_endStreamClosed := True\<rparr>))"

definition uq_Stop :: "('u, 's) update_queue \<Rightarrow> ('u, 's) update_queue option" where
  "uq_Stop q = (if uq_stopClosed q then None else Some (q\<lparr>uq_stopClosed := True\<rparr>))"

definition DrainAndStop :: "('u, 's) update_queue \<Rightarrow> ('u, 's) update_queue option" where
  "DrainAndStop q = (if uq_updatesClosed q then None else Some (q\<lparr>uq_updatesClosed := True\<rparr>))"

text \<open>One iteration of the loop in \<open>Start\<close>.\<close>

inductive loop_step :: "('s \<Rightarrow> 'u \<Rightarrow> 's) \<Rightarrow> ('u, 's) update_queue \<Rightarrow> ('u, 's) update_queue \<Rightarrow> bool"
  for process where
  loop_update: "uq_running q \<Longrightarrow> uq_updates q = update # us \<Longrightarrow>
     loop_step process q (q\<lparr>uq_updates := us, uq_state := process (uq_state q) update\<rparr>)"
| loop_closed: "uq_running q \<Longrightarrow> uq_updates q = [] \<Longrightarrow> uq_updatesClosed q \<Longrightarrow>
     loop_step process q (q\<lparr>uq_running := False\<rparr>)"
| loop_stop: "uq_running q \<Longrightarrow> uq_stopClosed q \<Longrightarrow> loop_step process q (q\<lparr>uq_running := False\<rparr>)"

text \<open>
  The whole system: a caller enqueues, stops or drains, or the goroutine moves. The list is
  what was enqueued by the step.
\<close>

inductive queue_step :: "('s \<Rightarrow> 'u \<Rightarrow> 's) \<Rightarrow> ('u, 's) update_queue \<Rightarrow> 'u list \<Rightarrow> ('u, 's) update_queue \<Rightarrow> bool"
  for process where
  step_enqueue: "enqueueUpdate q update = Some q' \<Longrightarrow> queue_step process q [update] q'"
| step_stop: "uq_Stop q = Some q' \<Longrightarrow> queue_step process q [] q'"
| step_drain: "DrainAndStop q = Some q' \<Longrightarrow> queue_step process q [] q'"
| step_loop: "loop_step process q q' \<Longrightarrow> queue_step process q [] q'"

inductive queue_run :: "('s \<Rightarrow> 'u \<Rightarrow> 's) \<Rightarrow> ('u, 's) update_queue \<Rightarrow> 'u list \<Rightarrow> ('u, 's) update_queue \<Rightarrow> bool"
  for process where
  run_refl: "queue_run process q [] q"
| run_step: "queue_run process q us q' \<Longrightarrow> queue_step process q' vs q'' \<Longrightarrow> queue_run process q (us @ vs) q''"

inductive_cases loop_stepE: "loop_step process q q'"
inductive_cases queue_stepE: "queue_step process q us q'"

section \<open>Invariant of every run\<close>

text \<open>
  \<open>queue_inv process s0 us q\<close> for a queue that started in state \<open>s0\<close> and was offered \<open>us\<close>.
\<close>

definition queue_inv :: "('s \<Rightarrow> 'u \<Rightarrow> 's) \<Rightarrow> 's \<Rightarrow> 'u list \<Rightarrow> ('u, 's) update_queue \<Rightarrow> bool" where
  "queue_inv process s0 us q \<longleftrightarrow>
     length (uq_updates q) \<le> updateQueueCapacity \<and>
     (uq_endStreamClosed q \<longleftrightarrow> 0 < uq_overflowCounter q) \<and>
     (\<exists>handled. uq_state q = foldl process s0 handled \<and> subseq (handled @ uq_updates q) us \<and>
        (\<not> uq_endStreamClosed q \<longrightarrow> handled @ uq_updates q = us))"

lemma queue_inv_init: "queue_inv process s [] (new_queue s)"
  by (auto simp: queue_inv_def new_queue_def)

lemma queue_invE:
  assumes "queue_inv process s0 us q"
  obtains handled where "length (uq_updates q) \<le> updateQueueCapacity"
    "uq_endStreamClosed q \<longleftrightarrow> 0 < uq_overflowCounter q" "uq_state q = foldl process s0 handled"
    "subseq (handled @ uq_updates q) us" "\<not> uq_endStreamClosed q \<longrightarrow> handled @ uq_updates q = us"
  using assms unfolding queue_inv_def by (elim conjE exE) (rule that)

lemma queue_inv_enqueue:
  assumes "queue_inv process s0 us q" "enqueueUpdate q u = Some q'"
  shows "queue_inv process s0 (us @ [u]) q'"
  using assms(1)
proof (rule queue_invE)
  fix handled
  assume h: "length (uq_updates q) \<le> updateQueueCapacity"
    "uq_endStreamClosed q \<longleftrightarrow> 0 < uq_overflowCounter q" "uq_state q = foldl process s0 handled"
    "subseq (handled @ uq_updates q) us" "\<not> uq_endStreamClosed q \<longrightarrow> handled @ uq_updates q = us"
  have "subseq (handled @ uq_updates q) (us @ [u])"
    using h(4) by (rule subseq_order.trans) (simp add: subseq_rev_drop_many)
  moreover have "subseq (handled @ uq_updates q @ [u]) (us @ [u])"
    using list_emb_append_mono [OF h(4), of "[u]" "[u]"] by simp
  ultimately show ?thesis
    using assms(2) h unfolding queue_inv_def
    by (intro conjI exI [of _ handled]) (auto simp: enqueueUpdate_def Let_def split: if_splits)
qed

lemma queue_inv_loop:
  assumes "queue_inv process s0 us q" "loop_step process q q'"
  shows "queue_inv process s0 us q'"
  using assms(1)
proof (rule queue_invE)
  fix handled
  assume h: "length (uq_updates q) \<le> updateQueueCapacity"
    "uq_endStreamClosed q \<longleftrightarrow> 0 < uq_overflowCounter q" "uq_state q = foldl process s0 handled"
    "subseq (handled @ uq_updates q) us" "\<not> uq_endStreamClosed q \<longrightarrow> handled @ uq_updates q = us"
  from assms(2) show ?thesis
  proof (rule loop_stepE)
    fix u rest
    assume u: "uq_updates q = u # rest"
      and q': "q' = q\<lparr>uq_updates := rest, uq_state := process (uq_state q) u\<rparr>"
    show ?thesis unfolding queue_inv_def q'
      using h u by (intro conjI exI [of _ "handled @ [u]"]) auto
  qed (use h in \<open>auto simp: queue_inv_def\<close>)
qed

lemma queue_run_inv:
  assumes "queue_run process q us q'" "q = new_queue s0"
  shows "queue_inv process s0 us q'"
  using assms
proof (induction rule: queue_run.induct)
  case (run_refl q)
  then show ?case by (simp add: queue_inv_init)
next
  case (run_step q us q' vs q'')
  then have "queue_inv process s0 us q'" by simp
  with run_step.hyps(2) show ?case
  proof (induction rule: queue_step.induct)
    case (step_stop q q')
    then show ?case by (auto simp: uq_Stop_def queue_inv_def split: if_splits)
  next
    case (step_drain q q')
    then show ?case by (auto simp: DrainAndStop_def queue_inv_def split: if_splits)
  qed (simp_all add: queue_inv_enqueue queue_inv_loop)
qed

section \<open>Draining\<close>

text \<open>
  After \<open>DrainAndStop\<close> the goroutine handles every waiting update and returns, unless it is
  also stopped.
\<close>

lemma drain_terminates:
  assumes "uq_running q" "uq_updatesClosed q"
  shows "\<exists>q'. (loop_step process)\<^sup>*\<^sup>* q q' \<and> \<not> uq_running q' \<and> uq_updates q' = [] \<and>
    uq_state q' = foldl process (uq_state q) (uq_updates q)"
  using assms
proof (induction "uq_updates q" arbitrary: q)
  case Nil
  then have "loop_step process q (q\<lparr>uq_running := False\<rparr>)" by (simp add: loop_closed)
  with Nil show ?case by (intro exI [of _ "q\<lparr>uq_running := False\<rparr>"]) auto
next
  case (Cons u us)
  let ?q = "q\<lparr>uq_updates := us, uq_state := process (uq_state q) u\<rparr>"
  have 1: "loop_step process q ?q" using Cons by (intro loop_update) simp_all
  from Cons.hyps(1) [of ?q] Cons.prems obtain q' where
    "(loop_step process)\<^sup>*\<^sup>* ?q q'" "\<not> uq_running q'" "uq_updates q' = []"
    "uq_state q' = foldl process (process (uq_state q) u) us" by auto
  with 1 Cons.hyps(2) [symmetric] show ?case
    by (intro exI [of _ q']) (auto intro: converse_rtranclp_into_rtranclp)
qed

text \<open>A step of the goroutine takes an update from the queue or ends the goroutine.\<close>

lemma loop_step_measure:
  "loop_step process q q' \<Longrightarrow>
     length (uq_updates q') + (if uq_running q' then 1 else 0) <
     length (uq_updates q) + (if uq_running q then 1 else 0)"
  by (auto elim!: loop_stepE)

lemma drained_final:
  assumes "(loop_step process)\<^sup>*\<^sup>* q q'" "\<not> uq_stopClosed q" "uq_running q"
  shows "\<exists>handled. uq_updates q = handled @ uq_updates q' \<and>
    uq_state q' = foldl process (uq_state q) handled \<and> \<not> uq_stopClosed q' \<and>
    (uq_running q' \<or> uq_updates q' = [])"
  using assms
proof (induction rule: rtranclp_induct)
  case (step q1 q2)
  then obtain handled where h: "uq_updates q = handled @ uq_updates q1"
    "uq_state q1 = foldl process (uq_state q) handled" "\<not> uq_stopClosed q1" by auto
  from step.hyps(2) show ?case
  proof (rule loop_stepE)
    fix u rest
    assume "uq_running q1" "uq_updates q1 = u # rest"
      "q2 = q1\<lparr>uq_updates := rest, uq_state := process (uq_state q1) u\<rparr>"
    with h show ?thesis by (intro exI [of _ "handled @ [u]"]) auto
  qed (use h in auto)
qed auto

end
