(* ===== verification/Net_Addr.thy ===== *)
theory Net_Addr
  imports Go_Prelude
begin

text \<open>
  IP addresses: the parts of \<open>net/netip\<close> and \<open>net\<close> that the controller calls (\<open>ParseAddr\<close>,
  \<open>ParseAddrPort\<close>, \<open>IP.String\<close>), and \<open>pkg/addr/addr.go\<close> on top of them. Bytes are natural
  numbers below 256, lists of bytes are in network order.
\<close>

section \<open>Model: parsing of IP addresses\<close>

text \<open>
  \<open>parseIPv4Fields\<close>: the loop over the characters, with the previous character, the fields
  done, the value and the number of digits of the current field.
\<close>

fun ipv4_loop :: "char option \<Rightarrow> nat list \<Rightarrow> nat \<Rightarrow> nat \<Rightarrow> string \<Rightarrow> nat list option" where
  "ipv4_loop prev fs val digLen [] = (if length fs < 3 then None else Some (fs @ [val]))"
| "ipv4_loop prev fs val digLen (c # s) =
     (if is_digit c then
        if digLen = 1 \<and> val = 0 then None
        else (let val = val * 10 + (of_char c - 48) in
          if 255 < val then None else ipv4_loop (Some c) fs val (Suc digLen) s)
      else if c = CHR ''.'' then
        if prev = None \<or> s = [] \<or> prev = Some (CHR ''.'') then None
        else if length fs = 3 then None
        else ipv4_loop (Some c) (fs @ [val]) 0 0 s
      else None)"

definition parse_ipv4 :: "string \<Rightarrow> nat list option" where
  "parse_ipv4 s = ipv4_loop None [] 0 0 s"

definition hex_val :: "char \<Rightarrow> nat option" where
  "hex_val c =
     (let n = (of_char c :: nat) in
      if 48 \<le> n \<and> n \<le> 57 then Some (n - 48)
      else if 97 \<le> n \<and> n \<le> 102 then Some (n - 97 + 10)
      else if 65 \<le> n \<and> n \<le> 70 then Some (n - 65 + 10)
      else None)"

text \<open>The hex digits at the front: how many, their value, the rest; \<open>None\<close> when too many.\<close>

fun hex_run :: "nat \<Rightarrow> nat \<Rightarrow> string \<Rightarrow> (nat \<times> nat \<times> string) option" where
  "hex_run off acc [] = Some (off, acc, [])"
| "hex_run off acc (c # s) = (case hex_val c of
     None \<Rightarrow> Some (off, acc, c # s)
   | Some d \<Rightarrow>
       let acc = 16 * acc + d in
       if 3 < off then None else if 65535 < acc then None else hex_run (Suc off) acc s)"

text \<open>
  The loop of \<open>parseIPv6\<close>: \<open>k\<close> groups may still follow, \<open>bs\<close> are the bytes so far, \<open>ell\<close> the
  position of the ellipsis.
\<close>

fun ipv6_loop :: "nat \<Rightarrow> nat list \<Rightarrow> nat option \<Rightarrow> string \<Rightarrow> (nat list \<times> nat option \<times> string) option" where
  "ipv6_loop 0 bs ell s = Some (bs, ell, s)"
| "ipv6_loop (Suc k) bs ell s = (case hex_run 0 0 s of
     None \<Rightarrow> None
   | Some (off, acc, rest) \<Rightarrow>
       if off = 0 then None
       else if rest \<noteq> [] \<and> hd rest = CHR ''.'' then
         if ell = None \<and> length bs \<noteq> 12 then None
         else if 16 < length bs + 4 then None
         else (case parse_ipv4 s of None \<Rightarrow> None | Some f \<Rightarrow> Some (bs @ f, ell, []))
       else
         let bs = bs @ [acc div 256, acc mod 256] in
         (case rest of
            [] \<Rightarrow> Some (bs, ell, [])
          | c # rest \<Rightarrow>
              if c \<noteq> CHR '':'' then None
              else if rest = [] then None
              else if hd rest = CHR '':'' then
                if ell \<noteq> None then None
                else if tl rest = [] then Some (bs, Some (length bs), [])
                else ipv6_loop k bs (Some (length bs)) (tl rest)
              else ipv6_loop k bs ell rest))"

definition expand_ellipsis :: "nat list \<Rightarrow> nat option \<Rightarrow> nat list option" where
  "expand_ellipsis bs ell =
     (if length bs < 16 then (case ell of
          None \<Rightarrow> None
        | Some e \<Rightarrow> Some (take e bs @ replicate (16 - length bs) 0 @ drop e bs))
      else if ell \<noteq> None then None
      else Some bs)"

definition parse_ipv6_body :: "string \<Rightarrow> nat list option" where
  "parse_ipv6_body s =
     (let lead = take 2 s = ''::''; s1 = (if lead then drop 2 s else s) in
      if lead \<and> s1 = [] then Some (replicate 16 0)
      else (case ipv6_loop 8 [] (if lead then Some 0 else None) s1 of
          None \<Rightarrow> None
        | Some (bs, ell, rest) \<Rightarrow> if rest \<noteq> [] then None else expand_ellipsis bs ell))"

text \<open>A \<open>netip.Addr\<close>: four bytes, or sixteen bytes with a zone.\<close>

datatype netip_addr = AddrV4 "nat list" | AddrV6 "nat list" string

definition parse_ipv6 :: "string \<Rightarrow> netip_addr option" where
  "parse_ipv6 s =
     (if CHR ''%'' \<in> set s then
        let body = takeWhile (\<lambda>c. c \<noteq> CHR ''%'') s; zone = tl (dropWhile (\<lambda>c. c \<noteq> CHR ''%'') s) in
        if zone = [] then None else map_option (\<lambda>bs. AddrV6 bs zone) (parse_ipv6_body body)
      else map_option (\<lambda>bs. AddrV6 bs []) (parse_ipv6_body s))"

fun addr_kind :: "string \<Rightarrow> char option" where
  "addr_kind [] = None"
| "addr_kind (c # s) = (if c \<in> {CHR ''.'', CHR '':'', CHR ''%''} then Some c else addr_kind s)"

definition ParseAddr :: "string \<Rightarrow> netip_addr option" where
  "ParseAddr s = (case addr_kind s of
     None \<Rightarrow> None
   | Some c \<Rightarrow>
       if c = CHR ''.'' then map_option AddrV4 (parse_ipv4 s)
       else if c = CHR '':'' then parse_ipv6 s
       else None)"

text \<open>
  \<open>netip.ParseAddrPort\<close>: split at the last colon, brackets exactly around an IPv6 address, a
  port of 16 bits.
\<close>

definition split_last_colon :: "string \<Rightarrow> (string \<times> string) option" where
  "split_last_colon s =
     (if CHR '':'' \<in> set s then
        let port = rev (takeWhile (\<lambda>c. c \<noteq> CHR '':'') (rev s)) in
        Some (take (length s - length port - 1) s, port)
      else None)"

definition parse_uint16 :: "string \<Rightarrow> nat option" where
  "parse_uint16 s =
     (if s = [] \<or> \<not> list_all is_digit s then None
      else if digits_val s < 2 ^ 16 then Some (digits_val s) else None)"

definition ParseAddrPort :: "string \<Rightarrow> (netip_addr \<times> nat) option" where
  "ParseAddrPort s = (case split_last_colon s of
     None \<Rightarrow> None
   | Some (ip, port) \<Rightarrow>
       if ip = [] \<or> port = [] then None
       else
         let v6 = hd ip = CHR ''['' in
         if v6 \<and> (length ip < 2 \<or> last ip \<noteq> CHR '']'') then None
         else (case (parse_uint16 port, ParseAddr (if v6 then butlast (tl ip) else ip)) of
             (Some p, Some (AddrV4 bs)) \<Rightarrow> if v6 then None else Some (AddrV4 bs, p)
           | (Some p, Some (AddrV6 bs z)) \<Rightarrow> if v6 then Some (AddrV6 bs z, p) else None
           | _ \<Rightarrow> None))"

section \<open>Model: printing of IP addresses\<close>

definition ipv4_string :: "nat list \<Rightarrow> string" where
  "ipv4_string bs = join_with ''.'' (map dec_of_nat bs)"

definition hex_char :: "nat \<Rightarrow> char" where
  "hex_char d = (if d < 10 then char_of (48 + d) else char_of (97 + (d - 10)))"

definition hex_string :: "nat \<Rightarrow> string" where
  "hex_string n =
     (if n < 16 then [hex_char n]
      else if n < 256 then [hex_char (n div 16), hex_char (n mod 16)]
      else if n < 4096 then [hex_char (n div 256), hex_char (n div 16 mod 16), hex_char (n mod 16)]
      else [hex_char (n div 4096), hex_char (n div 256 mod 16), hex_char (n div 16 mod 16), hex_char (n mod 16)])"

fun groups :: "nat list \<Rightarrow> nat list" where
  "groups (a # b # bs) = (256 * a + b) # groups bs"
| "groups _ = []"

definition zero_run :: "nat list \<Rightarrow> nat \<Rightarrow> nat" where
  "zero_run gs i = length (takeWhile (\<lambda>g. g = 0) (drop i gs))"

text \<open>The longest run of at least two zero groups, the first of several: start and end.\<close>

definition best_zero_run :: "nat list \<Rightarrow> (nat \<times> nat) option" where
  "best_zero_run gs =
     fold (\<lambda>i best. let l = zero_run gs i in
         if 2 \<le> l \<and> (case best of None \<Rightarrow> True | Some (a, b) \<Rightarrow> b - a < l)
         then Some (i, i + l) else best)
       [0..<8] None"

definition ipv6_string :: "nat list \<Rightarrow> string" where
  "ipv6_string bs =
     (let gs = groups bs in case best_zero_run gs of
        None \<Rightarrow> join_with '':'' (map hex_string gs)
      | Some (a, b) \<Rightarrow>
          join_with '':'' (map hex_string (take a gs)) @ ''::'' @ join_with '':'' (map hex_string (drop b gs)))"

text \<open>\<open>net.IP.String\<close> for four or sixteen bytes: an IPv4-mapped address prints as IPv4.\<close>

definition IP_String :: "nat list \<Rightarrow> string" where
  "IP_String bs =
     (if length bs = 4 then ipv4_string bs
      else if take 12 bs = replicate 10 0 @ [255, 255] then ipv4_string (drop 12 bs)
      else ipv6_string bs)"

section \<open>Model: \<open>pkg/addr\<close>\<close>

text \<open>\<open>binary.BigEndian\<close>: bytes to a number and back.\<close>

definition be_val :: "nat list \<Rightarrow> nat" where
  "be_val = foldl (\<lambda>a b. 256 * a + b) 0"

fun be_bytes :: "nat \<Rightarrow> nat \<Rightarrow> nat list" where
  "be_bytes 0 n = []"
| "be_bytes (Suc k) n = be_bytes k (n div 256) @ [n mod 256]"

text \<open>
  The address message of the proxy API, and the one of the viz API. A nil message and one
  whose \<open>ip\<close> is not set are \<open>None\<close> of an option.
\<close>

datatype IPAddress = Ipv4 uint32 | Ipv6 "64 word" "64 word"

datatype l5d_IPAddress = L5dIpv4 uint32 | L5dIpv6 "64 word" "64 word"

record TcpAddress =
  tcp_Ip :: "IPAddress option"
  tcp_Port :: uint32

record l5d_TcpAddress =
  l5d_Ip :: "l5d_IPAddress option"
  l5d_Port :: uint32

definition ParseProxyIP :: "string \<Rightarrow> string + IPAddress" where
  "ParseProxyIP ip = (case ParseAddr ip of
     None \<Rightarrow> Inl (''invalid IP address: '' @ ip)
   | Some (AddrV4 bs) \<Rightarrow> Inr (Ipv4 (of_nat (be_val bs)))
   | Some (AddrV6 bs _) \<Rightarrow> Inr (Ipv6 (of_nat (be_val (take 8 bs))) (of_nat (be_val (drop 8 bs)))))"

definition FromProxyAPI :: "IPAddress option \<Rightarrow> l5d_IPAddress option" where
  "FromProxyAPI ip = (case ip of
     None \<Rightarrow> None
   | Some (Ipv6 hi lo) \<Rightarrow> Some (L5dIpv6 hi lo)
   | Some (Ipv4 v) \<Rightarrow> Some (L5dIpv4 v))"

definition ParsePublicIP :: "string \<Rightarrow> string + l5d_IPAddress option" where
  "ParsePublicIP ip = (case ParseProxyIP ip of Inl err \<Rightarrow> Inl err | Inr addr \<Rightarrow> Inr (FromProxyAPI (Some addr)))"

definition NetToPublic :: "TcpAddress \<Rightarrow> l5d_TcpAddress" where
  "NetToPublic net = \<lparr>l5d_Ip = FromProxyAPI (tcp_Ip net), l5d_Port = tcp_Port net\<rparr>"

definition IPToInt :: "nat list \<Rightarrow> nat" where
  "IPToInt ip = be_val ip"

text \<open>\<open>intip.Uint64()\<close> keeps the low 64 bits, \<open>uint32\<close> the low 32.\<close>

definition IntToIPv4 :: "nat \<Rightarrow> nat list" where
  "IntToIPv4 intip = be_bytes 4 (intip mod 2 ^ 64 mod 2 ^ 32)"

definition decodeIPv4ToNetIP :: "uint32 \<Rightarrow> nat list" where
  "decodeIPv4ToNetIP ip = IntToIPv4 (unat ip)"

definition PublicIPToString :: "l5d_IPAddress option \<Rightarrow> string" where
  "PublicIPToString ip = (case ip of
     Some (L5dIpv6 hi lo) \<Rightarrow> IP_String (be_bytes 8 (unat hi) @ be_bytes 8 (unat lo))
   | Some (L5dIpv4 v) \<Rightarrow> if v \<noteq> 0 then IP_String (decodeIPv4ToNetIP v) else []
   | None \<Rightarrow> [])"

definition PublicAddressToString :: "l5d_TcpAddress \<Rightarrow> string" where
  "PublicAddressToString addr =
     join_host_port (PublicIPToString (l5d_Ip addr)) (itoa (uint (l5d_Port addr)))"

definition ProxyAddressToString :: "TcpAddress \<Rightarrow> string" where
  "ProxyAddressToString addr = (case FromProxyAPI (tcp_Ip addr) of
     None \<Rightarrow> []
   | Some vizIP \<Rightarrow> join_host_port (PublicIPToString (Some vizIP)) (itoa (uint (tcp_Port addr))))"

section \<open>Lemmas\<close>

lemmas ip_eval = ParseProxyIP_def ParseAddr_def parse_ipv4_def parse_ipv6_def parse_ipv6_body_def
  expand_ellipsis_def hex_val_def ParseAddrPort_def split_last_colon_def parse_uint16_def is_digit_def
  digits_val_def be_val_def

lemma be_val_snoc [simp]: "be_val (bs @ [b]) = 256 * be_val bs + b"
  by (simp add: be_val_def)

lemma be_val_be_bytes: "be_val (be_bytes k n) = n mod 256 ^ k"
proof (induction k arbitrary: n)
  case 0
  then show ?case by (simp add: be_val_def)
next
  case (Suc k)
  then show ?case by (simp add: mod_mult2_eq)
qed

lemma be_bytes_length [simp]: "length (be_bytes k n) = k"
  by (induction k arbitrary: n) simp_all

lemma be_bytes_bound: "b \<in> set (be_bytes k n) \<Longrightarrow> b < 256"
  by (induction k arbitrary: n) auto

lemma be_bytes_be_val:
  "\<forall>b \<in> set bs. b < 256 \<Longrightarrow> be_bytes (length bs) (be_val bs) = bs"
proof (induction bs rule: rev_induct)
  case (snoc b bs)
  then show ?case by simp
qed simp

text \<open>A field of at most 255 is read back, and the loop goes on behind it.\<close>

lemma ipv4_loop_dec:
  assumes "n < 256"
  shows "\<exists>c k. c \<noteq> CHR ''.'' \<and>
    (\<forall>fs s. ipv4_loop p fs 0 0 (dec_of_nat n @ s) = ipv4_loop (Some c) fs n k s)"
proof -
  have ne: "is_digit c \<Longrightarrow> c \<noteq> CHR ''.''" for c by (auto simp: is_digit_def)
  consider "n < 10" | "10 \<le> n" "n < 100" | "100 \<le> n" by linarith
  then show ?thesis
  proof cases
    case 1
    then show ?thesis
      by (intro exI [of _ "digit_char n"] exI [of _ 1])
         (simp add: ne is_digit_digit_char of_char_digit_char dec_of_nat.simps)
  next
    case 2
    then have "n div 10 < 10" "0 < n div 10" "dec_of_nat n = [digit_char (n div 10), digit_char (n mod 10)]"
      by (simp_all add: dec_of_nat.simps)
    moreover from this(1,2) 2 have "n div 10 * 10 + n mod 10 = n" by simp
    ultimately show ?thesis using assms
      by (intro exI [of _ "digit_char (n mod 10)"] exI [of _ 2])
         (simp add: ne is_digit_digit_char of_char_digit_char Let_def numeral_2_eq_2)
  next
    case 3
    let ?a = "n div 100" and ?b = "n div 10 mod 10" and ?c = "n mod 10"
    from 3 assms have a: "?a < 10" "0 < ?a" by auto
    have aa: "n div 10 div 10 = ?a" by (simp add: div_mult2_eq [symmetric])
    with a 3 have d: "dec_of_nat n = [digit_char ?a, digit_char ?b, digit_char ?c]"
      by (simp add: dec_of_nat.simps [of n] dec_of_nat.simps [of "n div 10"] dec_of_nat.simps [of ?a])
    have ab: "?a * 10 + ?b = n div 10" using div_mult_mod_eq [of "n div 10" 10] by (simp only: aa)
    have e: "(?a * 10 + ?b) * 10 + ?c = n" "?a * 10 + ?b \<le> 255"
      unfolding ab using assms by simp_all
    from a d e assms show ?thesis
      by (intro exI [of _ "digit_char ?c"] exI [of _ 3])
         (simp add: ne is_digit_digit_char of_char_digit_char Let_def numeral_3_eq_3)
  qed
qed

lemma ipv4_loop_field:
  assumes "n < 256" "length fs < 3" "s \<noteq> []"
  shows "\<exists>p'. ipv4_loop p fs 0 0 (dec_of_nat n @ CHR ''.'' # s) = ipv4_loop p' (fs @ [n]) 0 0 s"
proof -
  from ipv4_loop_dec [OF assms(1), of p] obtain c k where "c \<noteq> CHR ''.''"
    and "\<forall>fs s. ipv4_loop p fs 0 0 (dec_of_nat n @ s) = ipv4_loop (Some c) fs n k s" by auto
  with assms(2,3) show ?thesis
    by (intro exI [of _ "Some (CHR ''.'')"]) (simp add: is_digit_def)
qed

lemma parse_ipv4_string:
  assumes "a < 256" "b < 256" "c < 256" "d < 256"
  shows "parse_ipv4 (ipv4_string [a, b, c, d]) = Some [a, b, c, d]"
proof -
  have s: "ipv4_string [a, b, c, d] = dec_of_nat a @ CHR ''.'' # dec_of_nat b @ CHR ''.'' #
      dec_of_nat c @ CHR ''.'' # dec_of_nat d"
    by (simp add: ipv4_string_def)
  obtain p1 where 1: "parse_ipv4 (ipv4_string [a, b, c, d]) =
      ipv4_loop p1 [a] 0 0 (dec_of_nat b @ CHR ''.'' # dec_of_nat c @ CHR ''.'' # dec_of_nat d)"
    using ipv4_loop_field [OF assms(1), of "[]" "dec_of_nat b @ CHR ''.'' # dec_of_nat c @ CHR ''.'' # dec_of_nat d" None]
    by (auto simp: s parse_ipv4_def)
  obtain p2 where 2: "ipv4_loop p1 [a] 0 0 (dec_of_nat b @ CHR ''.'' # dec_of_nat c @ CHR ''.'' # dec_of_nat d) =
      ipv4_loop p2 [a, b] 0 0 (dec_of_nat c @ CHR ''.'' # dec_of_nat d)"
    using ipv4_loop_field [OF assms(2), of "[a]" "dec_of_nat c @ CHR ''.'' # dec_of_nat d" p1] by auto
  obtain p3 where 3: "ipv4_loop p2 [a, b] 0 0 (dec_of_nat c @ CHR ''.'' # dec_of_nat d) =
      ipv4_loop p3 [a, b, c] 0 0 (dec_of_nat d)"
    using ipv4_loop_field [OF assms(3), of "[a, b]" "dec_of_nat d" p2] by auto
  obtain q k where "\<forall>fs s. ipv4_loop p3 fs 0 0 (dec_of_nat d @ s) = ipv4_loop (Some q) fs d k s"
    using ipv4_loop_dec [OF assms(4), of p3] by auto
  from this [rule_format, of "[a, b, c]" "[]"] show ?thesis by (simp add: 1 2 3)
qed

lemma addr_kind_dotted: "list_all is_digit ds \<Longrightarrow> addr_kind (ds @ CHR ''.'' # s) = Some (CHR ''.'')"
proof (induction ds)
  case (Cons d ds)
  then have "d \<noteq> CHR ''.''" "d \<noteq> CHR '':''" "d \<noteq> CHR ''%''" by (auto simp: is_digit_def)
  with Cons show ?case by simp
qed simp

lemma ParseAddr_ipv4_string:
  assumes "length bs = 4" "\<forall>b \<in> set bs. b < 256"
  shows "ParseAddr (ipv4_string bs) = Some (AddrV4 bs)"
proof -
  from assms(1) obtain a b c d where bs: "bs = [a, b, c, d]"
    by (auto simp: length_Suc_conv numeral_eq_Suc)
  have "addr_kind (ipv4_string bs) = Some (CHR ''.'')"
    by (simp add: bs ipv4_string_def addr_kind_dotted)
  with parse_ipv4_string [of a b c d] assms(2) show ?thesis by (simp add: ParseAddr_def bs)
qed

text \<open>
  C20. The text form of an IPv4 address of the proxy API is read back as the same address,
  for every address but \<open>0.0.0.0\<close>, which \<open>PublicIPToString\<close> takes for an unset one.
\<close>

theorem ParseProxyIP_PublicIPToString:
  assumes "v \<noteq> 0"
  shows "ParseProxyIP (PublicIPToString (FromProxyAPI (Some (Ipv4 v)))) = Inr (Ipv4 v)"
proof -
  let ?bs = "be_bytes 4 (unat v)"
  have lt: "unat v < 2 ^ 32" using unsigned_less [of v] by simp
  then have str: "PublicIPToString (FromProxyAPI (Some (Ipv4 v))) = ipv4_string ?bs"
    using assms
    by (simp add: PublicIPToString_def FromProxyAPI_def IP_String_def decodeIPv4ToNetIP_def IntToIPv4_def)
  have "ParseAddr (ipv4_string ?bs) = Some (AddrV4 ?bs)"
    by (rule ParseAddr_ipv4_string) (auto simp: be_bytes_bound)
  with str lt show ?thesis by (simp add: ParseProxyIP_def be_val_be_bytes)
qed

theorem ParseProxyIP_PublicIPToString_witness:
  "ParseProxyIP (PublicIPToString (FromProxyAPI (Some (Ipv4 0xC0A80101)))) = Inr (Ipv4 0xC0A80101)"
  using ParseProxyIP_PublicIPToString [of "0xC0A80101"] by simp

end
