(* ===== verification/Kube_Types.thy ===== *)
theory Kube_Types
  imports Go_Prelude
begin

text \<open>
  The Kubernetes objects the destination controller reads, with the fields its code uses,
  and the watcher's own identifiers and addresses (\<open>watcher/k8s.go\<close>,
  \<open>watcher/endpoints_watcher.go\<close>). \<open>ExternalWorkload\<close> and \<open>Server\<close> are the repository's own
  resources (\<open>controller/gen/apis\<close>).

  The informer caches and the helpers of third-party packages are the fields of \<open>k8s_api\<close>:
  every operation that reads the cluster takes one such record, the contents of the caches
  at the moment of the call, so that a sequence of operations may see different caches.
\<close>

section \<open>Common types\<close>

datatype IntOrString = IntVal int32 | StrVal string

record LabelSelectorRequirement =
  lsr_key :: string
  lsr_operator :: string
  lsr_values :: "string list"

record LabelSelector =
  MatchLabels :: labels
  MatchExpressions :: "LabelSelectorRequirement list"

record OwnerReference =
  or_APIVersion :: string
  or_Kind :: string
  or_Name :: string
  or_UID :: string

record ObjectReference =
  ref_Kind :: string
  ref_Name :: string
  ref_Namespace :: string
  ref_UID :: string

text \<open>
  An argument of an informer's delete callback: the object, the tombstone of an object
  whose final state is unknown (with the object or with something else), or another value.
\<close>

datatype 'a informer_obj = Obj 'a | Tombstone "'a option" | OtherObj

definition informer_object :: "'a informer_obj \<Rightarrow> 'a option" where
  "informer_object obj = (case obj of Obj x \<Rightarrow> Some x | Tombstone x \<Rightarrow> x | OtherObj \<Rightarrow> None)"

section \<open>Pods\<close>

record ContainerPort =
  cp_Name :: string
  cp_ContainerPort :: int32
  cp_HostPort :: int32

record Container =
  c_Name :: string
  c_Ports :: "ContainerPort list"
  c_Env :: "(string \<times> string) list"

record Pod =
  pod_Name :: string
  pod_Namespace :: string
  pod_Labels :: labels
  pod_Annotations :: labels
  pod_ResourceVersion :: string
  pod_DeletionTimestamp :: "nat option"
  pod_NodeName :: string
  pod_ServiceAccountName :: string
  pod_HostNetwork :: bool
  pod_InitContainers :: "Container list"
  pod_Containers :: "Container list"
  pod_Phase :: string
  pod_PodIP :: string
  pod_PodIPs :: "string list"
  pod_HostIP :: string
  pod_HostIPs :: "string list"

section \<open>Services, endpoints and endpoint slices\<close>

record ServicePort =
  sp_Name :: string
  sp_Port :: int32
  sp_Protocol :: string
  sp_TargetPort :: IntOrString

record Service =
  svc_Name :: string
  svc_Namespace :: string
  svc_UID :: string
  svc_Labels :: labels
  svc_Annotations :: labels
  svc_DeletionTimestamp :: "nat option"
  svc_Type :: string
  svc_Ports :: "ServicePort list"
  svc_InternalTrafficPolicy :: "string option"
  svc_Selector :: "labels option"
  svc_ClusterIP :: string
  svc_ClusterIPs :: "string list"
  svc_IPFamilies :: "string list"

record EndpointConditions =
  cond_Ready :: "bool option"
  cond_Serving :: "bool option"
  cond_Terminating :: "bool option"

record Endpoint =
  ep_Addresses :: "string list"
  ep_Conditions :: EndpointConditions
  ep_Hostname :: "string option"
  ep_TargetRef :: "ObjectReference option"
  ep_Zone :: "string option"
  ep_Hints :: "string list option"

record EndpointPort =
  port_Name :: "string option"
  port_Port :: "int32 option"
  port_Protocol :: "string option"

record EndpointSlice =
  es_Name :: string
  es_GenerateName :: string
  es_Namespace :: string
  es_Labels :: labels
  es_Annotations :: labels
  es_OwnerReferences :: "OwnerReference list"
  es_DeletionTimestamp :: "nat option"
  es_AddressType :: string
  es_Ports :: "EndpointPort list option"
  es_Endpoints :: "Endpoint list"

text \<open>The core \<open>Endpoints\<close> resource: subsets of addresses with the ports they share.\<close>

record EndpointAddress =
  ea_IP :: string
  ea_Hostname :: string
  ea_TargetRef :: "ObjectReference option"

record EndpointSubset =
  sub_Addresses :: "EndpointAddress list"
  sub_Ports :: "(string \<times> int32) list"

record Endpoints =
  eps_Name :: string
  eps_Namespace :: string
  eps_Labels :: labels
  eps_Annotations :: labels
  eps_Subsets :: "EndpointSubset list"

section \<open>The repository's own resources\<close>

record PortSpec =
  ps_Name :: string
  ps_Port :: int32
  ps_Protocol :: string

record ExternalWorkload =
  ew_Name :: string
  ew_Namespace :: string
  ew_UID :: string
  ew_Labels :: labels
  ew_Annotations :: labels
  ew_ResourceVersion :: string
  ew_DeletionTimestamp :: "nat option"
  ew_OwnerReferences :: "OwnerReference list"
  ew_Identity :: string
  ew_ServerName :: string
  ew_Ports :: "PortSpec list"
  ew_WorkloadIPs :: "string list"
  ew_Conditions :: "(string \<times> string) list"

record Server =
  srv_Name :: string
  srv_Namespace :: string
  srv_PodSelector :: "LabelSelector option"
  srv_ExternalWorkloadSelector :: "LabelSelector option"
  srv_Port :: IntOrString
  srv_ProxyProtocol :: string

section \<open>Identifiers and addresses of the watcher\<close>

record ID =
  Namespace :: string
  Name :: string
  IPFamily :: string

text \<open>
  Identifiers are ordered field by field; the order serves to list the keys of a map.
\<close>

instantiation ID_ext :: (linorder) linorder
begin

definition less_eq_ID_ext :: "'a ID_scheme \<Rightarrow> 'a ID_scheme \<Rightarrow> bool" where
  "less_eq_ID_ext i j \<longleftrightarrow>
     (Namespace i, Name i, IPFamily i, ID.more i) \<le> (Namespace j, Name j, IPFamily j, ID.more j)"

definition less_ID_ext :: "'a ID_scheme \<Rightarrow> 'a ID_scheme \<Rightarrow> bool" where
  "less_ID_ext i j \<longleftrightarrow>
     (Namespace i, Name i, IPFamily i, ID.more i) < (Namespace j, Name j, IPFamily j, ID.more j)"

instance
proof
  fix i j :: "'a ID_scheme"
  assume "i \<le> j" "j \<le> i"
  then have "(Namespace i, Name i, IPFamily i, ID.more i) = (Namespace j, Name j, IPFamily j, ID.more j)"
    unfolding less_eq_ID_ext_def by (rule order_antisym)
  then show "i = j" by (intro ID.equality) simp_all
qed (auto simp only: less_eq_ID_ext_def less_ID_ext_def less_le_not_le intro: order_trans linear)

end

type_synonym ServiceID = ID
type_synonym PodID = ID
type_synonym ExternalWorkloadID = ID
type_synonym Port = uint32

abbreviation IPv4Protocol :: string where
  "IPv4Protocol \<equiv> ''IPv4''"

abbreviation IPv6Protocol :: string where
  "IPv6Protocol \<equiv> ''IPv6''"

record Address =
  IP :: string
  addr_Port :: Port
  addr_Pod :: "Pod option"
  addr_ExternalWorkload :: "ExternalWorkload option"
  OwnerName :: string
  OwnerKind :: string
  Identity :: string
  AuthorityOverride :: string
  Zone :: "string option"
  ForZones :: "string list"
  OpaqueProtocol :: bool

record AddressSet =
  Addresses :: "(ID, Address) fmap"
  Labels :: labels
  LocalTrafficPolicy :: bool

text \<open>The zero values \<open>ServiceID{}\<close>, \<open>Address{IP: ip, Port: p}\<close> and \<open>AddressSet{}\<close>.\<close>

definition zero_ID :: ID where
  "zero_ID = \<lparr>Namespace = [], Name = [], IPFamily = []\<rparr>"

definition base_Address :: "string \<Rightarrow> Port \<Rightarrow> Address" where
  "base_Address ip p =
     \<lparr>IP = ip, addr_Port = p, addr_Pod = None, addr_ExternalWorkload = None, OwnerName = [],
      OwnerKind = [], Identity = [], AuthorityOverride = [], Zone = None, ForZones = [],
      OpaqueProtocol = False\<rparr>"

definition zero_AddressSet :: AddressSet where
  "zero_AddressSet = \<lparr>Addresses = fmempty, Labels = fmempty, LocalTrafficPolicy = False\<rparr>"

definition shallowCopy :: "AddressSet \<Rightarrow> AddressSet" where
  "shallowCopy addr =
     \<lparr>Addresses = fmempty ++\<^sub>f Addresses addr, Labels = fmempty ++\<^sub>f Labels addr,
      LocalTrafficPolicy = LocalTrafficPolicy addr\<rparr>"

definition svc_ID :: "Service \<Rightarrow> ServiceID" where
  "svc_ID svc = \<lparr>Namespace = svc_Namespace svc, Name = svc_Name svc, IPFamily = []\<rparr>"

text \<open>\<open>ID.String\<close>, the \<open>namespace/name\<close> form used in messages.\<close>

definition ID_String :: "ID \<Rightarrow> string" where
  "ID_String i = Namespace i @ ''/'' @ Name i"

lemma shallowCopy_eq [simp]: "shallowCopy a = a"
  by (simp add: shallowCopy_def)

lemma zero_AddressSet_simps [simp]:
  "Addresses zero_AddressSet = fmempty" "Labels zero_AddressSet = fmempty"
  "LocalTrafficPolicy zero_AddressSet = False"
  by (simp_all add: zero_AddressSet_def)

section \<open>The cluster as the controller sees it\<close>

text \<open>
  An error of a lister is \<open>NotFound\<close> or something else, as \<open>apierrors.IsNotFound\<close> tells
  them apart.
\<close>

datatype api_error = NotFound | OtherError string

text \<open>
  The caches (\<open>Lister().Get\<close>, \<open>Lister().List\<close>), the owner lookup of the metadata API, and
  \<open>metav1.LabelSelectorAsSelector\<close> followed by \<open>Matches\<close>. A nil selector is passed as
  \<open>None\<close>.
\<close>

record k8s_api =
  api_svc :: "string \<Rightarrow> string \<Rightarrow> api_error + Service"
  api_pod :: "string \<Rightarrow> string \<Rightarrow> api_error + Pod"
  api_ew :: "string \<Rightarrow> string \<Rightarrow> api_error + ExternalWorkload"
  api_endpoints :: "string \<Rightarrow> string \<Rightarrow> api_error + Endpoints"
  api_slices :: "string \<Rightarrow> labels \<Rightarrow> api_error + EndpointSlice list"
  api_servers :: "api_error + Server list"
  api_owner :: "Pod \<Rightarrow> api_error + (string \<times> string)"
  api_selector :: "LabelSelector option \<Rightarrow> api_error + (labels \<Rightarrow> bool)"

abbreviation LabelServiceName :: string where
  "LabelServiceName \<equiv> ''kubernetes.io/service-name''"

abbreviation LabelManagedBy :: string where
  "LabelManagedBy \<equiv> ''endpointslice.kubernetes.io/managed-by''"

abbreviation LabelTopologyZone :: string where
  "LabelTopologyZone \<equiv> ''topology.kubernetes.io/zone''"

abbreviation IsHeadlessService :: string where
  "IsHeadlessService \<equiv> ''service.kubernetes.io/headless''"

abbreviation RemoteServiceFqName :: string where
  "RemoteServiceFqName \<equiv> ''mirror.linkerd.io/remote-svc-fq-name''"

abbreviation RemoteGatewayIdentity :: string where
  "RemoteGatewayIdentity \<equiv> ''mirror.linkerd.io/remote-gateway-identity''"

abbreviation RemoteClusterNameLabel :: string where
  "RemoteClusterNameLabel \<equiv> ''mirror.linkerd.io/cluster-name''"

abbreviation ControllerNSLabel :: string where
  "ControllerNSLabel \<equiv> ''linkerd.io/control-plane-ns''"

abbreviation ProxyOpaquePortsAnnotation :: string where
  "ProxyOpaquePortsAnnotation \<equiv> ''config.linkerd.io/opaque-ports''"

abbreviation ProxyIgnoreInboundPortsAnnotation :: string where
  "ProxyIgnoreInboundPortsAnnotation \<equiv> ''config.linkerd.io/skip-inbound-ports''"

abbreviation ProxyContainerName :: string where
  "ProxyContainerName \<equiv> ''linkerd-proxy''"

abbreviation ProxyPortName :: string where
  "ProxyPortName \<equiv> ''linkerd-proxy''"

abbreviation ClusterIPNone :: string where
  "ClusterIPNone \<equiv> ''None''"

abbreviation opaqueProtocol :: string where
  "opaqueProtocol \<equiv> ''opaque''"

end
