(* ===== verification/Sample_Cluster.thy ===== *)
theory Sample_Cluster
  imports Kube_Types
begin

text \<open>
  A small cluster on which the properties are evaluated: one pod with a named port, one
  service, one endpoint slice and its \<open>Endpoints\<close> counterpart, one external workload and one
  opaque server. The label selector of the sample matches when every label of
  \<open>MatchLabels\<close> is present.
\<close>

definition sample_container :: Container where
  "sample_container =
     \<lparr>c_Name = ''app'',
      c_Ports = [\<lparr>cp_Name = ''http'', cp_ContainerPort = 8080, cp_HostPort = 0\<rparr>], c_Env = []\<rparr>"

definition sample_proxy :: Container where
  "sample_proxy =
     \<lparr>c_Name = ''linkerd-proxy'', c_Ports = [],
      c_Env = [(''LINKERD2_PROXY_INBOUND_LISTEN_ADDR'', ''0.0.0.0:4143'')]\<rparr>"

definition sample_pod :: Pod where
  "sample_pod =
     \<lparr>pod_Name = ''web-0'', pod_Namespace = ''ns'',
      pod_Labels = fmap_of_list [(''app'', ''web''), (''linkerd.io/control-plane-ns'', ''linkerd'')],
      pod_Annotations = fmempty, pod_ResourceVersion = ''1'', pod_DeletionTimestamp = None,
      pod_NodeName = ''node-a'', pod_ServiceAccountName = ''web'', pod_HostNetwork = False,
      pod_InitContainers = [], pod_Containers = [sample_container, sample_proxy],
      pod_Phase = ''Running'', pod_PodIP = ''10.0.0.1'', pod_PodIPs = [''10.0.0.1''],
      pod_HostIP = ''192.168.0.1'', pod_HostIPs = [''192.168.0.1'']\<rparr>"

definition sample_server :: Server where
  "sample_server =
     \<lparr>srv_Name = ''web-http'', srv_Namespace = ''ns'',
      srv_PodSelector =
        Some \<lparr>MatchLabels = fmap_of_list [(''app'', ''web'')], MatchExpressions = []\<rparr>,
      srv_ExternalWorkloadSelector = None, srv_Port = StrVal ''http'', srv_ProxyProtocol = ''opaque''\<rparr>"

definition sample_service :: Service where
  "sample_service =
     \<lparr>svc_Name = ''web'', svc_Namespace = ''ns'', svc_UID = ''u1'', svc_Labels = fmempty,
      svc_Annotations = fmempty, svc_DeletionTimestamp = None, svc_Type = ''ClusterIP'',
      svc_Ports = [\<lparr>sp_Name = ''http'', sp_Port = 80, sp_Protocol = ''TCP'', sp_TargetPort = StrVal ''http''\<rparr>],
      svc_InternalTrafficPolicy = None, svc_Selector = Some (fmap_of_list [(''app'', ''web'')]),
      svc_ClusterIP = ''10.1.0.1'', svc_ClusterIPs = [''10.1.0.1''], svc_IPFamilies = [''IPv4'']\<rparr>"

definition sample_workload :: ExternalWorkload where
  "sample_workload =
     \<lparr>ew_Name = ''vm-0'', ew_Namespace = ''ns'', ew_UID = ''u2'',
      ew_Labels = fmap_of_list [(''app'', ''web'')], ew_Annotations = fmempty,
      ew_ResourceVersion = ''1'', ew_DeletionTimestamp = None, ew_OwnerReferences = [],
      ew_Identity = ''spiffe://root/vm-0'', ew_ServerName = ''vm-0.ns'',
      ew_Ports = [\<lparr>ps_Name = ''http'', ps_Port = 8080, ps_Protocol = ''TCP''\<rparr>,
                  \<lparr>ps_Name = ''linkerd-proxy'', ps_Port = 4143, ps_Protocol = ''TCP''\<rparr>],
      ew_WorkloadIPs = [''10.2.0.1''], ew_Conditions = [(''Ready'', ''True'')]\<rparr>"

definition sample_endpoint :: Endpoint where
  "sample_endpoint =
     \<lparr>ep_Addresses = [''10.0.0.1''],
      ep_Conditions = \<lparr>cond_Ready = Some True, cond_Serving = None, cond_Terminating = None\<rparr>,
      ep_Hostname = None,
      ep_TargetRef =
        Some \<lparr>ref_Kind = ''Pod'', ref_Name = ''web-0'', ref_Namespace = ''ns'', ref_UID = ''u3''\<rparr>,
      ep_Zone = Some ''west'', ep_Hints = None\<rparr>"

definition sample_slice :: EndpointSlice where
  "sample_slice =
     \<lparr>es_Name = ''web-abc'', es_GenerateName = ''web-'', es_Namespace = ''ns'',
      es_Labels = fmap_of_list [(''kubernetes.io/service-name'', ''web'')], es_Annotations = fmempty,
      es_OwnerReferences = [], es_DeletionTimestamp = None, es_AddressType = ''IPv4'',
      es_Ports = Some [\<lparr>port_Name = Some ''http'', port_Port = Some 8080, port_Protocol = Some ''TCP''\<rparr>],
      es_Endpoints = [sample_endpoint]\<rparr>"

definition sample_endpoints :: Endpoints where
  "sample_endpoints =
     \<lparr>eps_Name = ''web'', eps_Namespace = ''ns'', eps_Labels = fmempty, eps_Annotations = fmempty,
      eps_Subsets =
        [\<lparr>sub_Addresses = [\<lparr>ea_IP = ''10.0.0.1'', ea_Hostname = [],
            ea_TargetRef =
              Some \<lparr>ref_Kind = ''Pod'', ref_Name = ''web-0'', ref_Namespace = ''ns'', ref_UID = ''u3''\<rparr>\<rparr>],
          sub_Ports = [(''http'', 8080)]\<rparr>]\<rparr>"

text \<open>\<open>metav1.LabelSelectorAsSelector\<close> on selectors without expressions; nil matches nothing.\<close>

definition match_labels :: "LabelSelector option \<Rightarrow> api_error + (labels \<Rightarrow> bool)" where
  "match_labels sel = (case sel of
     None \<Rightarrow> Inr (\<lambda>_. False)
   | Some s \<Rightarrow>
       if MatchExpressions s \<noteq> [] then Inl (OtherError ''expressions'')
       else Inr (\<lambda>ls. MatchLabels s \<subseteq>\<^sub>f ls))"

definition sample_api :: k8s_api where
  "sample_api =
     \<lparr>api_svc = (\<lambda>ns n. if ns = ''ns'' \<and> n = ''web'' then Inr sample_service else Inl NotFound),
      api_pod = (\<lambda>ns n. if ns = ''ns'' \<and> n = ''web-0'' then Inr sample_pod else Inl NotFound),
      api_ew = (\<lambda>ns n. if ns = ''ns'' \<and> n = ''vm-0'' then Inr sample_workload else Inl NotFound),
      api_endpoints = (\<lambda>ns n. if ns = ''ns'' \<and> n = ''web'' then Inr sample_endpoints else Inl NotFound),
      api_slices = (\<lambda>ns ls. if ns = ''ns'' \<and> fm_str ls LabelServiceName = ''web''
                             then Inr [sample_slice] else Inr []),
      api_servers = Inr [sample_server],
      api_owner = (\<lambda>pod. Inr (''statefulset'', ''web'')),
      api_selector = match_labels\<rparr>"

lemma sample_server_selects [simp]:
  "api_selector sample_api (srv_PodSelector sample_server) = Inr (\<lambda>ls. fm_str ls ''app'' = ''web'')"
proof -
  have "fmupd ''app'' ''web'' fmempty \<subseteq>\<^sub>f ls \<longleftrightarrow> fm_str ls ''app'' = ''web''" for ls
    by (auto simp: fmsubset_alt_def fm_str_def split: option.splits)
  then show ?thesis by (simp add: sample_api_def match_labels_def sample_server_def fun_eq_iff)
qed

lemma sample_api_simps [simp]:
  "api_servers sample_api = Inr [sample_server]"
  "api_pod sample_api ''ns'' ''web-0'' = Inr sample_pod"
  "api_ew sample_api ''ns'' ''vm-0'' = Inr sample_workload"
  "api_svc sample_api ''ns'' ''web'' = Inr sample_service"
  "api_endpoints sample_api ''ns'' ''web'' = Inr sample_endpoints"
  "api_owner sample_api pod = Inr (''statefulset'', ''web'')"
  by (simp_all add: sample_api_def)

end
