(* ===== verification/Workloads.thy ===== *)
theory Workloads
  imports Port_Ranges Net_Addr Sample_Cluster
begin

text \<open>
  What the controller reads off a pod or an external workload: opaque ports
  (\<open>watcher/workload_watcher.go\<close>), skipped inbound ports (\<open>server.go\<close>), metric labels and the
  service account (\<open>pkg/k8s/labels.go\<close>), and the port of the inbound proxy
  (\<open>endpoint_translator.go\<close>).
\<close>

section \<open>Model\<close>

definition GetNamedPorts :: "Container list \<Rightarrow> (string, int32) fmap" where
  "GetNamedPorts containers =
     fm_put_all (concat (map (\<lambda>container.
         map (\<lambda>p. (cp_Name p, cp_ContainerPort p))
           (filter (\<lambda>p. cp_Name p \<noteq> []) (c_Ports container))) containers)) fmempty"

text \<open>The ports of a list of ranges, each converted to \<open>uint16\<close> and then to \<open>uint32\<close>.\<close>

definition range_ports :: "PortRange list \<Rightarrow> uint32 fset" where
  "range_ports prs = fset_of_list (concat (map (\<lambda>pr. map ucast (Ports pr)) prs))"

definition GetAnnotatedOpaquePorts :: "Pod option \<Rightarrow> uint32 fset \<Rightarrow> uint32 fset" where
  "GetAnnotatedOpaquePorts pod defaultPorts = (case pod of
     None \<Rightarrow> defaultPorts
   | Some pod \<Rightarrow> (case fmlookup (pod_Annotations pod) ProxyOpaquePortsAnnotation of
       None \<Rightarrow> defaultPorts
     | Some annotation \<Rightarrow>
         if annotation \<noteq> []
         then range_ports (ParseContainerOpaquePorts annotation (GetNamedPorts (pod_Containers pod)))
         else {||}))"

fun named_in_ports :: "string \<Rightarrow> PortSpec list \<Rightarrow> int32 option" where
  "named_in_ports pr [] = None"
| "named_in_ports pr (p # ps) = (if ps_Name p = pr then Some (ps_Port p) else named_in_ports pr ps)"

definition isNamedInExternalWorkload :: "string \<Rightarrow> ExternalWorkload \<Rightarrow> int32 option" where
  "isNamedInExternalWorkload pr ew = named_in_ports pr (ew_Ports ew)"

fun ew_port_ranges :: "ExternalWorkload \<Rightarrow> string list \<Rightarrow> PortRange list" where
  "ew_port_ranges ew [] = []"
| "ew_port_ranges ew (pr # prs) =
     (case isNamedInExternalWorkload pr ew of
        Some port \<Rightarrow> \<lparr>LowerBound = sint port, UpperBound = sint port\<rparr> # ew_port_ranges ew prs
      | None \<Rightarrow> (case ParsePortRange pr of
          Inl _ \<Rightarrow> ew_port_ranges ew prs
        | Inr r \<Rightarrow> r # ew_port_ranges ew prs))"

definition parseExternalWorkloadOpaquePorts :: "string \<Rightarrow> ExternalWorkload \<Rightarrow> PortRange list" where
  "parseExternalWorkloadOpaquePorts override ew = ew_port_ranges ew (GetPortRanges override)"

definition GetAnnotatedOpaquePortsForExternalWorkload ::
  "ExternalWorkload option \<Rightarrow> uint32 fset \<Rightarrow> uint32 fset" where
  "GetAnnotatedOpaquePortsForExternalWorkload ew defaultPorts = (case ew of
     None \<Rightarrow> defaultPorts
   | Some ew \<Rightarrow> (case fmlookup (ew_Annotations ew) ProxyOpaquePortsAnnotation of
       None \<Rightarrow> defaultPorts
     | Some annotation \<Rightarrow>
         if annotation \<noteq> [] then range_ports (parseExternalWorkloadOpaquePorts annotation ew)
         else {||}))"

definition isRunning :: "Pod option \<Rightarrow> bool" where
  "isRunning pod = (case pod of None \<Rightarrow> False | Some pod \<Rightarrow> pod_Phase pod = ''Running'')"

text \<open>A nil result of \<open>getPodSkippedInboundPortsAnnotations\<close> reads like the empty set.\<close>

definition getPodSkippedInboundPortsAnnotations :: "Pod \<Rightarrow> uint32 fset" where
  "getPodSkippedInboundPortsAnnotations pod =
     (case fmlookup (pod_Annotations pod) ProxyIgnoreInboundPortsAnnotation of
        None \<Rightarrow> {||}
      | Some annotation \<Rightarrow> if annotation = [] then {||} else ParsePorts annotation)"

definition GetServiceAccountAndNS :: "Pod \<Rightarrow> string \<times> string" where
  "GetServiceAccountAndNS pod =
     (if pod_ServiceAccountName pod = [] then ''default'' else pod_ServiceAccountName pod,
      if pod_Namespace pod = [] then ''default'' else pod_Namespace pod)"

definition KindToL5DLabel :: "string \<Rightarrow> string" where
  "KindToL5DLabel k8sKind = (if k8sKind = ''job'' then ''k8s_job'' else k8sKind)"

definition GetPodLabels :: "string \<Rightarrow> string \<Rightarrow> Pod \<Rightarrow> labels" where
  "GetPodLabels ownerKind ownerName pod =
     (let ls = fmupd ''pod'' (pod_Name pod) fmempty;
          ls = fmupd (KindToL5DLabel ownerKind) ownerName ls;
          ls = fmupd ''serviceaccount'' (fst (GetServiceAccountAndNS pod)) ls;
          controllerNS = fm_str (pod_Labels pod) ControllerNSLabel;
          ls = (if controllerNS \<noteq> [] then fmupd ''control_plane_ns'' controllerNS ls else ls);
          pth = fm_str (pod_Labels pod) ''pod-template-hash''
      in if pth \<noteq> [] then fmupd ''pod_template_hash'' pth ls else ls)"

definition GetExternalWorkloadLabels :: "string \<Rightarrow> string \<Rightarrow> ExternalWorkload \<Rightarrow> labels" where
  "GetExternalWorkloadLabels ownerKind ownerName ew =
     (let ls = fmupd ''external_workload'' (ew_Name ew) fmempty in
      if ownerKind \<noteq> [] \<and> ownerName \<noteq> [] then fmupd ownerKind ownerName ls else ls)"

definition IsMeshed :: "Pod \<Rightarrow> string \<Rightarrow> bool" where
  "IsMeshed pod controllerNS \<longleftrightarrow> fm_str (pod_Labels pod) ControllerNSLabel = controllerNS"

abbreviation envInboundListenAddr :: string where
  "envInboundListenAddr \<equiv> ''LINKERD2_PROXY_INBOUND_LISTEN_ADDR''"

datatype inbound_error = ErrParseInbound string | ErrNoInbound

text \<open>The first matching variable decides: a value that does not parse is an error.\<close>

fun inbound_env :: "(string \<times> string) list \<Rightarrow> (inbound_error + uint32) option" where
  "inbound_env [] = None"
| "inbound_env ((name, v) # env) =
     (if name \<noteq> envInboundListenAddr then inbound_env env
      else Some (case ParseAddrPort v of
          None \<Rightarrow> Inl (ErrParseInbound v)
        | Some (_, port) \<Rightarrow> Inr (of_nat port)))"

fun inbound_containers :: "Container list \<Rightarrow> inbound_error + uint32" where
  "inbound_containers [] = Inl ErrNoInbound"
| "inbound_containers (c # cs) =
     (if c_Name c \<noteq> ProxyContainerName then inbound_containers cs
      else (case inbound_env (c_Env c) of None \<Rightarrow> inbound_containers cs | Some r \<Rightarrow> r))"

definition getInboundPort :: "Pod \<Rightarrow> inbound_error + uint32" where
  "getInboundPort pod = inbound_containers (pod_InitContainers pod @ pod_Containers pod)"

definition getInboundPortFromExternalWorkload :: "ExternalWorkload \<Rightarrow> inbound_error + uint32" where
  "getInboundPortFromExternalWorkload ew = (case named_in_ports ProxyPortName (ew_Ports ew) of
     None \<Rightarrow> Inl ErrNoInbound | Some p \<Rightarrow> Inr p)"

section \<open>Lemmas\<close>

lemma ucast_port_of_int: "0 \<le> i \<Longrightarrow> i \<le> 65535 \<Longrightarrow> ucast (word_of_int i :: uint16) = (word_of_int i :: uint32)"
  by (rule word_uint_eqI) (simp add: unsigned_ucast_eq take_bit_int_eq_self uint_word_of_int_eq)

lemma range_ports_mem:
  assumes "\<forall>r \<in> set prs. 0 \<le> LowerBound r \<and> UpperBound r \<le> 65535"
  shows "p |\<in>| range_ports prs \<longleftrightarrow> (\<exists>r \<in> set prs. LowerBound r \<le> uint p \<and> uint p \<le> UpperBound r)"
proof -
  have "p \<in> (\<lambda>i. ucast (word_of_int i :: uint16)) ` {LowerBound r..UpperBound r} \<longleftrightarrow>
      LowerBound r \<le> uint p \<and> uint p \<le> UpperBound r" if "r \<in> set prs" for r
  proof -
    from assms that have b: "0 \<le> LowerBound r" "UpperBound r \<le> 65535" by auto
    have "(\<lambda>i. ucast (word_of_int i :: uint16)) ` {LowerBound r..UpperBound r} =
        (word_of_int :: int \<Rightarrow> uint32) ` {LowerBound r..UpperBound r}"
      using b by (intro image_cong) (auto simp: ucast_port_of_int)
    with word_range_mem [OF b, of p] show ?thesis by simp
  qed
  then show ?thesis
    by (auto simp: range_ports_def fset_of_list_elem Ports_def image_comp comp_def)
qed

text \<open>
  For a pod whose containers name no ports, the opaque ports of its annotation are what
  \<open>ParsePorts\<close> reads from the same text: the two parsers of the code base agree, although
  one goes through \<open>uint16\<close> and the other does not.
\<close>

theorem GetAnnotatedOpaquePorts_ParsePorts:
  assumes "fmlookup (pod_Annotations pod) ProxyOpaquePortsAnnotation = Some ann"
    and "GetNamedPorts (pod_Containers pod) = fmempty"
  shows "GetAnnotatedOpaquePorts (Some pod) defaults = ParsePorts ann"
proof (cases "ann = []")
  case True
  with assms show ?thesis by (simp add: GetAnnotatedOpaquePorts_def ParsePorts_def)
next
  case False
  let ?rs = "container_port_ranges fmempty (GetPortRanges ann)"
  have rs: "r \<in> set ?rs \<longleftrightarrow> (\<exists>seg \<in> set (GetPortRanges ann). ParsePortRange seg = Inr r)" for r
    by (simp add: container_port_ranges_mem)
  then have "\<forall>r \<in> set ?rs. 0 \<le> LowerBound r \<and> UpperBound r \<le> 65535"
    using ParsePortRange_bounds by blast
  note mem = range_ports_mem [OF this]
  show ?thesis
  proof (rule fset_eqI)
    fix p
    show "p |\<in>| GetAnnotatedOpaquePorts (Some pod) defaults \<longleftrightarrow> p |\<in>| ParsePorts ann"
      using assms False
      by (simp add: GetAnnotatedOpaquePorts_def ParsePorts_def ParseContainerOpaquePorts_def mem
          insert_ranges_mem) (use rs in blast)
  qed
qed

theorem GetAnnotatedOpaquePorts_ParsePorts_witness:
  "GetAnnotatedOpaquePorts (Some (sample_pod\<lparr>pod_Containers := [],
       pod_Annotations := fmap_of_list [(ProxyOpaquePortsAnnotation, ''25,587,3000-3002'')]\<rparr>)) {||} =
     ParsePorts ''25,587,3000-3002''"
  by (rule GetAnnotatedOpaquePorts_ParsePorts) (simp_all add: GetNamedPorts_def)

end
