(* ===== verification/Weighted_Addr.thy ===== *)
theory Weighted_Addr
  imports Workloads
begin

text \<open>
  From an address of the watcher to the message a proxy receives: \<open>toAddr\<close>,
  \<open>createWeightedAddr\<close> and \<open>createWeightedAddrForExternalWorkload\<close> of
  \<open>endpoint_translator.go\<close>, with the message types of the destination API they fill in.

  \<^item> \<open>Http2ClientParams\<close> is passed through unread: a value of the type \<open>http2_params\<close>.
  \<^item> \<open>createWeightedAddrForExternalWorkload\<close> reads the workload before it tests it for nil;
    that dereference is \<open>None\<close>.
\<close>

section \<open>Model: messages\<close>

type_synonym http2_params = nat

datatype tls_strategy = DnsLikeIdentity string | UriLikeIdentity string

record TlsIdentity =
  tls_Strategy :: tls_strategy
  tls_ServerName :: "string option"

datatype hint_protocol = HintH2 | HintOpaque

record ProtocolHint =
  hint_Protocol :: "hint_protocol option"
  hint_OpaqueTransport :: "uint32 option"

record WeightedAddr =
  wa_Addr :: TcpAddress
  wa_Weight :: uint32
  wa_MetricLabels :: labels
  wa_TlsIdentity :: "TlsIdentity option"
  wa_ProtocolHint :: "ProtocolHint option"
  wa_AuthorityOverride :: "string option"
  wa_Http2 :: "http2_params option"

datatype translate_error = ErrAddr string | ErrInbound inbound_error

definition defaultWeight :: uint32 where
  "defaultWeight = 10000"

definition new_WeightedAddr :: "TcpAddress \<Rightarrow> WeightedAddr" where
  "new_WeightedAddr tcpAddr =
     \<lparr>wa_Addr = tcpAddr, wa_Weight = defaultWeight, wa_MetricLabels = fmempty, wa_TlsIdentity = None,
      wa_ProtocolHint = None, wa_AuthorityOverride = None, wa_Http2 = None\<rparr>"

section \<open>Model: operations\<close>

definition toAddr :: "Address \<Rightarrow> string + TcpAddress" where
  "toAddr address = (case ParseProxyIP (IP address) of
     Inl err \<Rightarrow> Inl err
   | Inr ip \<Rightarrow> Inr \<lparr>tcp_Ip = Some ip, tcp_Port = addr_Port address\<rparr>)"

definition zone_label :: "Address \<Rightarrow> string" where
  "zone_label address = (case Zone address of None \<Rightarrow> [] | Some z \<Rightarrow> z)"

text \<open>
  The protocol hint of a meshed address: opaque with the proxy's inbound port, otherwise
  HTTP/2 where it is allowed.
\<close>

definition protocol_hint ::
  "bool \<Rightarrow> (inbound_error + uint32) \<Rightarrow> bool \<Rightarrow> translate_error + ProtocolHint" where
  "protocol_hint opaque inbound h2 =
     (if opaque then (case inbound of
          Inl err \<Rightarrow> Inl (ErrInbound err)
        | Inr port \<Rightarrow> Inr \<lparr>hint_Protocol = Some HintOpaque, hint_OpaqueTransport = Some port\<rparr>)
      else if h2 then Inr \<lparr>hint_Protocol = Some HintH2, hint_OpaqueTransport = None\<rparr>
      else Inr \<lparr>hint_Protocol = None, hint_OpaqueTransport = None\<rparr>)"

definition createWeightedAddrForExternalWorkload ::
  "Address \<Rightarrow> uint32 fset \<Rightarrow> http2_params option \<Rightarrow> (translate_error + WeightedAddr) option" where
  "createWeightedAddrForExternalWorkload address opaquePorts http2 = (case toAddr address of
     Inl err \<Rightarrow> Some (Inl (ErrAddr err))
   | Inr tcpAddr \<Rightarrow> (case addr_ExternalWorkload address of
       None \<Rightarrow> None
     | Some ew \<Rightarrow>
         (case protocol_hint (OpaqueProtocol address \<or> addr_Port address |\<in>| opaquePorts)
                 (getInboundPortFromExternalWorkload ew) True of
            Inl err \<Rightarrow> Some (Inl err)
          | Inr hint \<Rightarrow> Some (Inr ((new_WeightedAddr tcpAddr)
              \<lparr>wa_Http2 := http2, wa_ProtocolHint := Some hint,
               wa_TlsIdentity := Some \<lparr>tls_Strategy = UriLikeIdentity (ew_Identity ew),
                                        tls_ServerName = Some (ew_ServerName ew)\<rparr>,
               wa_MetricLabels := fmupd ''zone'' (zone_label address)
                 (GetExternalWorkloadLabels (OwnerKind address) (OwnerName address) ew)\<rparr>)))))"

definition pod_identity_name :: "Pod \<Rightarrow> string \<Rightarrow> string" where
  "pod_identity_name pod identityTrustDomain =
     (case GetServiceAccountAndNS pod of (sa, ns) \<Rightarrow>
        sa @ ''.'' @ ns @ ''.serviceaccount.identity.'' @
        fm_str (pod_Labels pod) ControllerNSLabel @ ''.'' @ identityTrustDomain)"

definition createWeightedAddr ::
  "Address \<Rightarrow> uint32 fset \<Rightarrow> bool \<Rightarrow> string \<Rightarrow> string \<Rightarrow> http2_params option \<Rightarrow>
     translate_error + WeightedAddr" where
  "createWeightedAddr address opaquePorts enableH2Upgrade identityTrustDomain controllerNS meshedHttp2 =
     (case toAddr address of
        Inl err \<Rightarrow> Inl (ErrAddr err)
      | Inr tcpAddr \<Rightarrow> (case addr_Pod address of
          None \<Rightarrow> Inr (new_WeightedAddr tcpAddr)
        | Some pod \<Rightarrow>
            let skippedInboundPorts = getPodSkippedInboundPortsAnnotations pod;
                controllerNSLabel = fm_str (pod_Labels pod) ControllerNSLabel;
                isSkippedInboundPort = (addr_Port address |\<in>| skippedInboundPorts);
                wa = (new_WeightedAddr tcpAddr)\<lparr>wa_MetricLabels :=
                       fmupd ''zone'' (zone_label address)
                         (GetPodLabels (OwnerKind address) (OwnerName address) pod)\<rparr>;
                tls = (if identityTrustDomain \<noteq> [] \<and> controllerNSLabel = controllerNS \<and> \<not> isSkippedInboundPort
                       then Some \<lparr>tls_Strategy = DnsLikeIdentity (pod_identity_name pod identityTrustDomain),
                                  tls_ServerName = Some (pod_identity_name pod identityTrustDomain)\<rparr>
                       else None)
            in if controllerNSLabel \<noteq> [] \<and> \<not> isSkippedInboundPort
               then (case protocol_hint (OpaqueProtocol address \<or> addr_Port address |\<in>| opaquePorts)
                            (getInboundPort pod) enableH2Upgrade of
                   Inl err \<Rightarrow> Inl err
                 | Inr hint \<Rightarrow> Inr (wa\<lparr>wa_Http2 := meshedHttp2, wa_ProtocolHint := Some hint,
                                      wa_TlsIdentity := tls\<rparr>))
               else Inr (wa\<lparr>wa_TlsIdentity := tls\<rparr>)))"

section \<open>Lemmas\<close>

lemma new_WeightedAddr_simps [simp]:
  "wa_Addr (new_WeightedAddr t) = t" "wa_Weight (new_WeightedAddr t) = defaultWeight"
  "wa_TlsIdentity (new_WeightedAddr t) = None" "wa_ProtocolHint (new_WeightedAddr t) = None"
  by (simp_all add: new_WeightedAddr_def)

lemma createWeightedAddr_addr:
  "createWeightedAddr a ps h2 td ns http2 = Inr wa \<Longrightarrow> toAddr a = Inr (wa_Addr wa)"
  by (auto simp: createWeightedAddr_def Let_def split: sum.splits option.splits if_splits)

lemma createWeightedAddrForExternalWorkload_addr:
  "createWeightedAddrForExternalWorkload a ps http2 = Some (Inr wa) \<Longrightarrow> toAddr a = Inr (wa_Addr wa)"
  by (auto simp: createWeightedAddrForExternalWorkload_def split: sum.splits option.splits)

lemma createWeightedAddrForExternalWorkload_no_panic:
  "addr_ExternalWorkload a = Some ew \<Longrightarrow> createWeightedAddrForExternalWorkload a ps http2 \<noteq> None"
  by (auto simp: createWeightedAddrForExternalWorkload_def split: sum.splits option.splits)



end
