(* ===== verification/Server_Selection.thy ===== *)
theory Server_Selection
  imports Sample_Cluster
begin

text \<open>
  How the watcher decides whether a \<open>Server\<close> resource makes an address opaque:
  \<open>SetToServerProtocol\<close>, \<open>SetToServerProtocolExternalWorkload\<close> and the selection test of
  \<open>portPublisher.isAddressSelected\<close> (\<open>watcher/endpoints_watcher.go\<close>).
\<close>

section \<open>Model\<close>

text \<open>
  The port comparison of \<open>SetToServerProtocol\<close>: a number is compared with the address's
  port, a name is looked up among the ports of the pod's containers, where the container
  port or the host port may be the address's port.
\<close>

definition server_port_match_pod :: "IntOrString \<Rightarrow> Pod \<Rightarrow> Port \<Rightarrow> bool" where
  "server_port_match_pod sport pod port = (case sport of
     IntVal i \<Rightarrow> i = port
   | StrVal name \<Rightarrow>
       (\<exists>c \<in> set (pod_Containers pod). \<exists>p \<in> set (c_Ports c).
          (cp_ContainerPort p = port \<or> cp_HostPort p = port) \<and> cp_Name p = name))"

definition server_port_match_ew :: "IntOrString \<Rightarrow> ExternalWorkload \<Rightarrow> Port \<Rightarrow> bool" where
  "server_port_match_ew sport ew port = (case sport of
     IntVal i \<Rightarrow> i = port
   | StrVal name \<Rightarrow> (\<exists>p \<in> set (ew_Ports ew). ps_Port p = port \<and> ps_Name p = name))"

fun pod_server_loop :: "k8s_api \<Rightarrow> Pod \<Rightarrow> Address \<Rightarrow> Server list \<Rightarrow> api_error + Address" where
  "pod_server_loop api pod address [] = Inr address"
| "pod_server_loop api pod address (server # servers) =
     (case api_selector api (srv_PodSelector server) of
        Inl err \<Rightarrow> Inl err
      | Inr matches \<Rightarrow>
          if srv_ProxyProtocol server = opaqueProtocol \<and> matches (pod_Labels pod) \<and>
             server_port_match_pod (srv_Port server) pod (addr_Port address)
          then Inr (address\<lparr>OpaqueProtocol := True\<rparr>)
          else pod_server_loop api pod address servers)"

definition SetToServerProtocol :: "k8s_api \<Rightarrow> Address \<Rightarrow> api_error + Address" where
  "SetToServerProtocol api address = (case addr_Pod address of
     None \<Rightarrow> Inl (OtherError ''endpoint not backed by Pod'')
   | Some pod \<Rightarrow> (case api_servers api of
        Inl err \<Rightarrow> Inl err
      | Inr servers \<Rightarrow> pod_server_loop api pod address servers))"

fun ew_server_loop ::
  "k8s_api \<Rightarrow> ExternalWorkload \<Rightarrow> Address \<Rightarrow> Server list \<Rightarrow> api_error + Address" where
  "ew_server_loop api ew address [] = Inr address"
| "ew_server_loop api ew address (server # servers) =
     (case api_selector api (srv_ExternalWorkloadSelector server) of
        Inl err \<Rightarrow> Inl err
      | Inr matches \<Rightarrow>
          if srv_ProxyProtocol server = opaqueProtocol \<and> matches (ew_Labels ew) \<and>
             server_port_match_ew (srv_Port server) ew (addr_Port address)
          then Inr (address\<lparr>OpaqueProtocol := True\<rparr>)
          else ew_server_loop api ew address servers)"

definition SetToServerProtocolExternalWorkload :: "k8s_api \<Rightarrow> Address \<Rightarrow> api_error + Address" where
  "SetToServerProtocolExternalWorkload api address = (case addr_ExternalWorkload address of
     None \<Rightarrow> Inl (OtherError ''endpoint not backed by ExternalWorkload'')
   | Some ew \<Rightarrow> (case api_servers api of
        Inl err \<Rightarrow> Inl err
      | Inr servers \<Rightarrow> ew_server_loop api ew address servers))"

text \<open>
  \<open>isAddressSelected\<close>: the test used when a \<open>Server\<close> changes. Its named-port test looks at
  container ports only.
\<close>

definition isAddressSelected :: "k8s_api \<Rightarrow> Address \<Rightarrow> Server option \<Rightarrow> bool" where
  "isAddressSelected api address server = (case server of
     None \<Rightarrow> False
   | Some srv \<Rightarrow> (case addr_Pod address of
       Some pod \<Rightarrow> (case api_selector api (srv_PodSelector srv) of
           Inl _ \<Rightarrow> False
         | Inr matches \<Rightarrow>
             if \<not> matches (pod_Labels pod) then False
             else (case srv_Port srv of
                 IntVal i \<Rightarrow> i = addr_Port address
               | StrVal name \<Rightarrow>
                   (\<exists>c \<in> set (pod_Containers pod). \<exists>p \<in> set (c_Ports c).
                      cp_ContainerPort p = addr_Port address \<and> cp_Name p = name)))
     | None \<Rightarrow> (case addr_ExternalWorkload address of
           None \<Rightarrow> False
         | Some ew \<Rightarrow> (case api_selector api (srv_ExternalWorkloadSelector srv) of
               Inl _ \<Rightarrow> False
             | Inr matches \<Rightarrow>
                 if \<not> matches (ew_Labels ew) then False
                 else (case srv_Port srv of
                     IntVal i \<Rightarrow> i = addr_Port address
                   | StrVal name \<Rightarrow>
                       (\<exists>p \<in> set (ew_Ports ew).
                          ps_Port p = addr_Port address \<and> ps_Name p = name))))))"

section \<open>Lemmas\<close>

text \<open>A server that makes a pod's address opaque, as \<open>SetToServerProtocol\<close> tests it.\<close>

definition opaque_server_pod :: "k8s_api \<Rightarrow> Pod \<Rightarrow> Port \<Rightarrow> Server \<Rightarrow> bool" where
  "opaque_server_pod api pod port s \<longleftrightarrow>
     (\<exists>m. api_selector api (srv_PodSelector s) = Inr m \<and> srv_ProxyProtocol s = opaqueProtocol \<and>
        m (pod_Labels pod) \<and> server_port_match_pod (srv_Port s) pod port)"

lemma pod_server_loop_only_opaque:
  "pod_server_loop api pod a ss = Inr a' \<Longrightarrow> a' = a \<or> a' = a\<lparr>OpaqueProtocol := True\<rparr>"
  by (induction api pod a ss rule: pod_server_loop.induct) (auto split: sum.splits if_splits)

lemma pod_server_loop_ok:
  assumes "\<forall>s \<in> set ss. \<exists>m. api_selector api (srv_PodSelector s) = Inr m"
  shows "pod_server_loop api pod a ss =
    Inr (if \<exists>s \<in> set ss. opaque_server_pod api pod (addr_Port a) s
         then a\<lparr>OpaqueProtocol := True\<rparr> else a)"
  using assms
proof (induction ss)
  case (Cons s ss)
  from Cons.prems obtain m where m: "api_selector api (srv_PodSelector s) = Inr m" by auto
  then have op: "opaque_server_pod api pod (addr_Port a) s \<longleftrightarrow>
    srv_ProxyProtocol s = opaqueProtocol \<and> m (pod_Labels pod) \<and>
    server_port_match_pod (srv_Port s) pod (addr_Port a)"
    by (simp add: opaque_server_pod_def)
  from Cons have IH: "pod_server_loop api pod a ss =
    Inr (if \<exists>s \<in> set ss. opaque_server_pod api pod (addr_Port a) s
         then a\<lparr>OpaqueProtocol := True\<rparr> else a)" by simp
  show ?case by (simp only: pod_server_loop.simps m sum.case IH op [symmetric]) simp
qed simp

lemma ew_server_loop_only_opaque:
  "ew_server_loop api ew a ss = Inr a' \<Longrightarrow> a' = a \<or> a' = a\<lparr>OpaqueProtocol := True\<rparr>"
  by (induction api ew a ss rule: ew_server_loop.induct) (auto split: sum.splits if_splits)

lemma SetToServerProtocol_only_opaque:
  "SetToServerProtocol api a = Inr a' \<Longrightarrow> a' = a \<or> a' = a\<lparr>OpaqueProtocol := True\<rparr>"
  by (auto simp: SetToServerProtocol_def dest: pod_server_loop_only_opaque
      split: option.splits sum.splits)

lemma SetToServerProtocolEW_only_opaque:
  "SetToServerProtocolExternalWorkload api a = Inr a' \<Longrightarrow>
     a' = a \<or> a' = a\<lparr>OpaqueProtocol := True\<rparr>"
  by (auto simp: SetToServerProtocolExternalWorkload_def dest: ew_server_loop_only_opaque
      split: option.splits sum.splits)



end
