(* ===== verification/Port_Publisher.thy ===== *)
theory Port_Publisher
  imports Server_Selection
begin

text \<open>
  The \<open>portPublisher\<close> of \<open>watcher/endpoints_watcher.go\<close>: the address set of one service port
  and the listeners subscribed to it. Every method is an operation on the record
  \<open>portPublisher\<close> that returns the new record and the callbacks it makes, in order, as
  pairs of a listener and an event.

  \<^item> A method that can dereference a nil port number of an \<open>EndpointSlice\<close> returns \<open>None\<close>
    there: the panic of the source.
  \<^item> \<open>addressChanged\<close> sorts the zone lists of both addresses in place; \<open>diffAddresses\<close>
    therefore also returns the new set as it is after the call.
  \<^item> \<open>pp_id\<close> is a field of the struct that \<open>newPortPublisher\<close> never sets.
\<close>

section \<open>Model: data\<close>

datatype ep_event =
    EvAdd AddressSet
  | EvRemove AddressSet
  | EvNoEndpoints bool

type_synonym listener = nat
type_synonym emission = "(listener \<times> ep_event) list"

record endpointsMetrics =
  m_updates :: nat
  m_subscribers :: nat
  m_pods :: nat
  m_exists :: bool

record portPublisher =
  pp_id :: ServiceID
  pp_targetPort :: IntOrString
  pp_srcPort :: Port
  pp_hostname :: string
  pp_enableEndpointSlices :: bool
  pp_exists :: bool
  pp_addresses :: AddressSet
  pp_listeners :: "listener list"
  pp_metrics :: endpointsMetrics
  pp_localTrafficPolicy :: bool

definition undefinedEndpointPort :: Port where
  "undefinedEndpointPort = 0"

text \<open>The callbacks \<open>evs\<close> on each listener in turn (\<open>for _, listener := range pp.listeners\<close>).\<close>

definition notify :: "listener list \<Rightarrow> ep_event list \<Rightarrow> emission" where
  "notify ls evs = concat (map (\<lambda>l. map (Pair l) evs) ls)"

section \<open>Model: metrics\<close>

definition newEndpointsMetrics :: endpointsMetrics where
  "newEndpointsMetrics = \<lparr>m_updates = 0, m_subscribers = 0, m_pods = 0, m_exists = False\<rparr>"

definition incUpdates :: "endpointsMetrics \<Rightarrow> endpointsMetrics" where
  "incUpdates m = m\<lparr>m_updates := Suc (m_updates m)\<rparr>"

definition setPods :: "nat \<Rightarrow> endpointsMetrics \<Rightarrow> endpointsMetrics" where
  "setPods n m = m\<lparr>m_pods := n\<rparr>"

definition setExists :: "bool \<Rightarrow> endpointsMetrics \<Rightarrow> endpointsMetrics" where
  "setExists b m = m\<lparr>m_exists := b\<rparr>"

definition setSubscribers :: "nat \<Rightarrow> endpointsMetrics \<Rightarrow> endpointsMetrics" where
  "setSubscribers n m = m\<lparr>m_subscribers := n\<rparr>"

text \<open>
  The tail shared by the update methods: store the set, mark the service as existing,
  count the update and set the gauges.
\<close>

definition pp_store :: "portPublisher \<Rightarrow> AddressSet \<Rightarrow> portPublisher" where
  "pp_store pp aset =
     pp\<lparr>pp_addresses := aset, pp_exists := True,
        pp_metrics := setExists True (setPods (fm_size (Addresses aset)) (incUpdates (pp_metrics pp)))\<rparr>"

section \<open>Model: comparing address sets\<close>

definition addressChanged :: "Address \<Rightarrow> Address \<Rightarrow> bool" where
  "addressChanged oldAddress newAddress =
     (if Identity oldAddress \<noteq> Identity newAddress then True
      else if length (ForZones newAddress) \<noteq> length (ForZones oldAddress) then True
      else if sort (ForZones oldAddress) \<noteq> sort (ForZones newAddress) then True
      else (case (addr_Pod oldAddress, addr_Pod newAddress) of
          (Some oldPod, Some newPod) \<Rightarrow> pod_ResourceVersion oldPod \<noteq> pod_ResourceVersion newPod
        | _ \<Rightarrow> False))"

text \<open>
  The in-place effect of \<open>addressChanged\<close> on the new address: the zones are sorted when the
  comparison gets past the identity and the number of zones.
\<close>

definition sortedZones :: "Address \<Rightarrow> Address \<Rightarrow> Address" where
  "sortedZones oldAddress newAddress =
     (if Identity oldAddress = Identity newAddress \<and>
         length (ForZones newAddress) = length (ForZones oldAddress)
      then newAddress\<lparr>ForZones := sort (ForZones newAddress)\<rparr> else newAddress)"

definition diff_new :: "AddressSet \<Rightarrow> AddressSet \<Rightarrow> (ID, Address) fmap" where
  "diff_new oldAddresses newAddresses =
     fmmap_keys (\<lambda>aid newAddress. case fmlookup (Addresses oldAddresses) aid of
         Some oldAddress \<Rightarrow> sortedZones oldAddress newAddress
       | None \<Rightarrow> newAddress) (Addresses newAddresses)"

definition diffAddresses :: "AddressSet \<Rightarrow> AddressSet \<Rightarrow> AddressSet \<times> AddressSet \<times> AddressSet" where
  "diffAddresses oldAddresses newAddresses =
     (\<lparr>Addresses = fm_filter_kv (\<lambda>aid newAddress.
           case fmlookup (Addresses oldAddresses) aid of
             Some oldAddress \<Rightarrow> addressChanged oldAddress newAddress
           | None \<Rightarrow> True) (diff_new oldAddresses newAddresses),
       Labels = Labels newAddresses, LocalTrafficPolicy = LocalTrafficPolicy newAddresses\<rparr>,
      \<lparr>Addresses = fm_filter_kv (\<lambda>aid _. fmlookup (Addresses newAddresses) aid = None)
           (Addresses oldAddresses),
       Labels = fmempty, LocalTrafficPolicy = False\<rparr>,
      newAddresses\<lparr>Addresses := diff_new oldAddresses newAddresses\<rparr>)"

section \<open>Model: reading slices and endpoints\<close>

definition isValidSlice :: "EndpointSlice \<Rightarrow> bool" where
  "isValidSlice es = (case fmlookup (es_Labels es) LabelServiceName of
     None \<Rightarrow> es_OwnerReferences es \<noteq> []
   | Some serviceName \<Rightarrow> \<not> (es_OwnerReferences es = [] \<and> serviceName = []))"

fun service_owner :: "string \<Rightarrow> OwnerReference list \<Rightarrow> ServiceID option" where
  "service_owner ns [] = None"
| "service_owner ns (ref # refs) =
     (if or_Kind ref = ''Service'' \<and> or_Name ref \<noteq> []
      then Some \<lparr>Namespace = ns, Name = or_Name ref, IPFamily = []\<rparr>
      else service_owner ns refs)"

definition getEndpointSliceServiceID :: "EndpointSlice \<Rightarrow> string + ServiceID" where
  "getEndpointSliceServiceID es =
     (if \<not> isValidSlice es then Inl (es_Namespace es @ ''/'' @ es_Name es)
      else (case fmlookup (es_Labels es) LabelServiceName of
          Some svc \<Rightarrow> Inr \<lparr>Namespace = es_Namespace es, Name = svc, IPFamily = []\<rparr>
        | None \<Rightarrow> (case service_owner (es_Namespace es) (es_OwnerReferences es) of
            Some aid \<Rightarrow> Inr aid
          | None \<Rightarrow> Inl (es_Namespace es @ ''/'' @ es_Name es))))"

text \<open>\<open>serviceID, err := getEndpointSliceServiceID(es)\<close> where the error is only logged.\<close>

definition slice_service_id :: "EndpointSlice \<Rightarrow> ServiceID" where
  "slice_service_id es = (case getEndpointSliceServiceID es of Inl _ \<Rightarrow> zero_ID | Inr aid \<Rightarrow> aid)"

fun find_slice_port :: "string \<Rightarrow> EndpointPort list \<Rightarrow> Port option" where
  "find_slice_port name [] = Some undefinedEndpointPort"
| "find_slice_port name (p # ps) =
     (if (case port_Name p of None \<Rightarrow> [] | Some n \<Rightarrow> n) = name then port_Port p
      else find_slice_port name ps)"

definition resolveESTargetPort :: "portPublisher \<Rightarrow> EndpointPort list option \<Rightarrow> Port option" where
  "resolveESTargetPort pp slicePorts = (case slicePorts of
     None \<Rightarrow> Some undefinedEndpointPort
   | Some ps \<Rightarrow> (case pp_targetPort pp of
       IntVal i \<Rightarrow> Some i
     | StrVal name \<Rightarrow> find_slice_port name ps))"

fun find_subset_port :: "string \<Rightarrow> (string \<times> int32) list \<Rightarrow> Port" where
  "find_subset_port name [] = undefinedEndpointPort"
| "find_subset_port name ((n, p) # ps) = (if n = name then p else find_subset_port name ps)"

definition resolveTargetPort :: "portPublisher \<Rightarrow> EndpointSubset \<Rightarrow> Port" where
  "resolveTargetPort pp esubset = (case pp_targetPort pp of
     IntVal i \<Rightarrow> i
   | StrVal name \<Rightarrow> find_subset_port name (sub_Ports esubset))"

definition newServiceRefID :: "Port \<Rightarrow> string \<Rightarrow> string \<Rightarrow> string \<Rightarrow> ServiceID" where
  "newServiceRefID endpointPort endpointIP serviceName serviceNamespace =
     \<lparr>Namespace = serviceNamespace,
      Name = join_with ''-'' [serviceName, endpointIP, itoa (uint endpointPort)],
      IPFamily = []\<rparr>"

definition newServiceRefAddress :: "Port \<Rightarrow> string \<Rightarrow> string \<Rightarrow> string \<Rightarrow> Address \<times> ServiceID" where
  "newServiceRefAddress endpointPort endpointIP serviceName serviceNamespace =
     (base_Address endpointIP endpointPort,
      newServiceRefID endpointPort endpointIP serviceName serviceNamespace)"

definition newPodRefAddress ::
  "k8s_api \<Rightarrow> Port \<Rightarrow> string \<Rightarrow> string \<Rightarrow> string \<Rightarrow> string \<Rightarrow> api_error + (Address \<times> PodID)" where
  "newPodRefAddress api endpointPort ipFamily endpointIP podName podNamespace =
     (case api_pod api podNamespace podName of
        Inl err \<Rightarrow> Inl err
      | Inr pod \<Rightarrow> (case api_owner api pod of
          Inl err \<Rightarrow> Inl err
        | Inr (ownerKind, ownerName) \<Rightarrow>
            Inr ((base_Address endpointIP endpointPort)
                   \<lparr>addr_Pod := Some pod, OwnerName := ownerName, OwnerKind := ownerKind\<rparr>,
                 \<lparr>Namespace = podNamespace, Name = podName, IPFamily = ipFamily\<rparr>)))"

definition newExtRefAddress ::
  "k8s_api \<Rightarrow> Port \<Rightarrow> string \<Rightarrow> string \<Rightarrow> string \<Rightarrow> api_error + (Address \<times> ExternalWorkloadID)" where
  "newExtRefAddress api endpointPort endpointIP externalWorkloadName externalWorkloadNamespace =
     (case api_ew api externalWorkloadNamespace externalWorkloadName of
        Inl err \<Rightarrow> Inl err
      | Inr ew \<Rightarrow>
          let addr = (base_Address endpointIP endpointPort)\<lparr>addr_ExternalWorkload := Some ew\<rparr>;
              addr = (case ew_OwnerReferences ew of
                  [parent] \<Rightarrow> (addr\<lparr>OwnerName := or_Name parent\<rparr>)\<lparr>OwnerName := to_lower (or_Kind parent)\<rparr>
                | _ \<Rightarrow> addr)
          in Inr (addr, \<lparr>Namespace = externalWorkloadNamespace, Name = externalWorkloadName,
                         IPFamily = []\<rparr>))"

definition authority_override :: "labels \<Rightarrow> Port \<Rightarrow> string" where
  "authority_override annotations srcPort = (case fmlookup annotations RemoteServiceFqName of
     None \<Rightarrow> [] | Some fqName \<Rightarrow> join_host_port fqName (itoa (uint srcPort)))"

definition with_hints :: "Endpoint \<Rightarrow> Address \<Rightarrow> Address" where
  "with_hints endpoint address = (case ep_Hints endpoint of
     None \<Rightarrow> address | Some zones \<Rightarrow> address\<lparr>ForZones := zones\<rparr>)"

text \<open>The endpoint filter shared by \<open>endpointSliceToAddresses\<close> and \<open>endpointSliceToIDs\<close>.\<close>

definition endpoint_skipped :: "portPublisher \<Rightarrow> Endpoint \<Rightarrow> bool" where
  "endpoint_skipped pp endpoint \<longleftrightarrow>
     (case ep_Hostname endpoint of
        None \<Rightarrow> False | Some h \<Rightarrow> pp_hostname pp \<noteq> [] \<and> pp_hostname pp \<noteq> h) \<or>
     (case cond_Ready (ep_Conditions endpoint) of None \<Rightarrow> False | Some ready \<Rightarrow> \<not> ready)"

text \<open>
  The entries one endpoint of a slice writes into the address map, in the order it writes
  them: one per IP, none for an IP whose workload cannot be fetched.
\<close>

definition service_ref_entry ::
  "portPublisher \<Rightarrow> EndpointSlice \<Rightarrow> Port \<Rightarrow> Endpoint \<Rightarrow> string \<Rightarrow> (ID \<times> Address) list" where
  "service_ref_entry pp es resolvedPort endpoint IPAddr =
     (case newServiceRefAddress resolvedPort IPAddr (Name (slice_service_id es)) (es_Namespace es) of
        (address, aid) \<Rightarrow>
          [(aid, with_hints endpoint (address
              \<lparr>Identity := fm_str (es_Annotations es) RemoteGatewayIdentity,
               AuthorityOverride := authority_override (es_Annotations es) (pp_srcPort pp)\<rparr>))])"

definition pod_ref_entry ::
  "k8s_api \<Rightarrow> EndpointSlice \<Rightarrow> Port \<Rightarrow> Endpoint \<Rightarrow> ObjectReference \<Rightarrow> string \<Rightarrow> (ID \<times> Address) list" where
  "pod_ref_entry api es resolvedPort endpoint ref IPAddr =
     (case newPodRefAddress api resolvedPort (es_AddressType es) IPAddr (ref_Name ref) (ref_Namespace ref) of
        Inl _ \<Rightarrow> []
      | Inr (address, aid) \<Rightarrow> (case SetToServerProtocol api address of
          Inl _ \<Rightarrow> []
        | Inr address \<Rightarrow> [(aid, with_hints endpoint (address\<lparr>Zone := ep_Zone endpoint\<rparr>))]))"

definition ext_ref_entry ::
  "k8s_api \<Rightarrow> EndpointSlice \<Rightarrow> Port \<Rightarrow> Endpoint \<Rightarrow> ObjectReference \<Rightarrow> string \<Rightarrow> (ID \<times> Address) list" where
  "ext_ref_entry api es resolvedPort endpoint ref IPAddr =
     (case newExtRefAddress api resolvedPort IPAddr (ref_Name ref) (es_Namespace es) of
        Inl _ \<Rightarrow> []
      | Inr (address, aid) \<Rightarrow> (case SetToServerProtocolExternalWorkload api address of
          Inl _ \<Rightarrow> []
        | Inr address \<Rightarrow> [(aid, with_hints endpoint (address\<lparr>Zone := ep_Zone endpoint\<rparr>))]))"

definition slice_endpoint_entries ::
  "k8s_api \<Rightarrow> portPublisher \<Rightarrow> EndpointSlice \<Rightarrow> Port \<Rightarrow> Endpoint \<Rightarrow> (ID \<times> Address) list" where
  "slice_endpoint_entries api pp es resolvedPort endpoint =
     (if endpoint_skipped pp endpoint then []
      else (case ep_TargetRef endpoint of
          None \<Rightarrow> concat (map (service_ref_entry pp es resolvedPort endpoint) (ep_Addresses endpoint))
        | Some ref \<Rightarrow>
            if ref_Kind ref = ''Pod''
            then concat (map (pod_ref_entry api es resolvedPort endpoint ref) (ep_Addresses endpoint))
            else if ref_Kind ref = ''ExternalWorkload''
            then concat (map (ext_ref_entry api es resolvedPort endpoint ref) (ep_Addresses endpoint))
            else []))"

text \<open>
  \<open>metricLabels\<close> for a resource given by its service name, namespace, labels and annotations
  (an \<open>Endpoints\<close> object names its service by its own name, a slice by its label).
\<close>

definition metricLabels :: "string \<Rightarrow> string \<Rightarrow> labels \<Rightarrow> labels \<Rightarrow> labels" where
  "metricLabels serviceName ns resLabels resAnnotations =
     (let ls = fmupd ''namespace'' ns (fmupd ''service'' serviceName fmempty) in
      case fmlookup resLabels RemoteClusterNameLabel of
        None \<Rightarrow> ls
      | Some remoteClusterName \<Rightarrow>
          let ls = fmupd ''target_cluster'' remoteClusterName ls in
          (case fmlookup resAnnotations RemoteServiceFqName of
             None \<Rightarrow> ls
           | Some serviceFqn \<Rightarrow> (case split_on (CHR ''.'') serviceFqn of
               part0 # part1 # _ \<Rightarrow>
                 fmupd ''target_service_namespace'' part1 (fmupd ''target_service'' part0 ls)
             | _ \<Rightarrow> ls)))"

definition slice_metricLabels :: "EndpointSlice \<Rightarrow> labels" where
  "slice_metricLabels es =
     metricLabels (fm_str (es_Labels es) LabelServiceName) (es_Namespace es) (es_Labels es)
       (es_Annotations es)"

definition endpointSliceToAddresses ::
  "k8s_api \<Rightarrow> portPublisher \<Rightarrow> EndpointSlice \<Rightarrow> AddressSet option" where
  "endpointSliceToAddresses api pp es = (case resolveESTargetPort pp (es_Ports es) of
     None \<Rightarrow> None
   | Some resolvedPort \<Rightarrow>
       Some \<lparr>Addresses =
               (if resolvedPort = undefinedEndpointPort then fmempty
                else fm_put_all (concat (map (slice_endpoint_entries api pp es resolvedPort) (es_Endpoints es)))
                       fmempty),
             Labels = slice_metricLabels es,
             LocalTrafficPolicy = pp_localTrafficPolicy pp\<rparr>)"

definition endpoint_ids :: "portPublisher \<Rightarrow> EndpointSlice \<Rightarrow> Port \<Rightarrow> Endpoint \<Rightarrow> ID list" where
  "endpoint_ids pp es resolvedPort endpoint =
     (if endpoint_skipped pp endpoint then []
      else (case ep_TargetRef endpoint of
          None \<Rightarrow> map (\<lambda>IPAddr. newServiceRefID resolvedPort IPAddr (Name (slice_service_id es)) (es_Namespace es))
                   (ep_Addresses endpoint)
        | Some ref \<Rightarrow>
            if ref_Kind ref = ''Pod''
            then [\<lparr>Namespace = ref_Namespace ref, Name = ref_Name ref, IPFamily = es_AddressType es\<rparr>]
            else if ref_Kind ref = ''ExternalWorkload''
            then [\<lparr>Namespace = ref_Namespace ref, Name = ref_Name ref, IPFamily = []\<rparr>]
            else []))"

definition endpointSliceToIDs :: "portPublisher \<Rightarrow> EndpointSlice \<Rightarrow> ID list option" where
  "endpointSliceToIDs pp es = (case resolveESTargetPort pp (es_Ports es) of
     None \<Rightarrow> None
   | Some resolvedPort \<Rightarrow>
       if resolvedPort = undefinedEndpointPort then Some []
       else Some (concat (map (endpoint_ids pp es resolvedPort) (es_Endpoints es))))"

definition subset_address_entries ::
  "k8s_api \<Rightarrow> portPublisher \<Rightarrow> Endpoints \<Rightarrow> Port \<Rightarrow> EndpointAddress \<Rightarrow> (ID \<times> Address) list" where
  "subset_address_entries api pp endpoints resolvedPort endpoint =
     (if pp_hostname pp \<noteq> [] \<and> pp_hostname pp \<noteq> ea_Hostname endpoint then []
      else (case ea_TargetRef endpoint of
          None \<Rightarrow>
            (case newServiceRefAddress resolvedPort (ea_IP endpoint) (eps_Name endpoints) (eps_Namespace endpoints) of
               (address, aid) \<Rightarrow>
                 [(aid, address
                    \<lparr>Identity := fm_str (eps_Annotations endpoints) RemoteGatewayIdentity,
                     AuthorityOverride := (case fmlookup (eps_Annotations endpoints) RemoteServiceFqName of
                         None \<Rightarrow> []
                       | Some fqName \<Rightarrow> fqName @ '':'' @ itoa (uint (pp_srcPort pp)))\<rparr>)])
        | Some ref \<Rightarrow>
            if ref_Kind ref = ''Pod''
            then (case newPodRefAddress api resolvedPort [] (ea_IP endpoint) (ref_Name ref) (ref_Namespace ref) of
                Inl _ \<Rightarrow> []
              | Inr (address, aid) \<Rightarrow> (case SetToServerProtocol api address of
                  Inl _ \<Rightarrow> []
                | Inr address \<Rightarrow> [(aid, address)]))
            else []))"

definition subset_entries ::
  "k8s_api \<Rightarrow> portPublisher \<Rightarrow> Endpoints \<Rightarrow> EndpointSubset \<Rightarrow> (ID \<times> Address) list" where
  "subset_entries api pp endpoints esubset =
     (let resolvedPort = resolveTargetPort pp esubset in
      if resolvedPort = undefinedEndpointPort then []
      else concat (map (subset_address_entries api pp endpoints resolvedPort) (sub_Addresses esubset)))"

definition endpointsToAddresses :: "k8s_api \<Rightarrow> portPublisher \<Rightarrow> Endpoints \<Rightarrow> AddressSet" where
  "endpointsToAddresses api pp endpoints =
     \<lparr>Addresses = fm_put_all (concat (map (subset_entries api pp endpoints) (eps_Subsets endpoints))) fmempty,
      Labels = metricLabels (eps_Name endpoints) (eps_Namespace endpoints) (eps_Labels endpoints)
                 (eps_Annotations endpoints),
      LocalTrafficPolicy = False\<rparr>"

section \<open>Model: operations\<close>

text \<open>The callbacks of a diff: remove what is gone, then add what is new or changed.\<close>

definition diff_events :: "AddressSet \<Rightarrow> AddressSet \<Rightarrow> ep_event list" where
  "diff_events add remove =
     (if 0 < fm_size (Addresses remove) then [EvRemove remove] else []) @
     (if 0 < fm_size (Addresses add) then [EvAdd add] else [])"

definition updateEndpoints :: "k8s_api \<Rightarrow> portPublisher \<Rightarrow> Endpoints \<Rightarrow> portPublisher \<times> emission" where
  "updateEndpoints api pp endpoints =
     (let newAddressSet = endpointsToAddresses api pp endpoints in
      if fm_size (Addresses newAddressSet) = 0
      then (pp_store pp newAddressSet, notify (pp_listeners pp) [EvNoEndpoints True])
      else (case diffAddresses (pp_addresses pp) newAddressSet of
          (add, remove, newAddressSet) \<Rightarrow>
            (pp_store pp newAddressSet, notify (pp_listeners pp) (diff_events add remove))))"

definition addEndpointSlice ::
  "k8s_api \<Rightarrow> portPublisher \<Rightarrow> EndpointSlice \<Rightarrow> (portPublisher \<times> emission) option" where
  "addEndpointSlice api pp es = (case endpointSliceToAddresses api pp es of
     None \<Rightarrow> None
   | Some newAddressSet \<Rightarrow>
       let newAddressSet = newAddressSet\<lparr>Addresses :=
             Addresses (pp_addresses pp) ++\<^sub>f Addresses newAddressSet\<rparr>
       in (case diffAddresses (pp_addresses pp) newAddressSet of
             (add, _, newAddressSet) \<Rightarrow>
               Some (pp_store pp newAddressSet,
                     notify (pp_listeners pp) (if 0 < fm_size (Addresses add) then [EvAdd add] else []))))"

definition updateEndpointSlice ::
  "k8s_api \<Rightarrow> portPublisher \<Rightarrow> EndpointSlice \<Rightarrow> EndpointSlice \<Rightarrow> (portPublisher \<times> emission) option" where
  "updateEndpointSlice api pp oldSlice newSlice =
     (case endpointSliceToIDs pp oldSlice of
        None \<Rightarrow> None
      | Some oldIDs \<Rightarrow> (case endpointSliceToAddresses api pp newSlice of
          None \<Rightarrow> None
        | Some newAddressSet \<Rightarrow>
            let updatedAddressSet =
                  \<lparr>Addresses = fm_del_list oldIDs (Addresses (pp_addresses pp)) ++\<^sub>f Addresses newAddressSet,
                   Labels = Labels (pp_addresses pp),
                   LocalTrafficPolicy = pp_localTrafficPolicy pp\<rparr>
            in (case diffAddresses (pp_addresses pp) updatedAddressSet of
                  (add, remove, updatedAddressSet) \<Rightarrow>
                    Some (pp_store pp updatedAddressSet,
                          notify (pp_listeners pp) (diff_events add remove)))))"

definition noEndpoints :: "portPublisher \<Rightarrow> bool \<Rightarrow> portPublisher \<times> emission" where
  "noEndpoints pp exists =
     (pp\<lparr>pp_exists := exists, pp_addresses := zero_AddressSet,
         pp_metrics := setPods 0 (setExists exists (incUpdates (pp_metrics pp)))\<rparr>,
      notify (pp_listeners pp) [EvNoEndpoints exists])"

definition deleteEndpointSlice ::
  "k8s_api \<Rightarrow> portPublisher \<Rightarrow> EndpointSlice \<Rightarrow> (portPublisher \<times> emission) option" where
  "deleteEndpointSlice api pp es = (case endpointSliceToAddresses api pp es of
     None \<Rightarrow> None
   | Some addrSet \<Rightarrow>
       let pp1 = pp\<lparr>pp_addresses := (pp_addresses pp)\<lparr>Addresses :=
               fmdrop_fset (fmdom (Addresses addrSet)) (Addresses (pp_addresses pp))\<rparr>\<rparr>;
           em = notify (pp_listeners pp) [EvRemove addrSet]
       in if fm_size (Addresses (pp_addresses pp1)) = 0
          then (case noEndpoints pp1 False of (pp2, em2) \<Rightarrow> Some (pp2, em @ em2))
          else Some (pp_store pp1 (pp_addresses pp1), em))"

definition updateLocalTrafficPolicy :: "portPublisher \<Rightarrow> bool \<Rightarrow> portPublisher \<times> emission" where
  "updateLocalTrafficPolicy pp localTrafficPolicy =
     (let pp1 = pp\<lparr>pp_localTrafficPolicy := localTrafficPolicy,
                   pp_addresses := (pp_addresses pp)\<lparr>LocalTrafficPolicy := localTrafficPolicy\<rparr>\<rparr>
      in (pp1, notify (pp_listeners pp1) [EvAdd (shallowCopy (pp_addresses pp1))]))"

fun add_slices :: "k8s_api \<Rightarrow> portPublisher \<Rightarrow> EndpointSlice list \<Rightarrow> (portPublisher \<times> emission) option" where
  "add_slices api pp [] = Some (pp, [])"
| "add_slices api pp (es # slices) = (case addEndpointSlice api pp es of
     None \<Rightarrow> None
   | Some (pp1, em1) \<Rightarrow> (case add_slices api pp1 slices of
       None \<Rightarrow> None
     | Some (pp2, em2) \<Rightarrow> Some (pp2, em1 @ em2)))"

definition updatePort :: "k8s_api \<Rightarrow> portPublisher \<Rightarrow> IntOrString \<Rightarrow> (portPublisher \<times> emission) option" where
  "updatePort api pp targetPort =
     (let pp1 = pp\<lparr>pp_targetPort := targetPort\<rparr> in
      if pp_enableEndpointSlices pp1
      then (case api_slices api (Namespace (pp_id pp1)) (fmupd LabelServiceName (Name (pp_id pp1)) fmempty) of
          Inl _ \<Rightarrow> Some (pp1, [])
        | Inr endpointSlices \<Rightarrow> add_slices api (pp1\<lparr>pp_addresses := zero_AddressSet\<rparr>) endpointSlices)
      else (case api_endpoints api (Namespace (pp_id pp1)) (Name (pp_id pp1)) of
          Inl _ \<Rightarrow> Some (pp1, [])
        | Inr endpoints \<Rightarrow> Some (updateEndpoints api pp1 endpoints)))"

definition pp_subscribe :: "portPublisher \<Rightarrow> listener \<Rightarrow> portPublisher \<times> emission" where
  "pp_subscribe pp l =
     (let em = (if pp_exists pp
                then if 0 < fm_size (Addresses (pp_addresses pp))
                     then [(l, EvAdd (shallowCopy (pp_addresses pp)))] else [(l, EvNoEndpoints True)]
                else [(l, EvNoEndpoints False)]);
          ls = pp_listeners pp @ [l]
      in (pp\<lparr>pp_listeners := ls, pp_metrics := setSubscribers (length ls) (pp_metrics pp)\<rparr>, em))"

definition pp_unsubscribe :: "portPublisher \<Rightarrow> listener \<Rightarrow> portPublisher" where
  "pp_unsubscribe pp l =
     (let ls = remove_listener l (pp_listeners pp)
      in pp\<lparr>pp_listeners := ls, pp_metrics := setSubscribers (length ls) (pp_metrics pp)\<rparr>)"

text \<open>The opaque flag an address gets when a server changes; \<open>None\<close> if no server selects it.\<close>

definition server_flag :: "k8s_api \<Rightarrow> Server option \<Rightarrow> Server option \<Rightarrow> Address \<Rightarrow> bool option" where
  "server_flag api oldServer newServer address =
     (if isAddressSelected api address oldServer \<or> isAddressSelected api address newServer
      then Some (case newServer of
          None \<Rightarrow> False
        | Some srv \<Rightarrow> isAddressSelected api address newServer \<and> srv_ProxyProtocol srv = opaqueProtocol)
      else None)"

definition server_update :: "k8s_api \<Rightarrow> Server option \<Rightarrow> Server option \<Rightarrow> Address \<Rightarrow> Address" where
  "server_update api oldServer newServer address = (case server_flag api oldServer newServer address of
     None \<Rightarrow> address | Some b \<Rightarrow> address\<lparr>OpaqueProtocol := b\<rparr>)"

definition pp_updateServer ::
  "k8s_api \<Rightarrow> portPublisher \<Rightarrow> Server option \<Rightarrow> Server option \<Rightarrow> portPublisher \<times> emission" where
  "pp_updateServer api pp oldServer newServer =
     (let old = Addresses (pp_addresses pp);
          updated = 0 < fm_size (fm_filter_kv (\<lambda>_ a.
              case server_flag api oldServer newServer a of
                None \<Rightarrow> False | Some b \<Rightarrow> b \<noteq> OpaqueProtocol a) old);
          pp1 = pp\<lparr>pp_addresses := (pp_addresses pp)\<lparr>Addresses :=
                  fmmap (server_update api oldServer newServer) old\<rparr>\<rparr>
      in if updated
         then (pp1\<lparr>pp_metrics := incUpdates (pp_metrics pp1)\<rparr>,
               notify (pp_listeners pp1) [EvAdd (shallowCopy (pp_addresses pp1))])
         else (pp1, []))"

end
