(* ===== verification/Publisher_Runs.thy ===== *)
theory Publisher_Runs
  imports Port_Publisher
begin

text \<open>
  Runs of a \<open>portPublisher\<close>: the operations as values of \<open>pp_op\<close>, each with the state of the
  caches it reads, one step and a sequence of steps. The lemmas are the frame of each
  operation and the invariants every run keeps: listeners stay distinct, a publisher that
  is marked as not existing has no address, and the gauges show the state.
\<close>

section \<open>Operations and runs of a publisher\<close>

datatype pp_op =
    OpEndpoints k8s_api Endpoints
  | OpAddSlice k8s_api EndpointSlice
  | OpUpdateSlice k8s_api EndpointSlice EndpointSlice
  | OpDeleteSlice k8s_api EndpointSlice
  | OpServer k8s_api "Server option" "Server option"
  | OpTrafficPolicy bool
  | OpPort k8s_api IntOrString
  | OpNoEndpoints bool
  | OpSubscribe listener
  | OpUnsubscribe listener

fun pp_step :: "portPublisher \<Rightarrow> pp_op \<Rightarrow> (portPublisher \<times> emission) option" where
  "pp_step pp (OpEndpoints api eps) = Some (updateEndpoints api pp eps)"
| "pp_step pp (OpAddSlice api es) = addEndpointSlice api pp es"
| "pp_step pp (OpUpdateSlice api old new) = updateEndpointSlice api pp old new"
| "pp_step pp (OpDeleteSlice api es) = deleteEndpointSlice api pp es"
| "pp_step pp (OpServer api old new) = Some (pp_updateServer api pp old new)"
| "pp_step pp (OpTrafficPolicy b) = Some (updateLocalTrafficPolicy pp b)"
| "pp_step pp (OpPort api tp) = updatePort api pp tp"
| "pp_step pp (OpNoEndpoints b) = Some (noEndpoints pp b)"
| "pp_step pp (OpSubscribe l) = Some (pp_subscribe pp l)"
| "pp_step pp (OpUnsubscribe l) = Some (pp_unsubscribe pp l, [])"

fun pp_run :: "portPublisher \<Rightarrow> pp_op list \<Rightarrow> (portPublisher \<times> emission) option" where
  "pp_run pp [] = Some (pp, [])"
| "pp_run pp (op # ops) = (case pp_step pp op of
     None \<Rightarrow> None
   | Some (pp1, em1) \<Rightarrow> (case pp_run pp1 ops of
       None \<Rightarrow> None
     | Some (pp2, em2) \<Rightarrow> Some (pp2, em1 @ em2)))"

section \<open>Frame of the operations\<close>

lemma pp_store_frame [simp]:
  "pp_listeners (pp_store pp a) = pp_listeners pp" "pp_addresses (pp_store pp a) = a"
  "pp_id (pp_store pp a) = pp_id pp" "pp_srcPort (pp_store pp a) = pp_srcPort pp"
  "pp_hostname (pp_store pp a) = pp_hostname pp"
  "pp_localTrafficPolicy (pp_store pp a) = pp_localTrafficPolicy pp"
  "pp_exists (pp_store pp a)" "pp_enableEndpointSlices (pp_store pp a) = pp_enableEndpointSlices pp"
  "m_pods (pp_metrics (pp_store pp a)) = fm_size (Addresses a)"
  "m_subscribers (pp_metrics (pp_store pp a)) = m_subscribers (pp_metrics pp)"
  by (simp_all add: pp_store_def setExists_def setPods_def incUpdates_def)

text \<open>
  What an operation other than a subscription leaves alone: the listeners, the kind of
  resource watched, the key of the publisher, the traffic policy and the subscriber gauge.
\<close>

definition same_frame :: "portPublisher \<Rightarrow> portPublisher \<Rightarrow> bool" where
  "same_frame pp pp' \<longleftrightarrow>
     pp_listeners pp' = pp_listeners pp \<and>
     pp_enableEndpointSlices pp' = pp_enableEndpointSlices pp \<and>
     pp_id pp' = pp_id pp \<and> pp_srcPort pp' = pp_srcPort pp \<and> pp_hostname pp' = pp_hostname pp \<and>
     pp_localTrafficPolicy pp' = pp_localTrafficPolicy pp \<and>
     m_subscribers (pp_metrics pp') = m_subscribers (pp_metrics pp)"

text \<open>The address set is consistent with the existence mark; the pod gauge counts it.\<close>

definition exists_ok :: "portPublisher \<Rightarrow> bool" where
  "exists_ok pp \<longleftrightarrow> pp_exists pp \<or> Addresses (pp_addresses pp) = fmempty"

definition pods_ok :: "portPublisher \<Rightarrow> bool" where
  "pods_ok pp \<longleftrightarrow> m_pods (pp_metrics pp) = fm_size (Addresses (pp_addresses pp))"

lemma updateEndpoints_frame:
  "updateEndpoints api pp eps = (pp', em) \<Longrightarrow> same_frame pp pp' \<and> exists_ok pp' \<and> pods_ok pp'"
  by (auto simp: updateEndpoints_def Let_def same_frame_def exists_ok_def pods_ok_def
      split: if_splits prod.splits)

lemma addEndpointSlice_frame:
  "addEndpointSlice api pp es = Some (pp', em) \<Longrightarrow> same_frame pp pp' \<and> exists_ok pp' \<and> pods_ok pp'"
  by (auto simp: addEndpointSlice_def Let_def same_frame_def exists_ok_def pods_ok_def
      split: option.splits prod.splits)

lemma updateEndpointSlice_frame:
  "updateEndpointSlice api pp old new = Some (pp', em) \<Longrightarrow>
     same_frame pp pp' \<and> exists_ok pp' \<and> pods_ok pp'"
  by (auto simp: updateEndpointSlice_def Let_def same_frame_def exists_ok_def pods_ok_def
      split: option.splits prod.splits)

lemma noEndpoints_frame:
  "noEndpoints pp b = (pp', em) \<Longrightarrow> same_frame pp pp' \<and> exists_ok pp' \<and> pods_ok pp'"
  by (auto simp: noEndpoints_def same_frame_def exists_ok_def pods_ok_def setExists_def
      setPods_def incUpdates_def)

lemma deleteEndpointSlice_frame:
  "deleteEndpointSlice api pp es = Some (pp', em) \<Longrightarrow>
     same_frame pp pp' \<and> exists_ok pp' \<and> pods_ok pp'"
  by (auto simp: deleteEndpointSlice_def Let_def same_frame_def exists_ok_def pods_ok_def
      dest!: noEndpoints_frame split: option.splits prod.splits if_splits)

lemma updateLocalTrafficPolicy_frame:
  "updateLocalTrafficPolicy pp b = (pp', em) \<Longrightarrow>
     same_frame (pp\<lparr>pp_localTrafficPolicy := b\<rparr>) pp' \<and> (exists_ok pp \<longrightarrow> exists_ok pp') \<and> (pods_ok pp \<longrightarrow> pods_ok pp')"
  by (auto simp: updateLocalTrafficPolicy_def Let_def same_frame_def exists_ok_def pods_ok_def)

lemma fm_size_fmmap [simp]: "fm_size (fmmap f m) = fm_size m"
  by (simp add: fm_size_def)

lemma pp_updateServer_frame:
  "pp_updateServer api pp old new = (pp', em) \<Longrightarrow>
     same_frame pp pp' \<and> (exists_ok pp \<longrightarrow> exists_ok pp') \<and> (pods_ok pp \<longrightarrow> pods_ok pp')"
  by (auto simp: pp_updateServer_def Let_def same_frame_def exists_ok_def pods_ok_def
      incUpdates_def split: if_splits)

lemma same_frame_trans: "same_frame pp pp1 \<Longrightarrow> same_frame pp1 pp2 \<Longrightarrow> same_frame pp pp2"
  by (simp add: same_frame_def)

lemma add_slices_frame:
  "add_slices api pp ess = Some (pp', em) \<Longrightarrow>
     same_frame pp pp' \<and> (exists_ok pp \<longrightarrow> exists_ok pp') \<and>
     (ess \<noteq> [] \<or> pods_ok pp \<longrightarrow> pods_ok pp')"
proof (induction ess arbitrary: pp em)
  case Nil
  then show ?case by (simp add: same_frame_def)
next
  case (Cons es ess)
  from Cons.prems obtain pp1 em1 em2 where 1: "addEndpointSlice api pp es = Some (pp1, em1)"
    and 2: "add_slices api pp1 ess = Some (pp', em2)"
    by (auto split: option.splits)
  from addEndpointSlice_frame [OF 1] Cons.IH [OF 2] show ?case
    by (auto intro: same_frame_trans)
qed

lemma updatePort_frame:
  assumes "updatePort api pp tp = Some (pp', em)"
  shows "same_frame pp pp' \<and> (exists_ok pp \<longrightarrow> exists_ok pp') \<and>
    (\<not> pp_enableEndpointSlices pp \<longrightarrow> pods_ok pp \<longrightarrow> pods_ok pp')"
proof -
  have fr: "same_frame pp pp1 \<Longrightarrow> same_frame pp (pp1\<lparr>pp_addresses := a\<rparr>)"
    "same_frame (pp\<lparr>pp_targetPort := tp\<rparr>) pp1 \<Longrightarrow> same_frame pp pp1"
    "same_frame (pp\<lparr>pp_targetPort := tp, pp_addresses := a\<rparr>) pp1 \<Longrightarrow> same_frame pp pp1" for pp1 a
    by (simp_all add: same_frame_def)
  show ?thesis
  proof (cases "pp_enableEndpointSlices pp")
    case True
    with assms show ?thesis
      by (auto simp: updatePort_def Let_def same_frame_def exists_ok_def
          dest!: add_slices_frame split: sum.splits)
  next
    case False
    with assms show ?thesis
      by (auto simp: updatePort_def Let_def same_frame_def exists_ok_def pods_ok_def
          dest!: updateEndpoints_frame split: sum.splits)
  qed
qed

section \<open>Invariants of a run\<close>

text \<open>
  \<open>pp_inv\<close>: what every run keeps. \<open>pp_gauges\<close>: the two gauges, which a port update of a
  publisher on endpoint slices may leave behind (see \<open>updatePort\<close>).
\<close>

definition pp_inv :: "portPublisher \<Rightarrow> bool" where
  "pp_inv pp \<longleftrightarrow> distinct (pp_listeners pp) \<and> exists_ok pp"

definition pp_gauges :: "portPublisher \<Rightarrow> bool" where
  "pp_gauges pp \<longleftrightarrow>
     m_subscribers (pp_metrics pp) = length (pp_listeners pp) \<and> pods_ok pp"

text \<open>A run in which nobody subscribes twice at a time, and one without slice port updates.\<close>

fun fresh_subs :: "portPublisher \<Rightarrow> pp_op list \<Rightarrow> bool" where
  "fresh_subs pp [] = True"
| "fresh_subs pp (op # ops) =
     ((case op of OpSubscribe l \<Rightarrow> l \<notin> set (pp_listeners pp) | _ \<Rightarrow> True) \<and>
      (case pp_step pp op of None \<Rightarrow> True | Some (pp1, _) \<Rightarrow> fresh_subs pp1 ops))"

fun slice_port_update :: "portPublisher \<Rightarrow> pp_op \<Rightarrow> bool" where
  "slice_port_update pp (OpPort api tp) = pp_enableEndpointSlices pp"
| "slice_port_update pp _ = False"

lemma pp_step_slices:
  "pp_step pp op = Some (pp', em) \<Longrightarrow> pp_enableEndpointSlices pp' = pp_enableEndpointSlices pp"
  by (cases op)
     (auto simp: same_frame_def pp_subscribe_def pp_unsubscribe_def Let_def
       dest!: updateEndpoints_frame addEndpointSlice_frame updateEndpointSlice_frame
         deleteEndpointSlice_frame pp_updateServer_frame updateLocalTrafficPolicy_frame
         updatePort_frame noEndpoints_frame)

lemma pp_step_listeners:
  "pp_step pp op = Some (pp', em) \<Longrightarrow> pp_listeners pp' = (case op of
       OpSubscribe l \<Rightarrow> pp_listeners pp @ [l]
     | OpUnsubscribe l \<Rightarrow> remove_listener l (pp_listeners pp)
     | _ \<Rightarrow> pp_listeners pp)"
  by (cases op)
     (auto simp: same_frame_def pp_subscribe_def pp_unsubscribe_def Let_def
       dest!: updateEndpoints_frame addEndpointSlice_frame updateEndpointSlice_frame
         deleteEndpointSlice_frame pp_updateServer_frame updateLocalTrafficPolicy_frame
         updatePort_frame noEndpoints_frame)

lemma pp_step_exists_ok:
  "pp_step pp op = Some (pp', em) \<Longrightarrow> exists_ok pp \<Longrightarrow> exists_ok pp'"
  by (cases op)
     (auto simp: pp_subscribe_def pp_unsubscribe_def Let_def exists_ok_def
       dest!: updateEndpoints_frame addEndpointSlice_frame updateEndpointSlice_frame
         deleteEndpointSlice_frame pp_updateServer_frame updateLocalTrafficPolicy_frame
         updatePort_frame noEndpoints_frame)

lemma pp_step_inv:
  assumes "pp_step pp op = Some (pp', em)" and "pp_inv pp"
    and "case op of OpSubscribe l \<Rightarrow> l \<notin> set (pp_listeners pp) | _ \<Rightarrow> True"
  shows "pp_inv pp'"
  using pp_step_listeners [OF assms(1)] pp_step_exists_ok [OF assms(1)] assms(2,3)
  by (auto simp: pp_inv_def distinct_remove_listener split: pp_op.splits)

lemma pp_step_gauges:
  "pp_step pp op = Some (pp', em) \<Longrightarrow> pp_gauges pp \<Longrightarrow> \<not> slice_port_update pp op \<Longrightarrow> pp_gauges pp'"
  by (cases op)
     (auto simp: pp_subscribe_def pp_unsubscribe_def Let_def pp_gauges_def pods_ok_def
         same_frame_def setSubscribers_def
       dest!: updateEndpoints_frame addEndpointSlice_frame updateEndpointSlice_frame
         deleteEndpointSlice_frame pp_updateServer_frame updateLocalTrafficPolicy_frame
         updatePort_frame noEndpoints_frame)

lemma pp_run_inv:
  "pp_run pp ops = Some (pp', em) \<Longrightarrow> fresh_subs pp ops \<Longrightarrow> pp_inv pp \<Longrightarrow> pp_inv pp'"
proof (induction ops arbitrary: pp em)
  case (Cons op ops)
  then show ?case
    by (auto split: option.splits prod.splits dest: pp_step_inv)
qed simp

end
