(* ===== verification/Diff_Contract.thy ===== *)
theory Diff_Contract
  imports Go_Prelude
begin

text \<open>
  The contract of the two diff functions of the destination service,
  \<open>watcher.diffAddresses\<close> and \<open>endpointTranslator.diffEndpoints\<close>: from an old and a new map
  they compute the entries to add and the entries to remove. What counts as a change of an
  entry differs (\<open>addressChanged\<close> against \<open>reflect.DeepEqual\<close>), and the first one also
  normalises the entries it compares, so both are parameters. The lemmas say what a holder
  of the old map has after it removed the one and added the other.
\<close>

locale map_diff =
  fixes add_of :: "('k, 'a) fmap \<Rightarrow> ('k, 'a) fmap \<Rightarrow> ('k, 'a) fmap"
    and remove_of :: "('k, 'a) fmap \<Rightarrow> ('k, 'a) fmap \<Rightarrow> ('k, 'a) fmap"
    and changed :: "'a \<Rightarrow> 'a \<Rightarrow> bool"
    and norm :: "'a \<Rightarrow> 'a \<Rightarrow> 'a"
  assumes add_lookup:
    "fmlookup (add_of m n) k = (case fmlookup n k of
        None \<Rightarrow> None
      | Some b \<Rightarrow> (case fmlookup m k of
          None \<Rightarrow> Some b
        | Some a \<Rightarrow> if changed a b then Some (norm a b) else None))"
    and remove_lookup:
    "fmlookup (remove_of m n) k = (if fmlookup n k = None then fmlookup m k else None)"
begin

lemma patch_lookup:
  "fmlookup (fmdrop_fset (fmdom (remove_of m n)) v ++\<^sub>f add_of m n) k =
    (case fmlookup n k of
       None \<Rightarrow> (if fmlookup m k = None then fmlookup v k else None)
     | Some b \<Rightarrow> (case fmlookup m k of
         None \<Rightarrow> Some b
       | Some a \<Rightarrow> if changed a b then Some (norm a b) else fmlookup v k))"
  by (auto simp: add_lookup remove_lookup fmlookup_dom_iff split: option.splits)

lemma patch_dom:
  assumes "fmdom v |\<subseteq>| fmdom m"
  shows "fmdom (fmdrop_fset (fmdom (remove_of m n)) v ++\<^sub>f add_of m n) |\<subseteq>| fmdom n"
proof
  fix k
  assume "k |\<in>| fmdom (fmdrop_fset (fmdom (remove_of m n)) v ++\<^sub>f add_of m n)"
  then obtain c where c: "fmlookup (fmdrop_fset (fmdom (remove_of m n)) v ++\<^sub>f add_of m n) k = Some c"
    by (auto simp only: fmlookup_dom_iff)
  from assms have "fmlookup m k = None \<Longrightarrow> fmlookup v k = None"
    by (metis fmdom_notD fmdom_notI fsubsetD)
  with c show "k |\<in>| fmdom n"
    by (auto simp only: patch_lookup fmlookup_dom_iff split: option.splits if_splits)
qed

lemma patch_covers:
  assumes cov: "\<And>k a. fmlookup m k = Some a \<Longrightarrow> \<exists>c. fmlookup v k = Some c \<and> R c a"
    and refl: "\<And>a. R a a"
    and trans: "\<And>a b c. R a b \<Longrightarrow> R b c \<Longrightarrow> R a c"
    and unch: "\<And>a b. \<not> changed a b \<Longrightarrow> R a (norm a b)"
    and new: "fmlookup (fmmap_keys (\<lambda>k b. case fmlookup m k of None \<Rightarrow> b | Some a \<Rightarrow> norm a b) n) k = Some b'"
  shows "\<exists>c. fmlookup (fmdrop_fset (fmdom (remove_of m n)) v ++\<^sub>f add_of m n) k = Some c \<and> R c b'"
proof -
  from new obtain b where b: "fmlookup n k = Some b"
    and b': "b' = (case fmlookup m k of None \<Rightarrow> b | Some a \<Rightarrow> norm a b)" by auto
  show ?thesis
  proof (cases "fmlookup m k")
    case None
    with b b' show ?thesis by (simp only: patch_lookup) (simp add: refl)
  next
    case (Some a)
    with cov obtain c where "fmlookup v k = Some c" "R c a" by blast
    with Some b b' show ?thesis
      by (simp only: patch_lookup) (auto simp: refl intro: trans unch)
  qed
qed

lemma patch_exact:
  assumes "\<And>a b. \<not> changed a b \<Longrightarrow> a = b" and "\<And>a b. norm a b = b"
  shows "fmdrop_fset (fmdom (remove_of m n)) m ++\<^sub>f add_of m n = n"
  by (rule fmap_ext, simp only: patch_lookup)
     (auto simp: assms(2) dest: assms(1) split: option.splits)

end

end
