(* ===== verification/Endpoint_Listener.thy ===== *)
theory Endpoint_Listener
  imports Publisher_Runs Diff_Contract
begin

text \<open>
  The interface \<open>EndpointUpdateListener\<close> as a contract, and what a \<open>portPublisher\<close> promises
  to every listener that keeps it: the listener's set of addresses stays the publisher's.

  \<^item> \<open>pd\<close> interprets the diff contract on \<open>diffAddresses\<close>.
  \<^item> \<open>endpoint_listener\<close> says how a listener's view reacts to the three callbacks.
  \<^item> \<open>view_covers\<close> and \<open>view_sync\<close> relate a view to a publisher; \<open>in_step\<close> says that one
    operation keeps them.
\<close>

section \<open>The publisher's diff\<close>

definition diff_add :: "(ID, Address) fmap \<Rightarrow> (ID, Address) fmap \<Rightarrow> (ID, Address) fmap" where
  "diff_add m n =
     Addresses (fst (diffAddresses (zero_AddressSet\<lparr>Addresses := m\<rparr>) (zero_AddressSet\<lparr>Addresses := n\<rparr>)))"

definition diff_remove :: "(ID, Address) fmap \<Rightarrow> (ID, Address) fmap \<Rightarrow> (ID, Address) fmap" where
  "diff_remove m n =
     Addresses (fst (snd (diffAddresses (zero_AddressSet\<lparr>Addresses := m\<rparr>) (zero_AddressSet\<lparr>Addresses := n\<rparr>))))"

lemma addressChanged_sortedZones [simp]:
  "addressChanged a (sortedZones a b) = addressChanged a b"
  by (auto simp: addressChanged_def sortedZones_def sorted_sort_id)

interpretation pd: map_diff diff_add diff_remove addressChanged sortedZones
  by unfold_locales
     (auto simp: diff_add_def diff_remove_def diffAddresses_def diff_new_def split: option.splits)

lemma diffAddresses_eq:
  "diffAddresses m n =
     (\<lparr>Addresses = diff_add (Addresses m) (Addresses n), Labels = Labels n,
       LocalTrafficPolicy = LocalTrafficPolicy n\<rparr>,
      \<lparr>Addresses = diff_remove (Addresses m) (Addresses n), Labels = fmempty,
       LocalTrafficPolicy = False\<rparr>,
      n\<lparr>Addresses := diff_new m n\<rparr>)"
  by (simp add: diffAddresses_def diff_add_def diff_remove_def diff_new_def)

section \<open>Two addresses a listener does not tell apart\<close>

text \<open>
  The part of an address that a diff always reports: its identity and its zones. (A change
  of any other field is reported only through the pod's resource version.)
\<close>

definition same_endpoint :: "Address \<Rightarrow> Address \<Rightarrow> bool" where
  "same_endpoint a b \<longleftrightarrow> Identity a = Identity b \<and> mset (ForZones a) = mset (ForZones b)"

lemma same_endpoint_refl [simp]: "same_endpoint a a"
  by (simp add: same_endpoint_def)

lemma same_endpoint_trans: "same_endpoint a b \<Longrightarrow> same_endpoint b c \<Longrightarrow> same_endpoint a c"
  by (simp add: same_endpoint_def)

lemma same_endpoint_sortedZones [simp]: "same_endpoint b (sortedZones a b)"
  by (simp add: same_endpoint_def sortedZones_def)

lemma unchanged_same_endpoint: "\<not> addressChanged a b \<Longrightarrow> same_endpoint a (sortedZones a b)"
  unfolding addressChanged_def
  by (auto simp: same_endpoint_def sortedZones_def split: if_splits) (metis mset_sort)+

text \<open>
  A view covers a publisher when every address of the publisher is in it; it is in sync
  when it holds nothing else.
\<close>

definition view_covers :: "(ID, Address) fmap \<Rightarrow> portPublisher \<Rightarrow> bool" where
  "view_covers v pp \<longleftrightarrow>
     (\<forall>i a. fmlookup (Addresses (pp_addresses pp)) i = Some a \<longrightarrow>
        (\<exists>b. fmlookup v i = Some b \<and> same_endpoint b a))"

definition view_sync :: "(ID, Address) fmap \<Rightarrow> portPublisher \<Rightarrow> bool" where
  "view_sync v pp \<longleftrightarrow> view_covers v pp \<and> fmdom v |\<subseteq>| fmdom (Addresses (pp_addresses pp))"

lemma view_coversD:
  "view_covers v pp \<Longrightarrow> fmlookup (Addresses (pp_addresses pp)) i = Some a \<Longrightarrow>
     \<exists>b. fmlookup v i = Some b \<and> same_endpoint b a"
  by (simp add: view_covers_def)

lemma view_sync_dom:
  "view_sync v pp \<Longrightarrow> fmdom v = fmdom (Addresses (pp_addresses pp))"
  by (auto simp: view_sync_def view_covers_def fmlookup_dom_iff) (metis fmlookup_dom_iff)

text \<open>The events a listener receives out of an emission.\<close>

definition events_for :: "listener \<Rightarrow> emission \<Rightarrow> ep_event list" where
  "events_for l em = map snd (filter (\<lambda>(x, _). x = l) em)"

lemma events_for_append [simp]: "events_for l (em @ em') = events_for l em @ events_for l em'"
  by (simp add: events_for_def)

lemma events_for_Nil [simp]: "events_for l [] = []"
  by (simp add: events_for_def)

lemma filter_map_Pair: "filter (\<lambda>(x, _). x = l) (map (Pair k) evs) = (if k = l then map (Pair k) evs else [])"
  by (induction evs) auto

lemma events_for_notify_notin: "l \<notin> set ls \<Longrightarrow> events_for l (notify ls evs) = []"
  by (induction ls) (auto simp: notify_def events_for_def filter_map_Pair)

lemma events_for_notify [simp]:
  "distinct ls \<Longrightarrow> l \<in> set ls \<Longrightarrow> events_for l (notify ls evs) = evs"
proof (induction ls)
  case (Cons k ls)
  have "events_for l (notify (k # ls) evs) = (if k = l then evs else []) @ events_for l (notify ls evs)"
    by (simp add: notify_def events_for_def filter_map_Pair comp_def)
  with Cons show ?case by (auto simp: events_for_notify_notin)
qed simp

section \<open>The listener contract\<close>

locale endpoint_listener =
  fixes on_event :: "'s \<Rightarrow> ep_event \<Rightarrow> 's"
    and view :: "'s \<Rightarrow> (ID, Address) fmap"
  assumes view_add: "view (on_event s (EvAdd aset)) = view s ++\<^sub>f Addresses aset"
    and view_remove:
      "view (on_event s (EvRemove aset)) = fmdrop_fset (fmdom (Addresses aset)) (view s)"
    and view_none: "view (on_event s (EvNoEndpoints b)) = fmempty"
begin

lemma view_diff_events:
  "view (foldl on_event s (diff_events add remove)) =
     fmdrop_fset (fmdom (Addresses remove)) (view s) ++\<^sub>f Addresses add"
  by (simp add: diff_events_def view_add view_remove)

lemma covers_diff:
  assumes "diffAddresses (pp_addresses pp) n = (add, remove, n')" and "view_covers (view s) pp"
    and "Addresses (pp_addresses pp') = Addresses n'"
  shows "view_covers (view (foldl on_event s (diff_events add remove))) pp'"
  unfolding view_covers_def
proof (intro allI impI)
  fix i a
  assume a: "fmlookup (Addresses (pp_addresses pp')) i = Some a"
  from assms(1,3) have eqs: "Addresses add = diff_add (Addresses (pp_addresses pp)) (Addresses n)"
    "Addresses remove = diff_remove (Addresses (pp_addresses pp)) (Addresses n)"
    "Addresses (pp_addresses pp') = diff_new (pp_addresses pp) n"
    by (auto simp: diffAddresses_eq assms(3))
  have "\<exists>c. fmlookup (fmdrop_fset (fmdom (diff_remove (Addresses (pp_addresses pp)) (Addresses n))) (view s) ++\<^sub>f
        diff_add (Addresses (pp_addresses pp)) (Addresses n)) i = Some c \<and> same_endpoint c a"
    by (rule pd.patch_covers [OF _ _ _ _ a [unfolded eqs diff_new_def]],
        erule view_coversD [OF assms(2)], rule same_endpoint_refl,
        erule (1) same_endpoint_trans, erule unchanged_same_endpoint)
  then show "\<exists>b. fmlookup (view (foldl on_event s (diff_events add remove))) i = Some b \<and> same_endpoint b a"
    by (simp only: view_diff_events eqs)
qed

lemma dom_diff:
  assumes "diffAddresses m n = (add, remove, n')" and "fmdom (view s) |\<subseteq>| fmdom (Addresses m)"
  shows "fmdom (view (foldl on_event s (diff_events add remove))) |\<subseteq>| fmdom (Addresses n')"
proof -
  from assms(1) have eqs: "Addresses add = diff_add (Addresses m) (Addresses n)"
    "Addresses remove = diff_remove (Addresses m) (Addresses n)"
    "fmdom (Addresses n') = fmdom (Addresses n)"
    by (auto simp: diffAddresses_eq diff_new_def)
  show ?thesis unfolding view_diff_events eqs by (rule pd.patch_dom [OF assms(2)])
qed

lemma remove_grown:
  assumes "diffAddresses m n = (add, remove, n')" and "fmdom (Addresses m) |\<subseteq>| fmdom (Addresses n)"
  shows "diff_events add remove = (if 0 < fm_size (Addresses add) then [EvAdd add] else [])"
proof -
  from assms(1) have "Addresses remove = diff_remove (Addresses m) (Addresses n)"
    by (auto simp: diffAddresses_eq)
  also have "\<dots> = fmempty"
    unfolding fm_eq_empty_iff pd.remove_lookup using assms(2)
    by (metis fmdom_notD fmdom_notI fsubsetD)
  finally show ?thesis by (simp add: diff_events_def)
qed

lemma covers_empty: "Addresses (pp_addresses pp) = fmempty \<Longrightarrow> view_covers v pp"
  by (simp add: view_covers_def)

lemma sync_self: "v = Addresses (pp_addresses pp) \<Longrightarrow> view_sync v pp"
  by (simp add: view_sync_def view_covers_def)

text \<open>
  An \<open>Add\<close> of the publisher's whole set overwrites every entry the two have in common.
\<close>

lemma covers_add_all:
  "Addresses (pp_addresses pp) = Addresses aset \<Longrightarrow> view_covers (view (on_event s (EvAdd aset))) pp"
  by (auto simp: view_covers_def view_add fmlookup_dom_iff)

lemma dom_add_all:
  "fmdom (view s) |\<subseteq>| fmdom (Addresses aset) \<Longrightarrow>
     fmdom (view (on_event s (EvAdd aset))) |\<subseteq>| fmdom (Addresses aset)"
  by (auto simp: view_add)

section \<open>Each operation keeps its listeners in step\<close>

text \<open>
  \<open>in_step l pp pp' em\<close>: a subscriber that covered \<open>pp\<close> covers \<open>pp'\<close> after the events it
  got, and one that held no more than \<open>pp\<close> holds no more than \<open>pp'\<close>.
\<close>

definition in_step :: "bool \<Rightarrow> listener \<Rightarrow> portPublisher \<Rightarrow> portPublisher \<Rightarrow> emission \<Rightarrow> bool" where
  "in_step exact l pp pp' em \<longleftrightarrow> (\<forall>s.
     (view_covers (view s) pp \<longrightarrow> view_covers (view (foldl on_event s (events_for l em))) pp') \<and>
     (exact \<longrightarrow> fmdom (view s) |\<subseteq>| fmdom (Addresses (pp_addresses pp)) \<longrightarrow>
        fmdom (view (foldl on_event s (events_for l em))) |\<subseteq>| fmdom (Addresses (pp_addresses pp'))))"

lemma in_step_diff:
  assumes "distinct (pp_listeners pp)" "l \<in> set (pp_listeners pp)"
    and "diffAddresses (pp_addresses pp) n = (add, remove, n')"
    and "Addresses (pp_addresses pp') = Addresses n'"
    and "events_for l em = diff_events add remove"
  shows "in_step e l pp pp' em"
  unfolding in_step_def assms(5)
  using covers_diff [OF assms(3) _ assms(4)] dom_diff [OF assms(3)] assms(4) by simp

lemma in_step_updateEndpoints:
  assumes "distinct (pp_listeners pp)" "l \<in> set (pp_listeners pp)"
    and "updateEndpoints api pp eps = (pp', em)"
  shows "in_step e l pp pp' em"
proof (cases "fm_size (Addresses (endpointsToAddresses api pp eps)) = 0")
  case True
  with assms have "pp' = pp_store pp (endpointsToAddresses api pp eps)"
    "em = notify (pp_listeners pp) [EvNoEndpoints True]"
    by (auto simp: updateEndpoints_def)
  with True assms(1,2) show ?thesis
    by (simp add: in_step_def view_none covers_empty pp_store_def)
next
  case False
  obtain add remove n' where d: "diffAddresses (pp_addresses pp) (endpointsToAddresses api pp eps) = (add, remove, n')"
    by (metis prod_cases3)
  with False assms have "pp' = pp_store pp n'" "em = notify (pp_listeners pp) (diff_events add remove)"
    by (auto simp: updateEndpoints_def)
  with assms(1,2) show ?thesis by (intro in_step_diff [OF assms(1,2) d]) (simp_all add: pp_store_def)
qed

lemma in_step_addEndpointSlice:
  assumes "distinct (pp_listeners pp)" "l \<in> set (pp_listeners pp)"
    and "addEndpointSlice api pp es = Some (pp', em)"
  shows "in_step e l pp pp' em"
proof -
  from assms(3) obtain n0 where n0: "endpointSliceToAddresses api pp es = Some n0"
    by (auto simp: addEndpointSlice_def split: option.splits)
  let ?n = "n0\<lparr>Addresses := Addresses (pp_addresses pp) ++\<^sub>f Addresses n0\<rparr>"
  obtain add remove n' where d: "diffAddresses (pp_addresses pp) ?n = (add, remove, n')"
    by (metis prod_cases3)
  from assms(3) n0 d have pp': "pp' = pp_store pp n'"
    and em: "em = notify (pp_listeners pp) (if 0 < fm_size (Addresses add) then [EvAdd add] else [])"
    by (auto simp: addEndpointSlice_def Let_def)
  have "diff_events add remove = (if 0 < fm_size (Addresses add) then [EvAdd add] else [])"
    by (rule remove_grown [OF d]) simp
  with em assms(1,2) have "events_for l em = diff_events add remove" by simp
  with pp' show ?thesis by (intro in_step_diff [OF assms(1,2) d]) (simp_all add: pp_store_def)
qed

lemma in_step_updateEndpointSlice:
  assumes "distinct (pp_listeners pp)" "l \<in> set (pp_listeners pp)"
    and "updateEndpointSlice api pp old new = Some (pp', em)"
  shows "in_step e l pp pp' em"
proof -
  from assms(3) obtain ids n0 where n0: "endpointSliceToIDs pp old = Some ids"
    "endpointSliceToAddresses api pp new = Some n0"
    by (auto simp: updateEndpointSlice_def split: option.splits)
  let ?n = "\<lparr>Addresses = fm_del_list ids (Addresses (pp_addresses pp)) ++\<^sub>f Addresses n0,
             Labels = Labels (pp_addresses pp), LocalTrafficPolicy = pp_localTrafficPolicy pp\<rparr>"
  obtain add remove n' where d: "diffAddresses (pp_addresses pp) ?n = (add, remove, n')"
    by (metis prod_cases3)
  from assms(3) n0 d have "pp' = pp_store pp n'" "em = notify (pp_listeners pp) (diff_events add remove)"
    by (auto simp: updateEndpointSlice_def Let_def)
  with assms(1,2) show ?thesis by (intro in_step_diff [OF assms(1,2) d]) (simp_all add: pp_store_def)
qed

lemma in_step_noEndpoints:
  assumes "distinct (pp_listeners pp)" "l \<in> set (pp_listeners pp)" "noEndpoints pp b = (pp', em)"
  shows "in_step e l pp0 pp' (em0 @ em)"
  using assms by (auto simp: in_step_def noEndpoints_def view_none covers_empty)

lemma in_step_deleteEndpointSlice:
  assumes "distinct (pp_listeners pp)" "l \<in> set (pp_listeners pp)"
    and "deleteEndpointSlice api pp es = Some (pp', em)"
  shows "in_step e l pp pp' em"
proof -
  from assms(3) obtain n0 where n0: "endpointSliceToAddresses api pp es = Some n0"
    by (auto simp: deleteEndpointSlice_def split: option.splits)
  define rest where "rest = fmdrop_fset (fmdom (Addresses n0)) (Addresses (pp_addresses pp))"
  define pp1 where "pp1 = pp\<lparr>pp_addresses := (pp_addresses pp)\<lparr>Addresses := rest\<rparr>\<rparr>"
  show ?thesis
  proof (cases "fm_size rest = 0")
    case True
    obtain em2 where "noEndpoints pp1 False = (pp', em2)"
      and "em = notify (pp_listeners pp) [EvRemove n0] @ em2"
      using assms(3) True
      by (auto simp: deleteEndpointSlice_def n0 Let_def pp1_def rest_def split: prod.splits)
    with assms(1,2) show ?thesis
      using in_step_noEndpoints [of pp1 l False pp' em2] by (simp add: pp1_def)
  next
    case False
    with assms(3) have "pp' = pp_store pp1 (pp_addresses pp1)"
      "em = notify (pp_listeners pp) [EvRemove n0]"
      by (auto simp: deleteEndpointSlice_def n0 Let_def pp1_def rest_def)
    with assms(1,2) show ?thesis
      by (auto simp: in_step_def view_remove view_covers_def pp_store_def pp1_def rest_def)
  qed
qed

lemma same_endpoint_server_update [simp]:
  "same_endpoint b (server_update api old new a) = same_endpoint b a"
  by (simp add: same_endpoint_def server_update_def split: option.splits)

lemma in_step_updateServer:
  assumes "distinct (pp_listeners pp)" "l \<in> set (pp_listeners pp)"
    and "pp_updateServer api pp old new = (pp', em)"
  shows "in_step e l pp pp' em"
proof -
  have addrs: "Addresses (pp_addresses pp') =
      fmmap (server_update api old new) (Addresses (pp_addresses pp))"
    using assms(3) by (auto simp: pp_updateServer_def Let_def split: if_splits)
  have "events_for l em = [EvAdd (pp_addresses pp')] \<or> events_for l em = []"
    using assms by (auto simp: pp_updateServer_def Let_def split: if_splits)
  then show ?thesis
  proof
    assume "events_for l em = [EvAdd (pp_addresses pp')]"
    then show ?thesis
      by (simp add: in_step_def covers_add_all) (simp add: view_add addrs)
  next
    assume "events_for l em = []"
    then show ?thesis by (auto simp: in_step_def view_covers_def addrs)
  qed
qed

lemma in_step_updateLocalTrafficPolicy:
  assumes "distinct (pp_listeners pp)" "l \<in> set (pp_listeners pp)"
    and "updateLocalTrafficPolicy pp b = (pp', em)"
  shows "in_step e l pp pp' em"
proof -
  have "events_for l em = [EvAdd (pp_addresses pp')]"
    and addrs: "Addresses (pp_addresses pp') = Addresses (pp_addresses pp)"
    using assms by (auto simp: updateLocalTrafficPolicy_def Let_def)
  then show ?thesis
    by (simp add: in_step_def covers_add_all) (simp add: view_add)
qed

lemma in_step_refl:
  "events_for l em = [] \<Longrightarrow> Addresses (pp_addresses pp') = Addresses (pp_addresses pp) \<Longrightarrow>
     in_step e l pp pp' em"
  by (simp add: in_step_def view_covers_def)

lemma covers_add_slices:
  assumes "add_slices api pp ess = Some (pp', em)"
    and "distinct (pp_listeners pp)" "l \<in> set (pp_listeners pp)" "view_covers (view s) pp"
  shows "view_covers (view (foldl on_event s (events_for l em))) pp'"
  using assms
proof (induction ess arbitrary: pp em s)
  case (Cons es ess)
  from Cons.prems(1) obtain pp1 em1 em2 where 1: "addEndpointSlice api pp es = Some (pp1, em1)"
    and 2: "add_slices api pp1 ess = Some (pp', em2)" and em: "em = em1 @ em2"
    by (auto split: option.splits)
  have "view_covers (view (foldl on_event s (events_for l em1))) pp1"
    using in_step_addEndpointSlice [OF Cons.prems(2,3) 1] Cons.prems(4) by (auto simp: in_step_def)
  from Cons.IH [OF 2 _ _ this] Cons.prems(2,3) addEndpointSlice_frame [OF 1] show ?case
    by (simp add: em same_frame_def)
qed simp

lemma in_step_updatePort:
  assumes "distinct (pp_listeners pp)" "l \<in> set (pp_listeners pp)"
    and "updatePort api pp tp = Some (pp', em)"
  shows "in_step (\<not> pp_enableEndpointSlices pp) l pp pp' em"
proof (cases "pp_enableEndpointSlices pp")
  case True
  let ?ess = "api_slices api (Namespace (pp_id pp)) (fmupd LabelServiceName (Name (pp_id pp)) fmempty)"
  show ?thesis
  proof (cases ?ess)
    case (Inl e)
    with True assms show ?thesis by (auto intro: in_step_refl simp: updatePort_def Let_def)
  next
    case (Inr ess)
    with True assms(3) have "add_slices api (pp\<lparr>pp_targetPort := tp, pp_addresses := zero_AddressSet\<rparr>) ess = Some (pp', em)"
      by (simp add: updatePort_def Let_def)
    from covers_add_slices [OF this, of l] assms(1,2) True show ?thesis
      by (simp add: in_step_def covers_empty)
  qed
next
  case False
  show ?thesis
  proof (cases "api_endpoints api (Namespace (pp_id pp)) (Name (pp_id pp))")
    case (Inl e)
    with False assms show ?thesis by (auto intro: in_step_refl simp: updatePort_def Let_def)
  next
    case (Inr eps)
    with False assms(3) have "updateEndpoints api (pp\<lparr>pp_targetPort := tp\<rparr>) eps = (pp', em)"
      by (simp add: updatePort_def Let_def)
    from in_step_updateEndpoints [OF _ _ this, of l] assms(1,2) show ?thesis
      by (simp add: in_step_def view_covers_def)
  qed
qed

lemma in_step_subscribe_other:
  "k \<noteq> l \<Longrightarrow> pp_subscribe pp k = (pp', em) \<Longrightarrow> in_step e l pp pp' em"
  by (rule in_step_refl) (auto simp: pp_subscribe_def Let_def events_for_def)

text \<open>Every operation but the listener's own unsubscription and double subscription.\<close>

lemma in_step_pp_step:
  assumes "pp_step pp op = Some (pp', em)" "pp_inv pp" "l \<in> set (pp_listeners pp)"
    and "op \<noteq> OpSubscribe l"
  shows "in_step (\<not> slice_port_update pp op) l pp pp' em"
proof -
  from assms(2) have d: "distinct (pp_listeners pp)" by (simp add: pp_inv_def)
  note steps = in_step_updateEndpoints [OF d assms(3)] in_step_addEndpointSlice [OF d assms(3)]
    in_step_updateEndpointSlice [OF d assms(3)] in_step_deleteEndpointSlice [OF d assms(3)]
    in_step_updateServer [OF d assms(3)] in_step_updateLocalTrafficPolicy [OF d assms(3)]
    in_step_updatePort [OF d assms(3)] in_step_noEndpoints [OF d assms(3), of _ _ _ _ _ "[]", simplified]
  from assms(1,4) show ?thesis
    by (cases op) (auto intro: steps in_step_subscribe_other in_step_refl
        simp: pp_unsubscribe_def Let_def)
qed

text \<open>
  A new listener starts with what the publisher has: with an empty view it is in sync
  after the event its subscription sends.
\<close>

lemma sync_after_subscribe:
  assumes "pp_subscribe pp l = (pp', em)" "exists_ok pp" "view s = fmempty"
  shows "view_sync (view (foldl on_event s (events_for l em))) pp'"
  using assms
  by (auto simp: pp_subscribe_def Let_def events_for_def exists_ok_def view_add view_none
      intro!: sync_self)

lemma run_in_step:
  assumes "pp_run pp ops = Some (pp', em)" "fresh_subs pp ops" "pp_inv pp" "l \<in> set (pp_listeners pp)"
    and "OpUnsubscribe l \<notin> set ops"
    and "exact \<longrightarrow> (\<forall>op \<in> set ops. \<not> slice_port_update pp op)"
  shows "in_step exact l pp pp' em \<and> l \<in> set (pp_listeners pp')"
  using assms
proof (induction ops arbitrary: pp em)
  case Nil
  then show ?case by (simp add: in_step_def)
next
  case (Cons op ops)
  from Cons.prems(1) obtain pp1 em1 em2 where 1: "pp_step pp op = Some (pp1, em1)"
    and 2: "pp_run pp1 ops = Some (pp', em2)" and em: "em = em1 @ em2"
    by (auto split: option.splits)
  have neq: "op \<noteq> OpSubscribe l" "op \<noteq> OpUnsubscribe l" using Cons.prems by auto
  have inv1: "pp_inv pp1"
    using pp_step_inv [OF 1 Cons.prems(3)] Cons.prems(2) by simp
  have l1: "l \<in> set (pp_listeners pp1)"
    using pp_step_listeners [OF 1] Cons.prems(3,4) neq
    by (auto simp: set_remove_listener_distinct pp_inv_def split: pp_op.splits)
  have su: "slice_port_update pp1 o' = slice_port_update pp o'" for o'
    using pp_step_slices [OF 1] by (cases o') auto
  have "in_step exact l pp1 pp' em2 \<and> l \<in> set (pp_listeners pp')"
    using Cons.IH [OF 2 _ inv1 l1] Cons.prems(2,5,6) 1 su by simp
  moreover have "in_step (\<not> slice_port_update pp op) l pp pp1 em1"
    by (rule in_step_pp_step [OF 1 Cons.prems(3,4) neq(1)])
  ultimately show ?case
    using Cons.prems(6) by (auto simp: in_step_def em)
qed

end

end
