(* ===== verification/Endpoint_Translator.thy ===== *)
theory Endpoint_Translator
  imports Weighted_Addr Endpoint_Listener
begin

text \<open>
  The \<open>endpointTranslator\<close> of \<open>endpoint_translator.go\<close>: it keeps the addresses a publisher
  reported, filters them by zone, node and address family, and sends the difference to the
  last filtered set to the client.

  \<^item> Go does not fix the order in which a map is walked; the order of the addresses in a
    message is the parameter \<open>rng\<close>, a list of the keys of a map (\<open>is_range\<close>).
  \<^item> \<open>stream.Send\<close> errors are only logged: an operation returns the messages it sends.
  \<^item> \<open>None\<close> is a nil dereference; \<open>processUpdate_no_panic\<close> shows that it never happens.
\<close>

section \<open>Model: state and messages\<close>

record endpointTranslator =
  et_controllerNS :: string
  et_identityTrustDomain :: string
  et_nodeTopologyZone :: string
  et_nodeName :: string
  et_defaultOpaquePorts :: "uint32 fset"
  et_enableH2Upgrade :: bool
  et_enableEndpointFiltering :: bool
  et_enableIPv6 :: bool
  et_extEndpointZoneWeights :: bool
  et_meshedHTTP2ClientParams :: "http2_params option"
  et_availableEndpoints :: AddressSet
  et_filteredSnapshot :: AddressSet

datatype pb_update = UpdateAdd "WeightedAddr list" labels | UpdateRemove "TcpAddress list"

type_synonym map_range = "(ID, Address) fmap \<Rightarrow> ID list"

definition range_values :: "map_range \<Rightarrow> (ID, Address) fmap \<Rightarrow> Address list" where
  "range_values rng m = List.map_filter (fmlookup m) (rng m)"

definition newEmptyAddressSet :: AddressSet where
  "newEmptyAddressSet = \<lparr>Addresses = fmempty, Labels = fmempty, LocalTrafficPolicy = False\<rparr>"

text \<open>The labels of the node come from the metadata API; an error is logged and gives no zone.\<close>

definition getNodeTopologyZone :: "(string \<Rightarrow> api_error + labels) \<Rightarrow> string \<Rightarrow> api_error + string" where
  "getNodeTopologyZone nodes srcNode = (case nodes srcNode of
     Inl err \<Rightarrow> Inl err
   | Inr ls \<Rightarrow> Inr (case fmlookup ls LabelTopologyZone of None \<Rightarrow> [] | Some zone \<Rightarrow> zone))"

definition newEndpointTranslator ::
  "string \<Rightarrow> string \<Rightarrow> bool \<Rightarrow> bool \<Rightarrow> bool \<Rightarrow> bool \<Rightarrow> http2_params option \<Rightarrow> string \<Rightarrow> uint32 fset \<Rightarrow>
     (string \<Rightarrow> api_error + labels) \<Rightarrow> endpointTranslator" where
  "newEndpointTranslator controllerNS identityTrustDomain enableH2Upgrade enableEndpointFiltering
     enableIPv6 extEndpointZoneWeights meshedHTTP2ClientParams srcNodeName defaultOpaquePorts nodes =
     \<lparr>et_controllerNS = controllerNS, et_identityTrustDomain = identityTrustDomain,
      et_nodeTopologyZone = (case getNodeTopologyZone nodes srcNodeName of Inl _ \<Rightarrow> [] | Inr zone \<Rightarrow> zone),
      et_nodeName = srcNodeName, et_defaultOpaquePorts = defaultOpaquePorts,
      et_enableH2Upgrade = enableH2Upgrade, et_enableEndpointFiltering = enableEndpointFiltering,
      et_enableIPv6 = enableIPv6, et_extEndpointZoneWeights = extEndpointZoneWeights,
      et_meshedHTTP2ClientParams = meshedHTTP2ClientParams,
      et_availableEndpoints = newEmptyAddressSet, et_filteredSnapshot = newEmptyAddressSet\<rparr>"

section \<open>Model: filtering and diffing\<close>

definition selectAddressFamily :: "endpointTranslator \<Rightarrow> AddressSet \<Rightarrow> AddressSet" where
  "selectAddressFamily et addresses =
     addresses\<lparr>Addresses := fm_filter_kv (\<lambda>aid _.
         \<not> (IPFamily aid = IPv6Protocol \<and> \<not> et_enableIPv6 et) \<and>
         \<not> (IPFamily aid = IPv4Protocol \<and> et_enableIPv6 et \<and>
            fmlookup (Addresses addresses) (aid\<lparr>IPFamily := IPv6Protocol\<rparr>) \<noteq> None))
       (Addresses addresses)\<rparr>"

definition zone_filtered :: "endpointTranslator \<Rightarrow> (ID, Address) fmap" where
  "zone_filtered et =
     fm_filter_kv (\<lambda>_ address. et_nodeTopologyZone et \<in> set (ForZones address))
       (Addresses (et_availableEndpoints et))"

definition filterAddresses :: "endpointTranslator \<Rightarrow> AddressSet" where
  "filterAddresses et =
     (let avail = et_availableEndpoints et in
      if \<not> et_enableEndpointFiltering et then avail\<lparr>LocalTrafficPolicy := False\<rparr>
      else if LocalTrafficPolicy avail then
        avail\<lparr>Addresses := fm_filter_kv (\<lambda>_ address. case addr_Pod address of
            None \<Rightarrow> False | Some pod \<Rightarrow> pod_NodeName pod = et_nodeName et) (Addresses avail)\<rparr>
      else if 0 < fm_size (fm_filter_kv (\<lambda>_ address. ForZones address = []) (Addresses avail)) then avail
      else if 0 < fm_size (zone_filtered et) then avail\<lparr>Addresses := zone_filtered et\<rparr>
      else avail)"

definition diffEndpoints :: "endpointTranslator \<Rightarrow> AddressSet \<Rightarrow> AddressSet \<times> AddressSet" where
  "diffEndpoints et filtered =
     (\<lparr>Addresses = fm_filter_kv (\<lambda>aid new.
           case fmlookup (Addresses (et_filteredSnapshot et)) aid of
             None \<Rightarrow> True
           | Some old \<Rightarrow> old \<noteq> new) (Addresses filtered),
       Labels = Labels filtered, LocalTrafficPolicy = False\<rparr>,
      \<lparr>Addresses = fm_filter_kv (\<lambda>aid _. fmlookup (Addresses filtered) aid = None)
           (Addresses (et_filteredSnapshot et)),
       Labels = Labels filtered, LocalTrafficPolicy = False\<rparr>)"

section \<open>Model: messages to the client\<close>

definition service_weighted_addr :: "endpointTranslator \<Rightarrow> Address \<Rightarrow> translate_error + WeightedAddr" where
  "service_weighted_addr et address = (case toAddr address of
     Inl err \<Rightarrow> Inl (ErrAddr err)
   | Inr addr \<Rightarrow>
       let wa = (new_WeightedAddr addr)\<lparr>wa_AuthorityOverride :=
             (if AuthorityOverride address \<noteq> [] then Some (AuthorityOverride address) else None)\<rparr>
       in Inr (if Identity address \<noteq> []
            then wa\<lparr>wa_TlsIdentity := Some \<lparr>tls_Strategy = DnsLikeIdentity (Identity address), tls_ServerName = None\<rparr>,
                    wa_ProtocolHint := (if et_enableH2Upgrade et
                        then Some \<lparr>hint_Protocol = Some HintH2, hint_OpaqueTransport = None\<rparr> else None),
                    wa_Http2 := et_meshedHTTP2ClientParams et\<rparr>
            else wa))"

definition weighted_addr :: "endpointTranslator \<Rightarrow> Address \<Rightarrow> (translate_error + WeightedAddr) option" where
  "weighted_addr et address =
     (if addr_Pod address \<noteq> None then
        Some (createWeightedAddr address
          (GetAnnotatedOpaquePorts (addr_Pod address) (et_defaultOpaquePorts et)) (et_enableH2Upgrade et)
          (et_identityTrustDomain et) (et_controllerNS et) (et_meshedHTTP2ClientParams et))
      else if addr_ExternalWorkload address \<noteq> None then
        createWeightedAddrForExternalWorkload address
          (GetAnnotatedOpaquePortsForExternalWorkload (addr_ExternalWorkload address) (et_defaultOpaquePorts et))
          (et_meshedHTTP2ClientParams et)
      else Some (service_weighted_addr et address))"

definition zone_locality :: "endpointTranslator \<Rightarrow> Address \<Rightarrow> WeightedAddr \<Rightarrow> WeightedAddr" where
  "zone_locality et address wa =
     (if et_nodeTopologyZone et \<noteq> [] \<and> Zone address \<noteq> None then
        if Zone address = Some (et_nodeTopologyZone et) then
          wa\<lparr>wa_MetricLabels := fmupd ''zone_locality'' ''local'' (wa_MetricLabels wa),
             wa_Weight := (if et_extEndpointZoneWeights et then wa_Weight wa * 10 else wa_Weight wa)\<rparr>
        else wa\<lparr>wa_MetricLabels := fmupd ''zone_locality'' ''remote'' (wa_MetricLabels wa)\<rparr>
      else wa\<lparr>wa_MetricLabels := fmupd ''zone_locality'' ''unknown'' (wa_MetricLabels wa)\<rparr>)"

fun client_addrs :: "endpointTranslator \<Rightarrow> Address list \<Rightarrow> WeightedAddr list option" where
  "client_addrs et [] = Some []"
| "client_addrs et (address # addresses) = (case weighted_addr et address of
     None \<Rightarrow> None
   | Some (Inl _) \<Rightarrow> client_addrs et addresses
   | Some (Inr wa) \<Rightarrow> map_option (Cons (zone_locality et address wa)) (client_addrs et addresses))"

definition sendClientAdd :: "map_range \<Rightarrow> endpointTranslator \<Rightarrow> AddressSet \<Rightarrow> pb_update option" where
  "sendClientAdd rng et aset =
     map_option (\<lambda>addrs. UpdateAdd addrs (Labels aset)) (client_addrs et (range_values rng (Addresses aset)))"

definition sendClientRemove :: "map_range \<Rightarrow> AddressSet \<Rightarrow> pb_update" where
  "sendClientRemove rng aset =
     UpdateRemove (List.map_filter (\<lambda>address. case toAddr address of Inl _ \<Rightarrow> None | Inr t \<Rightarrow> Some t)
       (range_values rng (Addresses aset)))"

definition sendFilteredUpdate ::
  "map_range \<Rightarrow> endpointTranslator \<Rightarrow> (endpointTranslator \<times> pb_update list) option" where
  "sendFilteredUpdate rng et =
     (let filtered = selectAddressFamily et (filterAddresses et) in
      case diffEndpoints et filtered of (diffAdd, diffRemove) \<Rightarrow>
        let et1 = et\<lparr>et_filteredSnapshot := filtered\<rparr>;
            removes = (if 0 < fm_size (Addresses diffRemove) then [sendClientRemove rng diffRemove] else [])
        in if 0 < fm_size (Addresses diffAdd)
           then map_option (\<lambda>add. (et1, add # removes)) (sendClientAdd rng et diffAdd)
           else Some (et1, removes))"

section \<open>Model: updates\<close>

definition et_add :: "map_range \<Rightarrow> endpointTranslator \<Rightarrow> AddressSet \<Rightarrow> (endpointTranslator \<times> pb_update list) option" where
  "et_add rng et aset =
     sendFilteredUpdate rng (et\<lparr>et_availableEndpoints :=
       \<lparr>Addresses = Addresses (et_availableEndpoints et) ++\<^sub>f Addresses aset,
        Labels = Labels aset, LocalTrafficPolicy = LocalTrafficPolicy aset\<rparr>\<rparr>)"

definition et_remove :: "map_range \<Rightarrow> endpointTranslator \<Rightarrow> AddressSet \<Rightarrow> (endpointTranslator \<times> pb_update list) option" where
  "et_remove rng et aset =
     sendFilteredUpdate rng (et\<lparr>et_availableEndpoints := (et_availableEndpoints et)\<lparr>Addresses :=
       fmdrop_fset (fmdom (Addresses aset)) (Addresses (et_availableEndpoints et))\<rparr>\<rparr>)"

definition et_noEndpoints :: "map_range \<Rightarrow> endpointTranslator \<Rightarrow> bool \<Rightarrow> (endpointTranslator \<times> pb_update list) option" where
  "et_noEndpoints rng et exists =
     sendFilteredUpdate rng (et\<lparr>et_availableEndpoints := (et_availableEndpoints et)\<lparr>Addresses := fmempty\<rparr>\<rparr>)"

fun processUpdate :: "map_range \<Rightarrow> endpointTranslator \<Rightarrow> ep_event \<Rightarrow> (endpointTranslator \<times> pb_update list) option" where
  "processUpdate rng et (EvAdd aset) = et_add rng et aset"
| "processUpdate rng et (EvRemove aset) = et_remove rng et aset"
| "processUpdate rng et (EvNoEndpoints exists) = et_noEndpoints rng et exists"

section \<open>No update panics\<close>

lemma weighted_addr_no_panic: "weighted_addr et a \<noteq> None"
  using createWeightedAddrForExternalWorkload_no_panic by (auto simp: weighted_addr_def)

lemma client_addrs_no_panic: "\<exists>was. client_addrs et as = Some was"
proof (induction as)
  case (Cons a as)
  then show ?case using weighted_addr_no_panic [of et a] by (auto split: option.splits sum.splits)
qed simp

lemma sendFilteredUpdate_ex:
  "\<exists>msgs. sendFilteredUpdate rng et =
     Some (et\<lparr>et_filteredSnapshot := selectAddressFamily et (filterAddresses et)\<rparr>, msgs)"
proof -
  obtain add remove where d: "diffEndpoints et (selectAddressFamily et (filterAddresses et)) = (add, remove)"
    by fastforce
  obtain was where "client_addrs et (range_values rng (Addresses add)) = Some was"
    using client_addrs_no_panic by blast
  with d show ?thesis by (simp add: sendFilteredUpdate_def Let_def sendClientAdd_def)
qed

text \<open>The translator an update filters: the available addresses are changed, nothing else.\<close>

fun avail_after :: "endpointTranslator \<Rightarrow> ep_event \<Rightarrow> AddressSet" where
  "avail_after et (EvAdd aset) =
     \<lparr>Addresses = Addresses (et_availableEndpoints et) ++\<^sub>f Addresses aset,
      Labels = Labels aset, LocalTrafficPolicy = LocalTrafficPolicy aset\<rparr>"
| "avail_after et (EvRemove aset) =
     (et_availableEndpoints et)\<lparr>Addresses :=
       fmdrop_fset (fmdom (Addresses aset)) (Addresses (et_availableEndpoints et))\<rparr>"
| "avail_after et (EvNoEndpoints exists) = (et_availableEndpoints et)\<lparr>Addresses := fmempty\<rparr>"

lemma processUpdate_eq:
  "processUpdate rng et ev = sendFilteredUpdate rng (et\<lparr>et_availableEndpoints := avail_after et ev\<rparr>)"
  by (cases ev) (simp_all add: et_add_def et_remove_def et_noEndpoints_def)

lemma processUpdate_no_panic: "\<exists>et' msgs. processUpdate rng et ev = Some (et', msgs)"
  unfolding processUpdate_eq using sendFilteredUpdate_ex by blast

text \<open>The translator after an update, as a total function.\<close>

definition et_state :: "map_range \<Rightarrow> endpointTranslator \<Rightarrow> ep_event \<Rightarrow> endpointTranslator" where
  "et_state rng et ev = (case processUpdate rng et ev of None \<Rightarrow> et | Some (et', _) \<Rightarrow> et')"

definition et_view :: "endpointTranslator \<Rightarrow> (ID, Address) fmap" where
  "et_view et = Addresses (et_availableEndpoints et)"

lemma et_state_eq:
  "et_state rng et ev =
     (let et1 = et\<lparr>et_availableEndpoints := avail_after et ev\<rparr>
      in et1\<lparr>et_filteredSnapshot := selectAddressFamily et1 (filterAddresses et1)\<rparr>)"
  using sendFilteredUpdate_ex [of rng "et\<lparr>et_availableEndpoints := avail_after et ev\<rparr>"]
  by (auto simp: et_state_def processUpdate_eq Let_def)

interpretation tr: endpoint_listener "et_state rng" et_view for rng
  by unfold_locales (simp_all add: et_state_eq et_view_def Let_def)

end
