(* ===== verification/Translator_Client.thy ===== *)
theory Translator_Client
  imports Endpoint_Translator
begin

text \<open>
  What a client of the translator ends up with: the properties of the filters, and the
  refinement between the translator's filtered snapshot and the addresses a client holds
  after it applied the messages it was sent.
\<close>

section \<open>Filters\<close>

lemma filterAddresses_subset:
  "fmlookup (Addresses (filterAddresses et)) i = Some a \<Longrightarrow>
     fmlookup (Addresses (et_availableEndpoints et)) i = Some a"
  by (auto simp: filterAddresses_def Let_def zone_filtered_def split: option.splits if_splits)

lemma selectAddressFamily_subset:
  "fmlookup (Addresses (selectAddressFamily et aset)) i = Some a \<Longrightarrow> fmlookup (Addresses aset) i = Some a"
  by (auto simp: selectAddressFamily_def split: option.splits if_splits)

text \<open>
  C17. The topology filter only ever drops addresses. Without a local traffic policy it
  never leaves a client without an address when there is one, and where every address has
  zone hints and one of them names the node's zone, exactly the addresses hinted for the
  node's zone are kept.
\<close>

theorem filterAddresses_safe:
  "Addresses (filterAddresses et) \<subseteq>\<^sub>f Addresses (et_availableEndpoints et) \<and>
   (\<not> (et_enableEndpointFiltering et \<and> LocalTrafficPolicy (et_availableEndpoints et)) \<longrightarrow>
      (Addresses (filterAddresses et) = fmempty \<longleftrightarrow> Addresses (et_availableEndpoints et) = fmempty)) \<and>
   (et_enableEndpointFiltering et \<longrightarrow> \<not> LocalTrafficPolicy (et_availableEndpoints et) \<longrightarrow>
      (\<forall>i a. fmlookup (Addresses (et_availableEndpoints et)) i = Some a \<longrightarrow> ForZones a \<noteq> []) \<longrightarrow>
      fmlookup (Addresses (et_availableEndpoints et)) j = Some b \<longrightarrow>
      et_nodeTopologyZone et \<in> set (ForZones b) \<longrightarrow>
      (\<forall>i. fmlookup (Addresses (filterAddresses et)) i =
         (case fmlookup (Addresses (et_availableEndpoints et)) i of
            None \<Rightarrow> None
          | Some a \<Rightarrow> if et_nodeTopologyZone et \<in> set (ForZones a) then Some a else None)))"
proof (intro conjI impI)
  let ?avail = "Addresses (et_availableEndpoints et)"
  show "Addresses (filterAddresses et) \<subseteq>\<^sub>f ?avail"
    by (auto simp: fmsubset_alt_def dest: filterAddresses_subset)
  show "Addresses (filterAddresses et) = fmempty \<longleftrightarrow> ?avail = fmempty"
    if "\<not> (et_enableEndpointFiltering et \<and> LocalTrafficPolicy (et_availableEndpoints et))"
    using that by (auto simp: filterAddresses_def Let_def zone_filtered_def)
  assume f: "et_enableEndpointFiltering et" "\<not> LocalTrafficPolicy (et_availableEndpoints et)"
    and hints: "\<forall>i a. fmlookup ?avail i = Some a \<longrightarrow> ForZones a \<noteq> []"
    and j: "fmlookup ?avail j = Some b" "et_nodeTopologyZone et \<in> set (ForZones b)"
  have "fm_filter_kv (\<lambda>_ address. ForZones address = []) ?avail = fmempty"
    unfolding fm_eq_empty_iff using hints by (auto split: option.splits)
  moreover have "0 < fm_size (zone_filtered et)"
    unfolding fm_size_pos_iff zone_filtered_def using j by (intro exI [of _ j] exI [of _ b]) simp
  ultimately have "Addresses (filterAddresses et) = zone_filtered et"
    using f by (simp add: filterAddresses_def)
  then show "\<forall>i. fmlookup (Addresses (filterAddresses et)) i = (case fmlookup ?avail i of
      None \<Rightarrow> None | Some a \<Rightarrow> if et_nodeTopologyZone et \<in> set (ForZones a) then Some a else None)"
    by (simp add: zone_filtered_def)
qed


text \<open>Two addresses of a service, hinted for two zones, and a translator in the first.\<close>

definition west_id :: ID where
  "west_id = \<lparr>Namespace = ''ns'', Name = ''web-10.0.0.1-80'', IPFamily = []\<rparr>"

definition east_id :: ID where
  "east_id = \<lparr>Namespace = ''ns'', Name = ''web-10.0.0.2-80'', IPFamily = []\<rparr>"

definition west_addr :: Address where
  "west_addr = (base_Address ''10.0.0.1'' 80)\<lparr>ForZones := [''west'']\<rparr>"

definition east_addr :: Address where
  "east_addr = (base_Address ''10.0.0.2'' 80)\<lparr>ForZones := [''east'']\<rparr>"

definition two_zones :: AddressSet where
  "two_zones = zero_AddressSet\<lparr>Addresses := fmap_of_list [(west_id, west_addr), (east_id, east_addr)]\<rparr>"

definition west_translator :: endpointTranslator where
  "west_translator =
     newEndpointTranslator ''linkerd'' ''cluster.local'' True True True False None ''node-a'' {||}
       (\<lambda>_. Inr (fmap_of_list [(LabelTopologyZone, ''west'')]))"

lemma west_translator_simps [simp]:
  "et_enableEndpointFiltering west_translator" "et_nodeTopologyZone west_translator = ''west''"
  "Addresses (et_availableEndpoints west_translator) = fmempty"
  "Addresses (et_filteredSnapshot west_translator) = fmempty"
  by (simp_all add: west_translator_def newEndpointTranslator_def getNodeTopologyZone_def
      newEmptyAddressSet_def)

lemma two_zones_lookup [simp]:
  "fmlookup (Addresses two_zones) i =
     (if i = west_id then Some west_addr else if i = east_id then Some east_addr else None)"
  by (simp add: two_zones_def)

lemma two_zones_simps [simp]:
  "\<not> LocalTrafficPolicy two_zones" "ForZones west_addr = [''west'']" "ForZones east_addr = [''east'']"
  "west_id \<noteq> east_id" "east_id \<noteq> west_id"
  by (simp_all add: two_zones_def zero_AddressSet_def west_addr_def east_addr_def base_Address_def
      west_id_def east_id_def)

theorem filterAddresses_safe_witness:
  "fmlookup (Addresses (filterAddresses (west_translator\<lparr>et_availableEndpoints := two_zones\<rparr>))) west_id = Some west_addr \<and>
   fmlookup (Addresses (filterAddresses (west_translator\<lparr>et_availableEndpoints := two_zones\<rparr>))) east_id = None"
  using filterAddresses_safe [of "west_translator\<lparr>et_availableEndpoints := two_zones\<rparr>" west_id west_addr]
  by simp


section \<open>The client\<close>

text \<open>
  A client keeps, per TCP address, the last message about it: an \<open>Add\<close> overwrites, a
  \<open>Remove\<close> deletes.
\<close>

type_synonym client = "(TcpAddress, WeightedAddr) fmap"

fun client_recv :: "client \<Rightarrow> pb_update \<Rightarrow> client" where
  "client_recv c (UpdateAdd was ls) = fm_put_all (map (\<lambda>wa. (wa_Addr wa, wa)) was) c"
| "client_recv c (UpdateRemove ts) = fm_del_list ts c"

text \<open>The message for one address, if it can be translated.\<close>

definition wire :: "endpointTranslator \<Rightarrow> Address \<Rightarrow> WeightedAddr option" where
  "wire et a = (case weighted_addr et a of
     Some (Inr wa) \<Rightarrow> Some (zone_locality et a wa) | _ \<Rightarrow> None)"

text \<open>
  \<open>addressed et f m\<close>: every address of \<open>m\<close> can be translated, and the TCP address of the
  entry \<open>i\<close> is \<open>f i\<close>.
\<close>

definition addressed :: "endpointTranslator \<Rightarrow> (ID \<Rightarrow> TcpAddress) \<Rightarrow> (ID, Address) fmap \<Rightarrow> bool" where
  "addressed et f m \<longleftrightarrow>
     (\<forall>i a. fmlookup m i = Some a \<longrightarrow> (\<exists>w. wire et a = Some w \<and> wa_Addr w = f i))"

text \<open>The client holds the translated snapshot and nothing else.\<close>

definition client_synced :: "endpointTranslator \<Rightarrow> (ID, Address) fmap \<Rightarrow> client \<Rightarrow> bool" where
  "client_synced et m c \<longleftrightarrow>
     (\<forall>t w. fmlookup c t = Some w \<longleftrightarrow>
        (\<exists>i a. fmlookup m i = Some a \<and> wire et a = Some w \<and> wa_Addr w = t))"

definition is_range :: "map_range \<Rightarrow> bool" where
  "is_range rng \<longleftrightarrow> (\<forall>m. distinct (rng m) \<and> set (rng m) = fset (fmdom m))"

lemma range_values_set:
  "is_range rng \<Longrightarrow> a \<in> set (range_values rng m) \<longleftrightarrow> (\<exists>i. fmlookup m i = Some a)"
  by (auto simp: is_range_def range_values_def in_set_map_filter fmlookup_dom_iff)

lemma zone_locality_addr [simp]: "wa_Addr (zone_locality et a wa) = wa_Addr wa"
  by (simp add: zone_locality_def)

lemma weighted_addr_addr: "weighted_addr et a = Some (Inr wa) \<Longrightarrow> toAddr a = Inr (wa_Addr wa)"
  by (auto simp: weighted_addr_def service_weighted_addr_def Let_def
      dest: createWeightedAddr_addr createWeightedAddrForExternalWorkload_addr split: if_splits sum.splits)

lemma wire_addr: "wire et a = Some w \<Longrightarrow> toAddr a = Inr (wa_Addr w)"
  by (auto simp: wire_def dest: weighted_addr_addr split: option.splits sum.splits)

lemma client_addrs_set:
  "client_addrs et as = Some was \<Longrightarrow> w \<in> set was \<longleftrightarrow> (\<exists>a \<in> set as. wire et a = Some w)"
proof (induction as arbitrary: was)
  case (Cons a as)
  obtain r where r: "weighted_addr et a = Some r" using weighted_addr_no_panic by fastforce
  show ?case
  proof (cases r)
    case (Inl e)
    then have "wire et a = None" by (simp add: wire_def r)
    with Cons Inl r show ?thesis by auto
  next
    case (Inr wa)
    then have "wire et a = Some (zone_locality et a wa)" by (simp add: wire_def r)
    with Cons Inr r show ?thesis by auto
  qed
qed simp

lemma translate_config [simp]:
  "zone_locality (et\<lparr>et_filteredSnapshot := x\<rparr>) = zone_locality et"
  "zone_locality (et\<lparr>et_availableEndpoints := x\<rparr>) = zone_locality et"
  "service_weighted_addr (et\<lparr>et_filteredSnapshot := x\<rparr>) = service_weighted_addr et"
  "service_weighted_addr (et\<lparr>et_availableEndpoints := x\<rparr>) = service_weighted_addr et"
  by (intro ext, simp add: zone_locality_def service_weighted_addr_def Let_def split: sum.split)+

lemma weighted_addr_config [simp]:
  "weighted_addr (et\<lparr>et_filteredSnapshot := x\<rparr>) = weighted_addr et"
  "weighted_addr (et\<lparr>et_availableEndpoints := x\<rparr>) = weighted_addr et"
  by (intro ext, simp add: weighted_addr_def)+

lemma wire_config [simp]:
  "wire (et\<lparr>et_filteredSnapshot := x\<rparr>) = wire et" "wire (et\<lparr>et_availableEndpoints := x\<rparr>) = wire et"
  by (simp_all only: fun_eq_iff wire_def weighted_addr_config translate_config simp_thms)

lemma client_addrs_config [simp]:
  "client_addrs (et\<lparr>et_filteredSnapshot := x\<rparr>) as = client_addrs et as"
  "client_addrs (et\<lparr>et_availableEndpoints := x\<rparr>) as = client_addrs et as"
  by (induction as) (simp_all split: option.splits sum.splits)

lemma addressedD:
  "addressed et f m \<Longrightarrow> fmlookup m i = Some a \<Longrightarrow> wire et a = Some w \<Longrightarrow> wa_Addr w = f i"
  by (fastforce simp: addressed_def)

lemma addressed_wire:
  assumes "addressed et f m" "fmlookup m i = Some a"
  obtains w where "wire et a = Some w" "wa_Addr w = f i"
  using assms by (auto simp: addressed_def)

lemma addressed_toAddr:
  assumes "addressed et f m" "fmlookup m i = Some a"
  shows "toAddr a = Inr (f i)"
  using assms by (metis addressed_wire wire_addr)

text \<open>
  The effect of an update on the client: entry by entry, what is added overwrites, then what
  is removed disappears.
\<close>

lemma client_after_add:
  assumes "is_range rng" "sendClientAdd rng et aset = Some msg"
    and inj: "inj_on f (fset (fmdom (Addresses aset)))" and "addressed et f (Addresses aset)"
  shows "fmlookup (client_recv c msg) t = Some w \<longleftrightarrow>
    (\<exists>i a. fmlookup (Addresses aset) i = Some a \<and> wire et a = Some w \<and> f i = t) \<or>
    (t \<notin> f ` fset (fmdom (Addresses aset)) \<and> fmlookup c t = Some w)"
proof -
  from assms(2) obtain was where was: "client_addrs et (range_values rng (Addresses aset)) = Some was"
    and msg: "msg = UpdateAdd was (Labels aset)"
    by (auto simp: sendClientAdd_def)
  let ?kvs = "map (\<lambda>wa. (wa_Addr wa, wa)) was"
  have mem: "(t, w) \<in> set ?kvs \<longleftrightarrow>
      (\<exists>i a. fmlookup (Addresses aset) i = Some a \<and> wire et a = Some w \<and> f i = t)" for t w
  proof -
    have "(t, w) \<in> set ?kvs \<longleftrightarrow> wa_Addr w = t \<and> (\<exists>i a. fmlookup (Addresses aset) i = Some a \<and> wire et a = Some w)"
    proof -
      have "(t, w) \<in> set ?kvs \<longleftrightarrow> wa_Addr w = t \<and> w \<in> set was" by auto
      also have "w \<in> set was \<longleftrightarrow> (\<exists>i a. fmlookup (Addresses aset) i = Some a \<and> wire et a = Some w)"
        unfolding client_addrs_set [OF was] Bex_def range_values_set [OF assms(1)] by blast
      finally show ?thesis .
    qed
    also have "\<dots> \<longleftrightarrow> (\<exists>i a. fmlookup (Addresses aset) i = Some a \<and> wire et a = Some w \<and> f i = t)"
      using addressedD [OF assms(4)] by metis
    finally show ?thesis .
  qed
  have "fmlookup (fm_put_all ?kvs c) t = Some w \<longleftrightarrow>
      (t, w) \<in> set ?kvs \<or> (t \<notin> fst ` set ?kvs \<and> fmlookup c t = Some w)"
  proof (rule fm_put_all_lookup)
    fix v v'
    assume "(t, v) \<in> set ?kvs" "(t, v') \<in> set ?kvs"
    then obtain i a j b where ij: "f i = t" "f j = t" "fmlookup (Addresses aset) i = Some a" "wire et a = Some v"
      "fmlookup (Addresses aset) j = Some b" "wire et b = Some v'"
      unfolding mem by blast
    then have "i = j" by (intro inj_onD [OF inj]) (simp_all add: fmdomI)
    with ij show "v = v'" by simp
  qed
  moreover have "t \<in> fst ` set ?kvs \<longleftrightarrow> t \<in> f ` fset (fmdom (Addresses aset))"
  proof -
    have "t \<in> fst ` X \<longleftrightarrow> (\<exists>v. (t, v) \<in> X)" for X :: "(TcpAddress \<times> WeightedAddr) set" by force
    then have "t \<in> fst ` set ?kvs \<longleftrightarrow>
        (\<exists>v i a. fmlookup (Addresses aset) i = Some a \<and> wire et a = Some v \<and> f i = t)"
      by (simp only: mem)
    also have "\<dots> \<longleftrightarrow> (\<exists>i a. fmlookup (Addresses aset) i = Some a \<and> f i = t)"
      using assms(4) unfolding addressed_def by metis
    also have "\<dots> \<longleftrightarrow> t \<in> f ` fset (fmdom (Addresses aset))"
      by (auto simp: fmlookup_dom_iff)
    finally show ?thesis .
  qed
  ultimately show ?thesis by (simp only: msg client_recv.simps mem)
qed

lemma client_after_remove:
  assumes "is_range rng" and "addressed et f (Addresses aset)"
  shows "fmlookup (client_recv c (sendClientRemove rng aset)) t =
    (if t \<in> f ` fset (fmdom (Addresses aset)) then None else fmlookup c t)"
proof -
  have "t \<in> set (List.map_filter (\<lambda>a. case toAddr a of Inl _ \<Rightarrow> None | Inr t \<Rightarrow> Some t)
      (range_values rng (Addresses aset))) \<longleftrightarrow> (\<exists>i a. fmlookup (Addresses aset) i = Some a \<and> toAddr a = Inr t)"
  proof -
    have "(case toAddr a of Inl _ \<Rightarrow> None | Inr t \<Rightarrow> Some t) = Some t \<longleftrightarrow> toAddr a = Inr t" for a
      by (cases "toAddr a") auto
    then show ?thesis unfolding in_set_map_filter Bex_def range_values_set [OF assms(1)] by auto
  qed
  also have "\<dots> \<longleftrightarrow> t \<in> f ` fset (fmdom (Addresses aset))"
    using addressed_toAddr [OF assms(2)] by (fastforce simp: fmlookup_dom_iff image_iff)
  finally show ?thesis by (simp add: sendClientRemove_def)
qed

section \<open>The snapshot and the client stay in step\<close>

definition tr_diff_add :: "(ID, Address) fmap \<Rightarrow> (ID, Address) fmap \<Rightarrow> (ID, Address) fmap" where
  "tr_diff_add m n =
     Addresses (fst (diffEndpoints (west_translator\<lparr>et_filteredSnapshot := zero_AddressSet\<lparr>Addresses := m\<rparr>\<rparr>)
       (zero_AddressSet\<lparr>Addresses := n\<rparr>)))"

definition tr_diff_remove :: "(ID, Address) fmap \<Rightarrow> (ID, Address) fmap \<Rightarrow> (ID, Address) fmap" where
  "tr_diff_remove m n =
     Addresses (snd (diffEndpoints (west_translator\<lparr>et_filteredSnapshot := zero_AddressSet\<lparr>Addresses := m\<rparr>\<rparr>)
       (zero_AddressSet\<lparr>Addresses := n\<rparr>)))"

interpretation td: map_diff tr_diff_add tr_diff_remove "(\<noteq>)" "\<lambda>a b. b"
  by unfold_locales (auto simp: tr_diff_add_def tr_diff_remove_def diffEndpoints_def split: option.splits)

lemma diffEndpoints_eq:
  "Addresses (fst (diffEndpoints et filtered)) =
     tr_diff_add (Addresses (et_filteredSnapshot et)) (Addresses filtered)"
  "Addresses (snd (diffEndpoints et filtered)) =
     tr_diff_remove (Addresses (et_filteredSnapshot et)) (Addresses filtered)"
  by (simp_all add: diffEndpoints_def tr_diff_add_def tr_diff_remove_def)

lemma client_patch:
  assumes inj: "inj_on f I" "fset (fmdom m) \<subseteq> I" "fset (fmdom n) \<subseteq> I"
    and m: "addressed et f m" and n: "addressed et f n" and sync: "client_synced et m c"
    and c1: "\<And>t w. fmlookup c1 t = Some w \<longleftrightarrow>
      (\<exists>i a. fmlookup (tr_diff_add m n) i = Some a \<and> wire et a = Some w \<and> f i = t) \<or>
      (t \<notin> f ` fset (fmdom (tr_diff_add m n)) \<and> fmlookup c t = Some w)"
    and c2: "\<And>t. fmlookup c2 t = (if t \<in> f ` fset (fmdom (tr_diff_remove m n)) then None else fmlookup c1 t)"
  shows "client_synced et n c2"
  unfolding client_synced_def
proof (intro allI iffI)
  have same: "i = j" if "f i = f j" "fmlookup m i \<noteq> None \<or> fmlookup n i \<noteq> None"
    "fmlookup m j \<noteq> None \<or> fmlookup n j \<noteq> None" for i j
    using inj_onD [OF inj(1) that(1)] inj(2,3) that(2,3) by (auto simp: subset_iff fmlookup_dom_iff)
  fix t w
  {
    assume "fmlookup c2 t = Some w"
    with c2 have notR: "t \<notin> f ` fset (fmdom (tr_diff_remove m n))" and "fmlookup c1 t = Some w"
      by (auto split: if_splits)
    then consider (add) i a where "fmlookup (tr_diff_add m n) i = Some a" "wire et a = Some w" "f i = t"
      | (old) "t \<notin> f ` fset (fmdom (tr_diff_add m n))" "fmlookup c t = Some w"
      unfolding c1 by blast
    then show "\<exists>i a. fmlookup n i = Some a \<and> wire et a = Some w \<and> wa_Addr w = t"
    proof cases
      case add
      then have "fmlookup n i = Some a" by (simp add: td.add_lookup split: option.splits if_splits)
      with add addressedD [OF n this add(2)] show ?thesis by blast
    next
      case old
      from sync old(2) obtain i a where i: "fmlookup m i = Some a" "wire et a = Some w" "wa_Addr w = t"
        by (auto simp: client_synced_def)
      with addressedD [OF m i(1,2)] have t: "t = f i" by simp
      have "fmlookup (tr_diff_remove m n) i = None" "fmlookup (tr_diff_add m n) i = None"
        using notR old(1) by (auto simp: t dest: fmdomI)
      with i(1) have "fmlookup n i = Some a"
        by (auto simp: td.add_lookup td.remove_lookup split: option.splits if_splits)
      with i show ?thesis by blast
    qed
  next
    assume "\<exists>i a. fmlookup n i = Some a \<and> wire et a = Some w \<and> wa_Addr w = t"
    then obtain i a where i: "fmlookup n i = Some a" "wire et a = Some w" "wa_Addr w = t" by blast
    with addressedD [OF n i(1,2)] have t: "t = f i" by simp
    have notR: "t \<notin> f ` fset (fmdom (tr_diff_remove m n))"
      using same [of i] i(1) by (auto simp: t fmlookup_dom_iff td.remove_lookup split: if_splits)
    have "fmlookup c1 t = Some w"
    proof (cases "fmlookup (tr_diff_add m n) i")
      case None
      with i(1) have "fmlookup m i = Some a" by (auto simp: td.add_lookup split: option.splits if_splits)
      with i have "fmlookup c t = Some w" using sync by (auto simp: client_synced_def)
      moreover have "t \<notin> f ` fset (fmdom (tr_diff_add m n))"
      proof
        assume "t \<in> f ` fset (fmdom (tr_diff_add m n))"
        then obtain j b where j: "f j = f i" "fmlookup (tr_diff_add m n) j = Some b"
          by (auto simp: t fmlookup_dom_iff)
        then have "fmlookup n j \<noteq> None" by (simp add: td.add_lookup split: option.splits)
        with same [OF j(1)] i(1) j(2) None show False by auto
      qed
      ultimately show ?thesis unfolding c1 by blast
    next
      case (Some b)
      with i(1) have "b = a" by (simp add: td.add_lookup split: option.splits if_splits)
      with Some i t show ?thesis unfolding c1 by auto
    qed
    with notR show "fmlookup c2 t = Some w" by (simp add: c2)
  }
qed

text \<open>One update keeps the client in step with the snapshot.\<close>

definition in_family :: "endpointTranslator \<Rightarrow> (ID \<Rightarrow> TcpAddress) \<Rightarrow> ID set \<Rightarrow> (ID, Address) fmap \<Rightarrow> bool" where
  "in_family et f I m \<longleftrightarrow> fset (fmdom m) \<subseteq> I \<and> addressed et f m"

lemma in_family_sub:
  assumes "in_family et f I m" and "\<And>i a. fmlookup n i = Some a \<Longrightarrow> fmlookup m i = Some a"
  shows "in_family et f I n"
  using assms unfolding in_family_def addressed_def
  by (auto simp: subset_iff fmlookup_dom_iff)

lemma addressed_empty [simp]: "addressed et f fmempty"
  by (simp add: addressed_def)

lemma client_sync_update:
  assumes rng: "is_range rng" and inj: "inj_on f I"
    and upd: "sendFilteredUpdate rng et = Some (et', msgs)"
    and m: "in_family et f I (Addresses (et_filteredSnapshot et))"
    and avail: "in_family et f I (Addresses (et_availableEndpoints et))"
    and sync: "client_synced et (Addresses (et_filteredSnapshot et)) c"
  shows "client_synced et (Addresses (et_filteredSnapshot et')) (foldl client_recv c msgs) \<and>
    in_family et f I (Addresses (et_filteredSnapshot et'))"
proof -
  let ?m = "Addresses (et_filteredSnapshot et)"
  let ?F = "selectAddressFamily et (filterAddresses et)"
  let ?n = "Addresses ?F"
  obtain add remove where d: "diffEndpoints et ?F = (add, remove)" by fastforce
  then have A: "Addresses add = tr_diff_add ?m ?n" and R: "Addresses remove = tr_diff_remove ?m ?n"
    using diffEndpoints_eq [of et ?F] by auto
  have n: "in_family et f I ?n"
    using avail by (rule in_family_sub) (auto dest: selectAddressFamily_subset filterAddresses_subset)
  have addA: "in_family et f I (Addresses add)"
    using n by (rule in_family_sub) (auto simp: A td.add_lookup split: option.splits if_splits)
  have addR: "in_family et f I (Addresses remove)"
    using m by (rule in_family_sub) (auto simp: R td.remove_lookup split: if_splits)
  obtain msg where msg: "sendClientAdd rng et add = Some msg"
    using client_addrs_no_panic [of et "range_values rng (Addresses add)"] by (auto simp: sendClientAdd_def)
  define c1 where "c1 = (if 0 < fm_size (Addresses add) then client_recv c msg else c)"
  define c2 where "c2 = (if 0 < fm_size (Addresses remove) then client_recv c1 (sendClientRemove rng remove) else c1)"
  from upd have et': "et_filteredSnapshot et' = ?F" and fold: "foldl client_recv c msgs = c2"
    by (auto simp: sendFilteredUpdate_def Let_def d msg c1_def c2_def split: if_splits)
  have "inj_on f (fset (fmdom (Addresses add)))"
    using inj addA by (auto simp: in_family_def intro: inj_on_subset)
  then have c1: "fmlookup c1 t = Some w \<longleftrightarrow>
      (\<exists>i a. fmlookup (Addresses add) i = Some a \<and> wire et a = Some w \<and> f i = t) \<or>
      (t \<notin> f ` fset (fmdom (Addresses add)) \<and> fmlookup c t = Some w)" for t w
    using client_after_add [OF rng msg] addA by (auto simp: c1_def in_family_def)
  have c2: "fmlookup c2 t = (if t \<in> f ` fset (fmdom (Addresses remove)) then None else fmlookup c1 t)" for t
    using client_after_remove [OF rng] addR by (auto simp: c2_def in_family_def)
  have "client_synced et ?n c2"
    using m n by (intro client_patch [OF inj _ _ _ _ sync c1 [unfolded A] c2 [unfolded R]]) (auto simp: in_family_def)
  with n show ?thesis by (simp add: et' fold)
qed

text \<open>A sequence of updates from the queue.\<close>

fun et_run :: "map_range \<Rightarrow> endpointTranslator \<Rightarrow> ep_event list \<Rightarrow> (endpointTranslator \<times> pb_update list) option" where
  "et_run rng et [] = Some (et, [])"
| "et_run rng et (ev # evs) = (case processUpdate rng et ev of
     None \<Rightarrow> None
   | Some (et1, msgs1) \<Rightarrow> map_option (\<lambda>(et2, msgs2). (et2, msgs1 @ msgs2)) (et_run rng et1 evs))"

fun event_added :: "ep_event \<Rightarrow> (ID, Address) fmap" where
  "event_added (EvAdd aset) = Addresses aset"
| "event_added _ = fmempty"

lemma avail_after_family:
  assumes "in_family et f I (Addresses (et_availableEndpoints et))" and "in_family et f I (event_added ev)"
  shows "in_family et f I (Addresses (avail_after et ev))"
  using assms by (cases ev) (auto simp: in_family_def addressed_def split: if_splits)

lemma in_family_config [simp]:
  "in_family (et\<lparr>et_filteredSnapshot := x\<rparr>) = in_family et"
  "in_family (et\<lparr>et_availableEndpoints := x\<rparr>) = in_family et"
  by (simp_all add: fun_eq_iff in_family_def addressed_def)

lemma client_synced_config [simp]:
  "client_synced (et\<lparr>et_filteredSnapshot := x\<rparr>) = client_synced et"
  "client_synced (et\<lparr>et_availableEndpoints := x\<rparr>) = client_synced et"
  by (simp_all add: fun_eq_iff client_synced_def)

lemma filter_config [simp]:
  "selectAddressFamily (et\<lparr>et_filteredSnapshot := x\<rparr>) = selectAddressFamily et"
  "filterAddresses (et\<lparr>et_filteredSnapshot := x\<rparr>) = filterAddresses et"
  by (simp_all add: fun_eq_iff selectAddressFamily_def filterAddresses_def zone_filtered_def Let_def
      cong: option.case_cong)

lemma et_run_snapshot:
  "et_run rng et evs = Some (et', msgs) \<Longrightarrow>
     et_filteredSnapshot et = selectAddressFamily et (filterAddresses et) \<Longrightarrow>
     et_filteredSnapshot et' = selectAddressFamily et' (filterAddresses et')"
proof (induction evs arbitrary: et msgs)
  case (Cons ev evs)
  let ?et = "et\<lparr>et_availableEndpoints := avail_after et ev\<rparr>"
  obtain et1 msgs1 where 1: "processUpdate rng et ev = Some (et1, msgs1)"
    using processUpdate_no_panic by blast
  then obtain msgs2 where 2: "et_run rng et1 evs = Some (et', msgs2)"
    using Cons.prems(1) by auto
  have "et1 = ?et\<lparr>et_filteredSnapshot := selectAddressFamily ?et (filterAddresses ?et)\<rparr>"
    using 1 sendFilteredUpdate_ex [of rng ?et] by (auto simp: processUpdate_eq)
  then show ?case by (intro Cons.IH [OF 2]) simp
qed simp

lemma et_run_no_panic: "\<exists>et' msgs. et_run rng et evs = Some (et', msgs)"
proof (induction evs arbitrary: et)
  case (Cons ev evs)
  obtain et1 msgs1 where 1: "processUpdate rng et ev = Some (et1, msgs1)"
    using processUpdate_no_panic by blast
  from Cons [of et1] show ?case by (auto simp: 1)
qed simp

lemma client_sync_run:
  assumes "is_range rng" "inj_on f I" and "et_run rng et evs = Some (et', msgs)"
    and "\<forall>ev \<in> set evs. in_family et f I (event_added ev)"
    and "in_family et f I (Addresses (et_filteredSnapshot et))"
    and "in_family et f I (Addresses (et_availableEndpoints et))"
    and "client_synced et (Addresses (et_filteredSnapshot et)) c"
  shows "client_synced et (Addresses (et_filteredSnapshot et')) (foldl client_recv c msgs) \<and>
    in_family et f I (Addresses (et_filteredSnapshot et'))"
  using assms(3-7)
proof (induction evs arbitrary: et c msgs)
  case (Cons ev evs)
  let ?et = "et\<lparr>et_availableEndpoints := avail_after et ev\<rparr>"
  obtain et1 msgs1 where 1: "processUpdate rng et ev = Some (et1, msgs1)"
    using processUpdate_no_panic by blast
  then obtain msgs2 where 2: "et_run rng et1 evs = Some (et', msgs2)" and msgs: "msgs = msgs1 @ msgs2"
    using Cons.prems(1) by auto
  have et1: "et1 = ?et\<lparr>et_filteredSnapshot := selectAddressFamily ?et (filterAddresses ?et)\<rparr>"
    using 1 sendFilteredUpdate_ex [of rng ?et] by (auto simp: processUpdate_eq)
  have avail: "in_family et f I (Addresses (avail_after et ev))"
    using Cons.prems(2,4) by (intro avail_after_family) auto
  have "client_synced ?et (Addresses (et_filteredSnapshot et1)) (foldl client_recv c msgs1) \<and>
      in_family ?et f I (Addresses (et_filteredSnapshot et1))"
    using Cons.prems(3,5) avail
    by (intro client_sync_update [OF assms(1,2) 1 [unfolded processUpdate_eq]]) simp_all
  with Cons.IH [OF 2, of "foldl client_recv c msgs1"] Cons.prems(2) avail show ?case
    by (simp add: et1 msgs)
qed simp

lemma client_of_new_translator:
  assumes "is_range rng" and "inj_on f I"
    and "et = newEndpointTranslator ns td h2 filtering ipv6 zw http2 node opaque nodes"
    and "\<forall>ev \<in> set evs. fset (fmdom (event_added ev)) \<subseteq> I \<and> addressed et f (event_added ev)"
  shows "\<exists>et' msgs. et_run rng et evs = Some (et', msgs) \<and>
    (\<forall>t w. fmlookup (foldl client_recv fmempty msgs) t = Some w \<longleftrightarrow>
       (\<exists>i a. fmlookup (Addresses (selectAddressFamily et' (filterAddresses et'))) i = Some a \<and>
          wire et a = Some w \<and> f i = t)) \<and>
    in_family et f I (Addresses (selectAddressFamily et' (filterAddresses et')))"
proof -
  obtain et' msgs where run: "et_run rng et evs = Some (et', msgs)" using et_run_no_panic by blast
  have empty: "et_filteredSnapshot et = newEmptyAddressSet" "et_availableEndpoints et = newEmptyAddressSet"
    "Addresses newEmptyAddressSet = fmempty"
    by (simp_all add: assms(3) newEndpointTranslator_def newEmptyAddressSet_def)
  have "selectAddressFamily et (filterAddresses et) = newEmptyAddressSet"
    by (simp add: filterAddresses_def selectAddressFamily_def empty zone_filtered_def)
       (simp add: newEmptyAddressSet_def)
  then have snap: "et_filteredSnapshot et' = selectAddressFamily et' (filterAddresses et')"
    by (intro et_run_snapshot [OF run]) (simp add: empty)
  have sync: "client_synced et (Addresses (et_filteredSnapshot et')) (foldl client_recv fmempty msgs) \<and>
      in_family et f I (Addresses (et_filteredSnapshot et'))"
    using assms(4)
    by (intro client_sync_run [OF assms(1,2) run]) (auto simp: in_family_def empty client_synced_def)
  then have f: "fmlookup (Addresses (et_filteredSnapshot et')) i = Some a \<Longrightarrow> wire et a = Some w \<Longrightarrow> wa_Addr w = f i"
    for i a w using addressedD by (auto simp: in_family_def)
  have "fmlookup (foldl client_recv fmempty msgs) t = Some w \<longleftrightarrow>
       (\<exists>i a. fmlookup (Addresses (et_filteredSnapshot et')) i = Some a \<and> wire et a = Some w \<and> f i = t)" for t w
    using sync unfolding client_synced_def by (metis f)
  with run sync show ?thesis unfolding snap by blast
qed


text \<open>The sample update, and the TCP addresses of its two entries.\<close>

definition sample_tcp :: "ID \<Rightarrow> TcpAddress" where
  "sample_tcp i = \<lparr>tcp_Ip = Some (Ipv4 (if i = west_id then 0x0A000001 else 0x0A000002)), tcp_Port = 80\<rparr>"

lemma two_zones_addressed: "addressed et sample_tcp (Addresses two_zones)"
proof -
  have "toAddr west_addr = Inr (sample_tcp west_id)" "toAddr east_addr = Inr (sample_tcp east_id)"
    by (simp_all add: toAddr_def west_addr_def east_addr_def base_Address_def sample_tcp_def ip_eval)
  moreover have "addr_Pod west_addr = None" "addr_Pod east_addr = None"
    "addr_ExternalWorkload west_addr = None" "addr_ExternalWorkload east_addr = None"
    by (simp_all add: west_addr_def east_addr_def base_Address_def)
  ultimately show ?thesis
    by (simp add: addressed_def wire_def weighted_addr_def service_weighted_addr_def Let_def)
qed

text \<open>One possible iteration order: sorted by key.\<close>

definition sorted_range :: map_range where
  "sorted_range m = sorted_list_of_fset (fmdom m)"

lemma is_range_sorted: "is_range sorted_range"
  by (simp add: is_range_def sorted_range_def sorted_list_of_fset.rep_eq)


section \<open>An entry that changes its TCP address\<close>

lemma client_recv_add_keeps: "fmlookup c t \<noteq> None \<Longrightarrow> fmlookup (client_recv c (UpdateAdd was ls)) t \<noteq> None"
proof -
  assume "fmlookup c t \<noteq> None"
  then have "t |\<in>| fmdom (client_recv c (UpdateAdd was ls))" by (auto simp: fmdom_put_all intro: fmdomI)
  then show ?thesis by (auto simp: fmlookup_dom_iff)
qed


definition west_moved :: AddressSet where
  "west_moved = zero_AddressSet\<lparr>Addresses := fmap_of_list [(west_id, west_addr\<lparr>IP := ''10.0.0.9''\<rparr>)]\<rparr>"

definition plain_translator :: endpointTranslator where
  "plain_translator =
     newEndpointTranslator ''linkerd'' ''cluster.local'' True False False False None ''node-a'' {||}
       (\<lambda>_. Inl NotFound)"


end
