(* ===== verification/Translator_Queue.thy ===== *)
theory Translator_Queue
  imports Update_Queue Translator_Client
begin

text \<open>
  The queue of the endpoint translator: its updates are the publisher's events, its state is
  the translator and the messages sent so far.
\<close>

definition et_process ::
  "map_range \<Rightarrow> endpointTranslator \<times> pb_update list \<Rightarrow> ep_event \<Rightarrow> endpointTranslator \<times> pb_update list" where
  "et_process rng s ev = (case processUpdate rng (fst s) ev of
     None \<Rightarrow> s
   | Some (et', msgs) \<Rightarrow> (et', snd s @ msgs))"

lemma foldl_et_process:
  "\<exists>et' msgs. et_run rng et evs = Some (et', msgs) \<and>
     foldl (et_process rng) (et, sent) evs = (et', sent @ msgs)"
proof (induction evs arbitrary: et sent)
  case (Cons ev evs)
  obtain et1 msgs1 where 1: "processUpdate rng et ev = Some (et1, msgs1)"
    using processUpdate_no_panic by blast
  from Cons [of et1 "sent @ msgs1"] obtain et' msgs where "et_run rng et1 evs = Some (et', msgs)"
    "foldl (et_process rng) (et1, sent @ msgs1) evs = (et', (sent @ msgs1) @ msgs)" by blast
  moreover have "et_process rng (et, sent) ev = (et1, sent @ msgs1)" by (simp add: et_process_def 1)
  ultimately show ?case by (simp add: 1)
qed simp

text \<open>
  C5. Callbacks never block and at most 100 updates wait. The stream is aborted exactly when
  an update did not fit. As long as it is not aborted, no update is lost, repeated or
  reordered, whatever the interleaving: the translator has handled a prefix of what the
  publisher sent, and the rest waits in order.
\<close>

theorem translator_loses_nothing:
  assumes "queue_run (et_process rng) (new_queue (et, [])) evs q"
  shows "length (uq_updates q) \<le> 100 \<and>
    (uq_endStreamClosed q \<longleftrightarrow> 0 < uq_overflowCounter q) \<and>
    (\<not> uq_endStreamClosed q \<longrightarrow>
       (\<exists>handled. evs = handled @ uq_updates q \<and> et_run rng et handled = Some (uq_state q)))"
  using queue_run_inv [OF assms refl]
proof (rule queue_invE)
  fix handled
  assume "length (uq_updates q) \<le> updateQueueCapacity"
    and "uq_endStreamClosed q \<longleftrightarrow> 0 < uq_overflowCounter q"
    and st: "uq_state q = foldl (et_process rng) (et, []) handled"
    and "\<not> uq_endStreamClosed q \<longrightarrow> handled @ uq_updates q = evs"
  moreover have "et_run rng et handled = Some (uq_state q)"
    unfolding st using foldl_et_process [of rng et handled "[]"] by auto
  ultimately show ?thesis by (auto simp: updateQueueCapacity_def)
qed

theorem translator_loses_nothing_witness:
  "\<exists>q. queue_run (et_process sorted_range) (new_queue (west_translator, [])) [EvAdd two_zones, EvNoEndpoints True] q \<and>
     \<not> uq_endStreamClosed q \<and>
     (\<exists>handled. [EvAdd two_zones, EvNoEndpoints True] = handled @ uq_updates q \<and>
        et_run sorted_range west_translator handled = Some (uq_state q)) \<and>
     uq_updates q = [EvNoEndpoints True]"
proof -
  let ?p = "et_process sorted_range" and ?q0 = "new_queue (west_translator, []) :: (ep_event, _) update_queue"
  let ?q1 = "?q0\<lparr>uq_updates := [EvAdd two_zones]\<rparr>"
  let ?q2 = "?q0\<lparr>uq_updates := [EvAdd two_zones, EvNoEndpoints True]\<rparr>"
  let ?q3 = "?q2\<lparr>uq_updates := [EvNoEndpoints True], uq_state := ?p (uq_state ?q2) (EvAdd two_zones)\<rparr>"
  have "queue_step ?p ?q0 [EvAdd two_zones] ?q1" "queue_step ?p ?q1 [EvNoEndpoints True] ?q2"
    by (auto intro!: step_enqueue simp: enqueueUpdate_def new_queue_def updateQueueCapacity_def)
  moreover have "queue_step ?p ?q2 [] ?q3"
    by (intro step_loop loop_update) (simp_all add: new_queue_def)
  ultimately have run: "queue_run ?p ?q0 ((([] @ [EvAdd two_zones]) @ [EvNoEndpoints True]) @ []) ?q3"
    by (blast intro: run_refl run_step)
  have "\<not> uq_endStreamClosed ?q3" by (simp add: new_queue_def)
  with translator_loses_nothing [OF run] run show ?thesis
    by (intro exI [of _ ?q3]) simp
qed

text \<open>
  C6. \<open>DrainAndStop\<close>: the goroutine can always finish, and however it gets there, when it
  has returned without being stopped it has handled every update that was waiting.
\<close>

theorem translator_drains:
  assumes "DrainAndStop q = Some q1" and "uq_running q" and "\<not> uq_stopClosed q"
  shows "(\<exists>q2. (loop_step (et_process rng))\<^sup>*\<^sup>* q1 q2 \<and> \<not> uq_running q2) \<and>
    (\<forall>q2. (loop_step (et_process rng))\<^sup>*\<^sup>* q1 q2 \<longrightarrow> \<not> uq_running q2 \<longrightarrow>
       uq_updates q2 = [] \<and> uq_state q2 = foldl (et_process rng) (uq_state q) (uq_updates q))"
proof -
  from assms have q1: "q1 = q\<lparr>uq_updatesClosed := True\<rparr>" by (simp add: DrainAndStop_def split: if_splits)
  have "\<exists>q2. (loop_step (et_process rng))\<^sup>*\<^sup>* q1 q2 \<and> \<not> uq_running q2"
    using drain_terminates [of q1 "et_process rng"] assms(2) by (auto simp: q1)
  moreover have "uq_updates q2 = [] \<and> uq_state q2 = foldl (et_process rng) (uq_state q) (uq_updates q)"
    if "(loop_step (et_process rng))\<^sup>*\<^sup>* q1 q2" "\<not> uq_running q2" for q2
    using drained_final [OF that(1)] assms(2,3) that(2) by (auto simp: q1)
  ultimately show ?thesis by blast
qed

theorem translator_drains_witness:
  "\<exists>q2. (loop_step (et_process sorted_range))\<^sup>*\<^sup>*
       ((new_queue (west_translator, []))\<lparr>uq_updates := [EvAdd two_zones], uq_updatesClosed := True\<rparr>) q2 \<and>
     \<not> uq_running q2"
  using translator_drains [of "(new_queue (west_translator, []))\<lparr>uq_updates := [EvAdd two_zones]\<rparr>"
      "(new_queue (west_translator, []))\<lparr>uq_updates := [EvAdd two_zones], uq_updatesClosed := True\<rparr>" sorted_range]
  by (simp add: DrainAndStop_def new_queue_def)

end
