(* ===== verification/Endpoints_Watcher.thy ===== *)
theory Endpoints_Watcher
  imports Publisher_Runs
begin

text \<open>
  The \<open>servicePublisher\<close>s and the \<open>EndpointsWatcher\<close> of \<open>watcher/endpoints_watcher.go\<close>: the map
  from services to their port publishers, the subscriptions, and the handlers of the
  Service, Endpoints, EndpointSlice and Server informers.

  \<^item> An operation returns the new watcher and, per service and per port, the callbacks of
    that port publisher. Go walks the maps in an unspecified order; the callbacks of
    different ports are kept apart, so no order between them is assumed.
  \<^item> A panic of one port publisher ends the process: \<open>None\<close>.
  \<^item> The informer lag histograms and the registration of handlers are left out.
\<close>

section \<open>Model: state\<close>

record portAndHostname =
  pah_port :: Port
  pah_hostname :: string

record servicePublisher =
  sp_id :: ServiceID
  sp_enableEndpointSlices :: bool
  sp_localTrafficPolicy :: bool
  sp_cluster :: string
  sp_ports :: "(portAndHostname, portPublisher) fmap"

record EndpointsWatcher =
  w_publishers :: "(ServiceID, servicePublisher) fmap"
  w_enableEndpointSlices :: bool
  w_cluster :: string

type_synonym sp_emission = "(portAndHostname, emission) fmap"
type_synonym w_emission = "(ServiceID, sp_emission) fmap"

datatype watch_error = InvalidService string

definition NewEndpointsWatcher :: "bool \<Rightarrow> string \<Rightarrow> EndpointsWatcher" where
  "NewEndpointsWatcher enableEndpointSlices cluster =
     \<lparr>w_publishers = fmempty, w_enableEndpointSlices = enableEndpointSlices, w_cluster = cluster\<rparr>"

section \<open>Model: service publishers\<close>

fun target_of_ports :: "ServicePort list \<Rightarrow> Port \<Rightarrow> IntOrString" where
  "target_of_ports [] port = IntVal port"
| "target_of_ports (portSpec # specs) port =
     (if sp_Port portSpec = port then StrVal (sp_Name portSpec) else target_of_ports specs port)"

definition getTargetPort :: "Service option \<Rightarrow> Port \<Rightarrow> IntOrString" where
  "getTargetPort service port = (case service of
     None \<Rightarrow> IntVal port
   | Some svc \<Rightarrow> target_of_ports (svc_Ports svc) port)"

text \<open>An operation on each port publisher of a service.\<close>

definition sp_each ::
  "(portAndHostname \<Rightarrow> portPublisher \<Rightarrow> (portPublisher \<times> emission) option) \<Rightarrow> servicePublisher \<Rightarrow>
     (servicePublisher \<times> sp_emission) option" where
  "sp_each f sp = (case fm_traverse f (sp_ports sp) of
     None \<Rightarrow> None
   | Some r \<Rightarrow> Some (sp\<lparr>sp_ports := fmmap fst r\<rparr>, fmmap snd r))"

definition sp_updateEndpoints :: "k8s_api \<Rightarrow> servicePublisher \<Rightarrow> Endpoints \<Rightarrow> (servicePublisher \<times> sp_emission) option" where
  "sp_updateEndpoints api sp newEndpoints = sp_each (\<lambda>_ port. Some (updateEndpoints api port newEndpoints)) sp"

definition sp_deleteEndpoints :: "servicePublisher \<Rightarrow> (servicePublisher \<times> sp_emission) option" where
  "sp_deleteEndpoints sp = sp_each (\<lambda>_ port. Some (noEndpoints port False)) sp"

definition sp_addEndpointSlice :: "k8s_api \<Rightarrow> servicePublisher \<Rightarrow> EndpointSlice \<Rightarrow> (servicePublisher \<times> sp_emission) option" where
  "sp_addEndpointSlice api sp newSlice = sp_each (\<lambda>_ port. addEndpointSlice api port newSlice) sp"

definition sp_updateEndpointSlice ::
  "k8s_api \<Rightarrow> servicePublisher \<Rightarrow> EndpointSlice \<Rightarrow> EndpointSlice \<Rightarrow> (servicePublisher \<times> sp_emission) option" where
  "sp_updateEndpointSlice api sp oldSlice newSlice =
     sp_each (\<lambda>_ port. updateEndpointSlice api port oldSlice newSlice) sp"

definition sp_deleteEndpointSlice :: "k8s_api \<Rightarrow> servicePublisher \<Rightarrow> EndpointSlice \<Rightarrow> (servicePublisher \<times> sp_emission) option" where
  "sp_deleteEndpointSlice api sp es = sp_each (\<lambda>_ port. deleteEndpointSlice api port es) sp"

definition sp_updateServer ::
  "k8s_api \<Rightarrow> servicePublisher \<Rightarrow> Server option \<Rightarrow> Server option \<Rightarrow> (servicePublisher \<times> sp_emission) option" where
  "sp_updateServer api sp oldServer newServer =
     sp_each (\<lambda>_ pp. Some (pp_updateServer api pp oldServer newServer)) sp"

text \<open>The body of the loop of \<open>updateService\<close>: first the target port, then the policy.\<close>

definition port_updateService ::
  "k8s_api \<Rightarrow> Service \<Rightarrow> bool \<Rightarrow> portAndHostname \<Rightarrow> portPublisher \<Rightarrow> (portPublisher \<times> emission) option" where
  "port_updateService api newService localTraffic key port =
     (let newTargetPort = getTargetPort (Some newService) (pah_port key) in
      case (if newTargetPort \<noteq> pp_targetPort port then updatePort api port newTargetPort else Some (port, [])) of
        None \<Rightarrow> None
      | Some (port1, em1) \<Rightarrow>
          if pp_localTrafficPolicy port1 \<noteq> localTraffic
          then (case updateLocalTrafficPolicy port1 localTraffic of (port2, em2) \<Rightarrow> Some (port2, em1 @ em2))
          else Some (port1, em1))"

definition sp_updateService :: "k8s_api \<Rightarrow> servicePublisher \<Rightarrow> Service \<Rightarrow> (servicePublisher \<times> sp_emission) option" where
  "sp_updateService api sp newService =
     (let localTraffic = (svc_InternalTrafficPolicy newService = Some ''Local'');
          sp1 = sp\<lparr>sp_localTrafficPolicy := localTraffic\<rparr>
      in sp_each (port_updateService api newService localTraffic) sp1)"

definition newPortPublisher :: "k8s_api \<Rightarrow> servicePublisher \<Rightarrow> Port \<Rightarrow> string \<Rightarrow> portPublisher option" where
  "newPortPublisher api sp srcPort hostname =
     (let svc = api_svc api (Namespace (sp_id sp)) (Name (sp_id sp));
          port = \<lparr>pp_id = zero_ID,
                  pp_targetPort = (case svc of Inl _ \<Rightarrow> IntVal srcPort | Inr s \<Rightarrow> getTargetPort (Some s) srcPort),
                  pp_srcPort = srcPort, pp_hostname = hostname,
                  pp_enableEndpointSlices = sp_enableEndpointSlices sp,
                  pp_exists = (case svc of Inl _ \<Rightarrow> False | Inr _ \<Rightarrow> True),
                  pp_addresses = zero_AddressSet, pp_listeners = [], pp_metrics = newEndpointsMetrics,
                  pp_localTrafficPolicy = sp_localTrafficPolicy sp\<rparr>
      in if pp_enableEndpointSlices port
         then (case api_slices api (Namespace (sp_id sp)) (fmupd LabelServiceName (Name (sp_id sp)) fmempty) of
             Inl _ \<Rightarrow> Some port
           | Inr sliceList \<Rightarrow> map_option fst (add_slices api port sliceList))
         else (case api_endpoints api (Namespace (sp_id sp)) (Name (sp_id sp)) of
             Inl _ \<Rightarrow> Some port
           | Inr endpoints \<Rightarrow> Some (fst (updateEndpoints api port endpoints))))"

definition sp_subscribe ::
  "k8s_api \<Rightarrow> servicePublisher \<Rightarrow> Port \<Rightarrow> string \<Rightarrow> listener \<Rightarrow> (servicePublisher \<times> sp_emission) option" where
  "sp_subscribe api sp srcPort hostname l =
     (let key = \<lparr>pah_port = srcPort, pah_hostname = hostname\<rparr> in
      case (case fmlookup (sp_ports sp) key of
              Some port \<Rightarrow> Some port
            | None \<Rightarrow> newPortPublisher api sp srcPort hostname) of
        None \<Rightarrow> None
      | Some port \<Rightarrow> (case pp_subscribe port l of (port1, em) \<Rightarrow>
          Some (sp\<lparr>sp_ports := fmupd key port1 (sp_ports sp)\<rparr>, fmupd key em fmempty)))"

definition sp_unsubscribe :: "servicePublisher \<Rightarrow> Port \<Rightarrow> string \<Rightarrow> listener \<Rightarrow> servicePublisher" where
  "sp_unsubscribe sp srcPort hostname l =
     (let key = \<lparr>pah_port = srcPort, pah_hostname = hostname\<rparr> in
      case fmlookup (sp_ports sp) key of
        None \<Rightarrow> sp
      | Some port \<Rightarrow>
          let port1 = pp_unsubscribe port l in
          if length (pp_listeners port1) = 0
          then sp\<lparr>sp_ports := fmdrop key (sp_ports sp)\<rparr>
          else sp\<lparr>sp_ports := fmupd key port1 (sp_ports sp)\<rparr>)"

section \<open>Model: the watcher\<close>

definition new_service_publisher :: "EndpointsWatcher \<Rightarrow> ServiceID \<Rightarrow> servicePublisher" where
  "new_service_publisher w i =
     \<lparr>sp_id = i, sp_enableEndpointSlices = w_enableEndpointSlices w, sp_localTrafficPolicy = False,
      sp_cluster = w_cluster w, sp_ports = fmempty\<rparr>"

definition getServicePublisher :: "EndpointsWatcher \<Rightarrow> ServiceID \<Rightarrow> servicePublisher option" where
  "getServicePublisher w i = fmlookup (w_publishers w) i"

definition getOrNewServicePublisher :: "EndpointsWatcher \<Rightarrow> ServiceID \<Rightarrow> EndpointsWatcher \<times> servicePublisher" where
  "getOrNewServicePublisher w i = (case fmlookup (w_publishers w) i of
     Some sp \<Rightarrow> (w, sp)
   | None \<Rightarrow> let sp = new_service_publisher w i in (w\<lparr>w_publishers := fmupd i sp (w_publishers w)\<rparr>, sp))"

text \<open>The result of an operation on one service publisher, put back into the watcher.\<close>

definition w_put :: "EndpointsWatcher \<Rightarrow> ServiceID \<Rightarrow> (servicePublisher \<times> sp_emission) option \<Rightarrow>
    (EndpointsWatcher \<times> w_emission) option" where
  "w_put w i r = (case r of
     None \<Rightarrow> None
   | Some (sp, em) \<Rightarrow> Some (w\<lparr>w_publishers := fmupd i sp (w_publishers w)\<rparr>, fmupd i em fmempty))"

definition w_get_or_new ::
  "EndpointsWatcher \<Rightarrow> ServiceID \<Rightarrow> (servicePublisher \<Rightarrow> (servicePublisher \<times> sp_emission) option) \<Rightarrow>
     (EndpointsWatcher \<times> w_emission) option" where
  "w_get_or_new w i f = (case getOrNewServicePublisher w i of (w1, sp) \<Rightarrow> w_put w1 i (f sp))"

definition w_if_known ::
  "EndpointsWatcher \<Rightarrow> ServiceID \<Rightarrow> (servicePublisher \<Rightarrow> (servicePublisher \<times> sp_emission) option) \<Rightarrow>
     (EndpointsWatcher \<times> w_emission) option" where
  "w_if_known w i f = (case getServicePublisher w i of None \<Rightarrow> Some (w, fmempty) | Some sp \<Rightarrow> w_put w i (f sp))"

definition Subscribe ::
  "k8s_api \<Rightarrow> EndpointsWatcher \<Rightarrow> ServiceID \<Rightarrow> Port \<Rightarrow> string \<Rightarrow> listener \<Rightarrow>
     (watch_error + (EndpointsWatcher \<times> w_emission)) option" where
  "Subscribe api w i port hostname l =
     (if (case api_svc api (Namespace i) (Name i) of Inl _ \<Rightarrow> False | Inr svc \<Rightarrow> svc_Type svc = ''ExternalName'')
      then Some (Inl (InvalidService (ID_String i)))
      else map_option Inr (w_get_or_new w i (\<lambda>sp. sp_subscribe api sp port hostname l)))"

definition Unsubscribe :: "EndpointsWatcher \<Rightarrow> ServiceID \<Rightarrow> Port \<Rightarrow> string \<Rightarrow> listener \<Rightarrow> EndpointsWatcher" where
  "Unsubscribe w i port hostname l = (case getServicePublisher w i of
     None \<Rightarrow> w
   | Some sp \<Rightarrow> w\<lparr>w_publishers := fmupd i (sp_unsubscribe sp port hostname l) (w_publishers w)\<rparr>)"

definition eps_ID :: "Endpoints \<Rightarrow> ServiceID" where
  "eps_ID eps = \<lparr>Namespace = eps_Namespace eps, Name = eps_Name eps, IPFamily = []\<rparr>"

definition w_addService :: "k8s_api \<Rightarrow> EndpointsWatcher \<Rightarrow> Service \<Rightarrow> (EndpointsWatcher \<times> w_emission) option" where
  "w_addService api w service = w_get_or_new w (svc_ID service) (\<lambda>sp. sp_updateService api sp service)"

definition w_updateService :: "k8s_api \<Rightarrow> EndpointsWatcher \<Rightarrow> Service \<Rightarrow> Service \<Rightarrow> (EndpointsWatcher \<times> w_emission) option" where
  "w_updateService api w oldService newService = w_addService api w newService"

definition w_deleteService :: "EndpointsWatcher \<Rightarrow> Service informer_obj \<Rightarrow> (EndpointsWatcher \<times> w_emission) option" where
  "w_deleteService w obj = (case informer_object obj of
     None \<Rightarrow> Some (w, fmempty)
   | Some service \<Rightarrow> w_if_known w (svc_ID service) sp_deleteEndpoints)"

definition w_addEndpoints :: "k8s_api \<Rightarrow> EndpointsWatcher \<Rightarrow> Endpoints option \<Rightarrow> (EndpointsWatcher \<times> w_emission) option" where
  "w_addEndpoints api w obj = (case obj of
     None \<Rightarrow> Some (w, fmempty)
   | Some endpoints \<Rightarrow> w_get_or_new w (eps_ID endpoints) (\<lambda>sp. sp_updateEndpoints api sp endpoints))"

definition w_updateEndpoints ::
  "k8s_api \<Rightarrow> EndpointsWatcher \<Rightarrow> Endpoints option \<Rightarrow> Endpoints option \<Rightarrow> (EndpointsWatcher \<times> w_emission) option" where
  "w_updateEndpoints api w oldObj newObj = (case (oldObj, newObj) of
     (Some oldEndpoints, Some newEndpoints) \<Rightarrow>
       w_get_or_new w (eps_ID newEndpoints) (\<lambda>sp. sp_updateEndpoints api sp newEndpoints)
   | _ \<Rightarrow> Some (w, fmempty))"

definition w_deleteEndpoints :: "EndpointsWatcher \<Rightarrow> Endpoints informer_obj \<Rightarrow> (EndpointsWatcher \<times> w_emission) option" where
  "w_deleteEndpoints w obj = (case informer_object obj of
     None \<Rightarrow> Some (w, fmempty)
   | Some endpoints \<Rightarrow> w_if_known w (eps_ID endpoints) sp_deleteEndpoints)"

definition w_addEndpointSlice ::
  "k8s_api \<Rightarrow> EndpointsWatcher \<Rightarrow> EndpointSlice option \<Rightarrow> (EndpointsWatcher \<times> w_emission) option" where
  "w_addEndpointSlice api w obj = (case obj of
     None \<Rightarrow> Some (w, fmempty)
   | Some newSlice \<Rightarrow> (case getEndpointSliceServiceID newSlice of
       Inl _ \<Rightarrow> Some (w, fmempty)
     | Inr i \<Rightarrow> w_get_or_new w i (\<lambda>sp. sp_addEndpointSlice api sp newSlice)))"

definition w_updateEndpointSlice ::
  "k8s_api \<Rightarrow> EndpointsWatcher \<Rightarrow> EndpointSlice option \<Rightarrow> EndpointSlice option \<Rightarrow> (EndpointsWatcher \<times> w_emission) option" where
  "w_updateEndpointSlice api w oldObj newObj = (case (oldObj, newObj) of
     (Some oldSlice, Some newSlice) \<Rightarrow> (case getEndpointSliceServiceID newSlice of
         Inl _ \<Rightarrow> Some (w, fmempty)
       | Inr i \<Rightarrow> w_if_known w i (\<lambda>sp. sp_updateEndpointSlice api sp oldSlice newSlice))
   | _ \<Rightarrow> Some (w, fmempty))"

text \<open>The error of \<open>getEndpointSliceServiceID\<close> is logged, and the zero identifier is looked up.\<close>

definition w_deleteEndpointSlice ::
  "k8s_api \<Rightarrow> EndpointsWatcher \<Rightarrow> EndpointSlice informer_obj \<Rightarrow> (EndpointsWatcher \<times> w_emission) option" where
  "w_deleteEndpointSlice api w obj = (case informer_object obj of
     None \<Rightarrow> Some (w, fmempty)
   | Some es \<Rightarrow> w_if_known w (slice_service_id es) (\<lambda>sp. sp_deleteEndpointSlice api sp es))"

text \<open>The server handlers walk all publishers, or those of the server's namespace.\<close>

definition w_each_server ::
  "k8s_api \<Rightarrow> EndpointsWatcher \<Rightarrow> (ServiceID \<Rightarrow> bool) \<Rightarrow> Server option \<Rightarrow> Server option \<Rightarrow>
     (EndpointsWatcher \<times> w_emission) option" where
  "w_each_server api w P oldServer newServer =
     (case fm_traverse (\<lambda>i sp. if P i then sp_updateServer api sp oldServer newServer else Some (sp, fmempty))
             (w_publishers w) of
        None \<Rightarrow> None
      | Some r \<Rightarrow> Some (w\<lparr>w_publishers := fmmap fst r\<rparr>, fmmap snd r))"

definition w_addServer :: "k8s_api \<Rightarrow> EndpointsWatcher \<Rightarrow> Server \<Rightarrow> (EndpointsWatcher \<times> w_emission) option" where
  "w_addServer api w server = w_each_server api w (\<lambda>_. True) None (Some server)"

definition w_updateServer ::
  "k8s_api \<Rightarrow> EndpointsWatcher \<Rightarrow> Server option \<Rightarrow> Server option \<Rightarrow> (EndpointsWatcher \<times> w_emission) option" where
  "w_updateServer api w oldServer newServer =
     (let ns = (case newServer of
          Some s \<Rightarrow> srv_Namespace s
        | None \<Rightarrow> (case oldServer of Some s \<Rightarrow> srv_Namespace s | None \<Rightarrow> []))
      in w_each_server api w (\<lambda>i. Namespace i = ns) oldServer newServer)"

text \<open>\<open>deleteServer\<close> does not expect a tombstone: its type assertion panics on one.\<close>

definition w_deleteServer :: "k8s_api \<Rightarrow> EndpointsWatcher \<Rightarrow> Server informer_obj \<Rightarrow> (EndpointsWatcher \<times> w_emission) option" where
  "w_deleteServer api w obj = (case obj of
     Obj server \<Rightarrow> w_each_server api w (\<lambda>_. True) (Some server) None
   | _ \<Rightarrow> None)"

end
