(* ===== verification/Watcher_Invariant.thy ===== *)
theory Watcher_Invariant
  imports Endpoints_Watcher Sample_Cluster
begin

text \<open>
  Runs of the endpoints watcher: subscriptions and informer events in any order, each with
  the caches as they are at that moment. The invariant \<open>w_ok\<close> ties every port publisher to
  its place in the watcher.
\<close>

section \<open>Operations and runs\<close>

datatype w_op =
    WSubscribe k8s_api ServiceID Port string listener
  | WUnsubscribe ServiceID Port string listener
  | WAddService k8s_api Service
  | WUpdateService k8s_api Service Service
  | WDeleteService "Service informer_obj"
  | WAddEndpoints k8s_api "Endpoints option"
  | WUpdateEndpoints k8s_api "Endpoints option" "Endpoints option"
  | WDeleteEndpoints "Endpoints informer_obj"
  | WAddEndpointSlice k8s_api "EndpointSlice option"
  | WUpdateEndpointSlice k8s_api "EndpointSlice option" "EndpointSlice option"
  | WDeleteEndpointSlice k8s_api "EndpointSlice informer_obj"
  | WAddServer k8s_api Server
  | WUpdateServer k8s_api "Server option" "Server option"
  | WDeleteServer k8s_api "Server informer_obj"

fun w_step :: "EndpointsWatcher \<Rightarrow> w_op \<Rightarrow> (EndpointsWatcher \<times> w_emission) option" where
  "w_step w (WSubscribe api i port hostname l) = (case Subscribe api w i port hostname l of
     None \<Rightarrow> None | Some (Inl _) \<Rightarrow> Some (w, fmempty) | Some (Inr r) \<Rightarrow> Some r)"
| "w_step w (WUnsubscribe i port hostname l) = Some (Unsubscribe w i port hostname l, fmempty)"
| "w_step w (WAddService api svc) = w_addService api w svc"
| "w_step w (WUpdateService api old new) = w_updateService api w old new"
| "w_step w (WDeleteService obj) = w_deleteService w obj"
| "w_step w (WAddEndpoints api obj) = w_addEndpoints api w obj"
| "w_step w (WUpdateEndpoints api old new) = w_updateEndpoints api w old new"
| "w_step w (WDeleteEndpoints obj) = w_deleteEndpoints w obj"
| "w_step w (WAddEndpointSlice api obj) = w_addEndpointSlice api w obj"
| "w_step w (WUpdateEndpointSlice api old new) = w_updateEndpointSlice api w old new"
| "w_step w (WDeleteEndpointSlice api obj) = w_deleteEndpointSlice api w obj"
| "w_step w (WAddServer api srv) = w_addServer api w srv"
| "w_step w (WUpdateServer api old new) = w_updateServer api w old new"
| "w_step w (WDeleteServer api obj) = w_deleteServer api w obj"

fun w_run :: "EndpointsWatcher \<Rightarrow> w_op list \<Rightarrow> (EndpointsWatcher \<times> w_emission list) option" where
  "w_run w [] = Some (w, [])"
| "w_run w (op # ops) = (case w_step w op of
     None \<Rightarrow> None
   | Some (w1, em) \<Rightarrow> map_option (\<lambda>(w2, ems). (w2, em # ems)) (w_run w1 ops))"

text \<open>The listeners of a port of a service.\<close>

definition w_listeners :: "EndpointsWatcher \<Rightarrow> ServiceID \<Rightarrow> Port \<Rightarrow> string \<Rightarrow> listener list" where
  "w_listeners w i port hostname = (case fmlookup (w_publishers w) i of
     None \<Rightarrow> []
   | Some sp \<Rightarrow> (case fmlookup (sp_ports sp) \<lparr>pah_port = port, pah_hostname = hostname\<rparr> of
       None \<Rightarrow> [] | Some pp \<Rightarrow> pp_listeners pp))"

fun w_fresh :: "EndpointsWatcher \<Rightarrow> w_op list \<Rightarrow> bool" where
  "w_fresh w [] = True"
| "w_fresh w (op # ops) =
     ((case op of WSubscribe api i port hostname l \<Rightarrow> l \<notin> set (w_listeners w i port hostname) | _ \<Rightarrow> True) \<and>
      (case w_step w op of None \<Rightarrow> True | Some (w1, _) \<Rightarrow> w_fresh w1 ops))"

section \<open>The invariant\<close>

definition port_ok :: "servicePublisher \<Rightarrow> portAndHostname \<Rightarrow> portPublisher \<Rightarrow> bool" where
  "port_ok sp key pp \<longleftrightarrow>
     pp_inv pp \<and> pp_srcPort pp = pah_port key \<and> pp_hostname pp = pah_hostname key \<and>
     pp_enableEndpointSlices pp = sp_enableEndpointSlices sp \<and>
     pp_localTrafficPolicy pp = sp_localTrafficPolicy sp"

definition sp_ok :: "EndpointsWatcher \<Rightarrow> ServiceID \<Rightarrow> servicePublisher \<Rightarrow> bool" where
  "sp_ok w i sp \<longleftrightarrow>
     sp_id sp = i \<and> sp_enableEndpointSlices sp = w_enableEndpointSlices w \<and> sp_cluster sp = w_cluster w \<and>
     (\<forall>key pp. fmlookup (sp_ports sp) key = Some pp \<longrightarrow> port_ok sp key pp \<and> pp_listeners pp \<noteq> [])"

definition w_ok :: "EndpointsWatcher \<Rightarrow> bool" where
  "w_ok w \<longleftrightarrow> (\<forall>i sp. fmlookup (w_publishers w) i = Some sp \<longrightarrow> sp_ok w i sp)"

text \<open>An operation on the ports that keeps their frame keeps the service publisher.\<close>

definition port_keeps :: "bool \<Rightarrow> portPublisher \<Rightarrow> portPublisher \<Rightarrow> bool" where
  "port_keeps b pp pp' \<longleftrightarrow> same_frame (pp\<lparr>pp_localTrafficPolicy := b\<rparr>) pp' \<and> (exists_ok pp \<longrightarrow> exists_ok pp')"

lemma sp_each_ok:
  assumes each: "sp_each f (sp\<lparr>sp_localTrafficPolicy := b\<rparr>) = Some (sp', em)" and ok: "sp_ok w i sp"
    and keeps: "\<And>key pp pp' e. pp_localTrafficPolicy pp = sp_localTrafficPolicy sp \<Longrightarrow>
      f key pp = Some (pp', e) \<Longrightarrow> port_keeps b pp pp'"
  shows "sp_ok w i sp'"
proof -
  let ?sp = "sp\<lparr>sp_localTrafficPolicy := b\<rparr>"
  from each obtain r where r: "fm_traverse f (sp_ports sp) = Some r"
    and sp': "sp' = ?sp\<lparr>sp_ports := fmmap fst r\<rparr>"
    by (auto simp: sp_each_def split: option.splits)
  have "port_ok sp' key pp' \<and> pp_listeners pp' \<noteq> []" if key: "fmlookup (sp_ports sp') key = Some pp'" for key pp'
  proof -
    from key obtain e where "fmlookup r key = Some (pp', e)" by (auto simp: sp')
    with r obtain pp where pp: "fmlookup (sp_ports sp) key = Some pp" "f key pp = Some (pp', e)"
      by (rule fm_traverse_lookup)
    with ok have "port_ok sp key pp" "pp_listeners pp \<noteq> []" by (auto simp: sp_ok_def)
    moreover from this pp keeps have "port_keeps b pp pp'" by (auto simp: port_ok_def)
    ultimately show ?thesis
      by (auto simp: port_ok_def port_keeps_def same_frame_def pp_inv_def sp')
  qed
  with ok show ?thesis by (auto simp: sp_ok_def sp')
qed

lemma same_policy [simp]: "sp\<lparr>sp_localTrafficPolicy := sp_localTrafficPolicy sp\<rparr> = sp"
  "pp\<lparr>pp_localTrafficPolicy := pp_localTrafficPolicy pp\<rparr> = pp"
  by simp_all

lemma sp_ops_ok:
  assumes "sp_ok w i sp"
  shows "sp_updateEndpoints api sp eps = Some (sp', em) \<Longrightarrow> sp_ok w i sp'"
    and "sp_deleteEndpoints sp = Some (sp', em) \<Longrightarrow> sp_ok w i sp'"
    and "sp_addEndpointSlice api sp es = Some (sp', em) \<Longrightarrow> sp_ok w i sp'"
    and "sp_updateEndpointSlice api sp es es' = Some (sp', em) \<Longrightarrow> sp_ok w i sp'"
    and "sp_deleteEndpointSlice api sp es = Some (sp', em) \<Longrightarrow> sp_ok w i sp'"
    and "sp_updateServer api sp srv srv' = Some (sp', em) \<Longrightarrow> sp_ok w i sp'"
proof -
  have keep: "same_frame pp pp' \<Longrightarrow> (exists_ok pp \<longrightarrow> exists_ok pp') \<Longrightarrow>
      pp_localTrafficPolicy pp = sp_localTrafficPolicy sp \<Longrightarrow> port_keeps (sp_localTrafficPolicy sp) pp pp'" for pp pp'
    by (simp add: port_keeps_def same_frame_def)
  note each = sp_each_ok [where sp = sp and b = "sp_localTrafficPolicy sp", unfolded same_policy(1), OF _ assms keep]
  show "sp_updateEndpoints api sp eps = Some (sp', em) \<Longrightarrow> sp_ok w i sp'"
    unfolding sp_updateEndpoints_def by (erule each) (auto dest!: updateEndpoints_frame)
  show "sp_deleteEndpoints sp = Some (sp', em) \<Longrightarrow> sp_ok w i sp'"
    unfolding sp_deleteEndpoints_def by (erule each) (auto dest!: noEndpoints_frame)
  show "sp_addEndpointSlice api sp es = Some (sp', em) \<Longrightarrow> sp_ok w i sp'"
    unfolding sp_addEndpointSlice_def by (erule each) (auto dest!: addEndpointSlice_frame)
  show "sp_updateEndpointSlice api sp es es' = Some (sp', em) \<Longrightarrow> sp_ok w i sp'"
    unfolding sp_updateEndpointSlice_def by (erule each) (auto dest!: updateEndpointSlice_frame)
  show "sp_deleteEndpointSlice api sp es = Some (sp', em) \<Longrightarrow> sp_ok w i sp'"
    unfolding sp_deleteEndpointSlice_def by (erule each) (auto dest!: deleteEndpointSlice_frame)
  show "sp_updateServer api sp srv srv' = Some (sp', em) \<Longrightarrow> sp_ok w i sp'"
    unfolding sp_updateServer_def by (erule each) (auto dest!: pp_updateServer_frame)
qed

lemma port_updateService_keeps:
  assumes "port_updateService api svc b key pp = Some (pp', em)"
  shows "port_keeps b pp pp'"
proof -
  obtain pp1 em1 where 1: "(if getTargetPort (Some svc) (pah_port key) \<noteq> pp_targetPort pp
      then updatePort api pp (getTargetPort (Some svc) (pah_port key)) else Some (pp, [])) = Some (pp1, em1)"
    using assms by (auto simp: port_updateService_def Let_def split: option.splits)
  have f1: "same_frame pp pp1 \<and> (exists_ok pp \<longrightarrow> exists_ok pp1)"
    using 1 by (auto simp: same_frame_def dest!: updatePort_frame split: if_splits)
  show ?thesis
  proof (cases "pp_localTrafficPolicy pp1 = b")
    case True
    with assms 1 have "pp' = pp1" by (simp add: port_updateService_def Let_def)
    with True f1 show ?thesis by (auto simp: port_keeps_def same_frame_def)
  next
    case False
    with assms 1 obtain em2 where "updateLocalTrafficPolicy pp1 b = (pp', em2)"
      by (auto simp: port_updateService_def Let_def split: prod.splits)
    with f1 updateLocalTrafficPolicy_frame [OF this] show ?thesis
      by (auto simp: port_keeps_def same_frame_def)
  qed
qed

lemma sp_updateService_ok:
  "sp_ok w i sp \<Longrightarrow> sp_updateService api sp svc = Some (sp', em) \<Longrightarrow> sp_ok w i sp'"
  unfolding sp_updateService_def Let_def
  by (erule sp_each_ok [rotated]) (auto intro: port_updateService_keeps)

lemma newPortPublisher_ok:
  assumes "newPortPublisher api sp port hostname = Some pp"
  shows "port_ok sp \<lparr>pah_port = port, pah_hostname = hostname\<rparr> pp \<and> pp_listeners pp = []"
proof -
  define pp0 where "pp0 = \<lparr>pp_id = zero_ID,
      pp_targetPort = (case api_svc api (Namespace (sp_id sp)) (Name (sp_id sp)) of
          Inl _ \<Rightarrow> IntVal port | Inr s \<Rightarrow> getTargetPort (Some s) port),
      pp_srcPort = port, pp_hostname = hostname, pp_enableEndpointSlices = sp_enableEndpointSlices sp,
      pp_exists = (case api_svc api (Namespace (sp_id sp)) (Name (sp_id sp)) of Inl _ \<Rightarrow> False | Inr _ \<Rightarrow> True),
      pp_addresses = zero_AddressSet, pp_listeners = [], pp_metrics = newEndpointsMetrics,
      pp_localTrafficPolicy = sp_localTrafficPolicy sp\<rparr>"
  have "same_frame pp0 pp \<and> (exists_ok pp0 \<longrightarrow> exists_ok pp)"
  proof -
    have "pp = pp0 \<or> (\<exists>ess e. add_slices api pp0 ess = Some (pp, e)) \<or> (\<exists>eps. pp = fst (updateEndpoints api pp0 eps))"
      using assms unfolding newPortPublisher_def Let_def pp0_def [symmetric]
      by (auto split: sum.splits if_splits)
    then show ?thesis
      using updateEndpoints_frame [OF surjective_pairing, of pp0 api]
      by (elim disjE exE) (auto dest: add_slices_frame simp: same_frame_def)
  qed
  then show ?thesis
    by (auto simp: port_ok_def pp0_def same_frame_def pp_inv_def exists_ok_def)
qed

lemma sp_subscribe_ok:
  assumes "sp_ok w i sp" "sp_subscribe api sp port hostname l = Some (sp', em)"
    and "\<And>pp. fmlookup (sp_ports sp) \<lparr>pah_port = port, pah_hostname = hostname\<rparr> = Some pp \<Longrightarrow>
      l \<notin> set (pp_listeners pp)"
  shows "sp_ok w i sp'"
proof -
  let ?key = "\<lparr>pah_port = port, pah_hostname = hostname\<rparr>"
  from assms(2) obtain pp where pp: "(case fmlookup (sp_ports sp) ?key of
      Some port \<Rightarrow> Some port | None \<Rightarrow> newPortPublisher api sp port hostname) = Some pp"
    by (auto simp: sp_subscribe_def Let_def split: option.splits)
  then have "port_ok sp ?key pp \<and> l \<notin> set (pp_listeners pp)"
    using assms(1,3) newPortPublisher_ok by (fastforce simp: sp_ok_def split: option.splits)
  moreover have "sp' = sp\<lparr>sp_ports := fmupd ?key (fst (pp_subscribe pp l)) (sp_ports sp)\<rparr>"
    using assms(2) pp by (auto simp: sp_subscribe_def Let_def split: prod.splits)
  ultimately show ?thesis using assms(1)
    by (auto simp: sp_ok_def port_ok_def pp_subscribe_def Let_def pp_inv_def exists_ok_def)
qed

lemma sp_unsubscribe_ok:
  assumes "sp_ok w i sp"
  shows "sp_ok w i (sp_unsubscribe sp port hostname l)"
  using assms
  by (auto simp: sp_ok_def sp_unsubscribe_def port_ok_def pp_unsubscribe_def Let_def pp_inv_def exists_ok_def
      distinct_remove_listener split: option.splits)

section \<open>The watcher keeps the invariant\<close>

lemma w_ok_put:
  assumes "w_ok w" "w_put w i r = Some (w', em)"
    and "\<And>sp e. r = Some (sp, e) \<Longrightarrow> sp_ok w i sp"
  shows "w_ok w'"
  using assms by (auto simp: w_put_def w_ok_def sp_ok_def split: option.splits if_splits)

lemma w_get_or_new_ok:
  assumes "w_ok w" "w_get_or_new w i f = Some (w', em)"
    and "\<And>sp sp' e. (fmlookup (w_publishers w) i = Some sp \<or> sp = new_service_publisher w i) \<Longrightarrow>
      sp_ok w i sp \<Longrightarrow> f sp = Some (sp', e) \<Longrightarrow> sp_ok w i sp'"
  shows "w_ok w'"
proof (cases "fmlookup (w_publishers w) i")
  case (Some sp)
  with assms(1) have "sp_ok w i sp" by (simp add: w_ok_def)
  with Some have "f sp = Some (sp', e) \<Longrightarrow> sp_ok w i sp'" for sp' e using assms(3) by blast
  moreover have "w_put w i (f sp) = Some (w', em)"
    using assms(2) Some by (simp add: w_get_or_new_def getOrNewServicePublisher_def)
  ultimately show ?thesis using w_ok_put [OF assms(1)] by blast
next
  case None
  let ?sp = "new_service_publisher w i"
  let ?w = "w\<lparr>w_publishers := fmupd i ?sp (w_publishers w)\<rparr>"
  have sp: "sp_ok w i ?sp" by (simp add: sp_ok_def new_service_publisher_def)
  then have "w_ok ?w" using assms(1) by (auto simp: w_ok_def sp_ok_def)
  moreover have "w_put ?w i (f ?sp) = Some (w', em)"
    using assms(2) None by (simp add: w_get_or_new_def getOrNewServicePublisher_def Let_def)
  moreover have "sp_ok ?w i sp'" if "f ?sp = Some (sp', e)" for sp' e
    using assms(3) [OF _ sp that] by (simp add: sp_ok_def)
  ultimately show ?thesis by (rule w_ok_put)
qed

lemma w_if_known_ok:
  assumes "w_ok w" "w_if_known w i f = Some (w', em)"
    and "\<And>sp sp' e. sp_ok w i sp \<Longrightarrow> f sp = Some (sp', e) \<Longrightarrow> sp_ok w i sp'"
  shows "w_ok w'"
proof (cases "fmlookup (w_publishers w) i")
  case (Some sp)
  with assms(1) have "sp_ok w i sp" by (simp add: w_ok_def)
  with assms(3) have "f sp = Some (sp', e) \<Longrightarrow> sp_ok w i sp'" for sp' e by blast
  moreover have "w_put w i (f sp) = Some (w', em)"
    using assms(2) Some by (simp add: w_if_known_def getServicePublisher_def)
  ultimately show ?thesis using w_ok_put [OF assms(1)] by blast
qed (use assms in \<open>simp add: w_if_known_def getServicePublisher_def\<close>)

lemma w_each_server_ok:
  assumes "w_ok w" "w_each_server api w P old new = Some (w', em)"
  shows "w_ok w'"
proof -
  from assms(2) obtain r where
    r: "fm_traverse (\<lambda>i sp. if P i then sp_updateServer api sp old new else Some (sp, fmempty)) (w_publishers w) = Some r"
    and w': "w' = w\<lparr>w_publishers := fmmap fst r\<rparr>"
    by (auto simp: w_each_server_def split: option.splits)
  have "sp_ok w i sp'" if "fmlookup (fmmap fst r) i = Some sp'" for i sp'
  proof -
    from that obtain e where "fmlookup r i = Some (sp', e)" by auto
    with r obtain sp where "fmlookup (w_publishers w) i = Some sp"
      "(if P i then sp_updateServer api sp old new else Some (sp, fmempty)) = Some (sp', e)"
      by (rule fm_traverse_lookup)
    with assms(1) show ?thesis by (auto simp: w_ok_def dest: sp_ops_ok(6) split: if_splits)
  qed
  then show ?thesis by (auto simp: w_ok_def sp_ok_def w')
qed

lemma w_step_ok:
  assumes ok: "w_ok w" and step: "w_step w op = Some (w', em)"
    and fresh: "case op of WSubscribe api i port hostname l \<Rightarrow> l \<notin> set (w_listeners w i port hostname) | _ \<Rightarrow> True"
  shows "w_ok w'"
proof (cases op)
  case (WSubscribe api i port hostname l)
  with fresh have l: "\<And>sp pp. fmlookup (w_publishers w) i = Some sp \<Longrightarrow>
      fmlookup (sp_ports sp) \<lparr>pah_port = port, pah_hostname = hostname\<rparr> = Some pp \<Longrightarrow> l \<notin> set (pp_listeners pp)"
    by (simp add: w_listeners_def)
  from step WSubscribe consider "w' = w"
    | "w_get_or_new w i (\<lambda>sp. sp_subscribe api sp port hostname l) = Some (w', em)"
    by (auto simp: Subscribe_def split: option.splits if_splits)
  then show ?thesis
  proof cases
    case 2
    then show ?thesis
      by (rule w_get_or_new_ok [OF ok])
         (erule (1) sp_subscribe_ok, auto dest: l simp: new_service_publisher_def)
  qed (simp add: ok)
next
  case (WUnsubscribe i port hostname l)
  show ?thesis
  proof (cases "fmlookup (w_publishers w) i")
    case None
    with WUnsubscribe step ok show ?thesis by (simp add: Unsubscribe_def getServicePublisher_def)
  next
    case (Some sp)
    with ok have "sp_ok w i (sp_unsubscribe sp port hostname l)"
      by (auto simp: w_ok_def intro: sp_unsubscribe_ok)
    moreover have "w_put w i (Some (sp_unsubscribe sp port hostname l, fmempty)) = Some (w', fmupd i fmempty fmempty)"
      using WUnsubscribe step Some by (simp add: w_put_def Unsubscribe_def getServicePublisher_def)
    ultimately show ?thesis using w_ok_put [OF ok] by blast
  qed
next
  case (WAddService api svc)
  with step show ?thesis
    by (auto simp: w_addService_def intro: w_get_or_new_ok [OF ok] sp_updateService_ok)
next
  case (WUpdateService api old new)
  with step show ?thesis
    by (auto simp: w_updateService_def w_addService_def intro: w_get_or_new_ok [OF ok] sp_updateService_ok)
next
  case (WDeleteService obj)
  with step ok show ?thesis
    by (auto simp: w_deleteService_def intro: w_if_known_ok [OF ok] sp_ops_ok split: option.splits)
next
  case (WAddEndpoints api obj)
  with step ok show ?thesis
    by (auto simp: w_addEndpoints_def intro: w_get_or_new_ok [OF ok] sp_ops_ok split: option.splits)
next
  case (WUpdateEndpoints api old new)
  with step ok show ?thesis
    by (auto simp: w_updateEndpoints_def intro: w_get_or_new_ok [OF ok] sp_ops_ok split: option.splits)
next
  case (WDeleteEndpoints obj)
  with step ok show ?thesis
    by (auto simp: w_deleteEndpoints_def intro: w_if_known_ok [OF ok] sp_ops_ok split: option.splits)
next
  case (WAddEndpointSlice api obj)
  with step ok show ?thesis
    by (auto simp: w_addEndpointSlice_def intro: w_get_or_new_ok [OF ok] sp_ops_ok split: option.splits sum.splits)
next
  case (WUpdateEndpointSlice api old new)
  with step ok show ?thesis
    by (auto simp: w_updateEndpointSlice_def intro: w_if_known_ok [OF ok] sp_ops_ok split: option.splits sum.splits)
next
  case (WDeleteEndpointSlice api obj)
  with step ok show ?thesis
    by (auto simp: w_deleteEndpointSlice_def intro: w_if_known_ok [OF ok] sp_ops_ok split: option.splits)
next
  case (WAddServer api srv)
  with step show ?thesis by (auto simp: w_addServer_def intro: w_each_server_ok [OF ok])
next
  case (WUpdateServer api old new)
  with step show ?thesis by (auto simp: w_updateServer_def Let_def intro: w_each_server_ok [OF ok])
next
  case (WDeleteServer api obj)
  with step show ?thesis
    by (auto simp: w_deleteServer_def intro: w_each_server_ok [OF ok] split: informer_obj.splits)
qed

text \<open>
  C3. Whatever services, endpoints, slices, servers and subscriptions come and go, and in
  whatever order, the watcher stays consistent: every publisher is filed under its own
  service, port and host name and agrees with it on the traffic policy and the kind of
  resource; no listener is registered twice with a port; a publisher whose service is gone
  has no addresses; and no publisher is kept that nobody listens to.
\<close>

theorem watcher_invariant:
  assumes "w_run (NewEndpointsWatcher enableEndpointSlices cluster) ops = Some (w, ems)"
    and "w_fresh (NewEndpointsWatcher enableEndpointSlices cluster) ops"
    and "fmlookup (w_publishers w) i = Some sp" and "fmlookup (sp_ports sp) key = Some pp"
  shows "sp_id sp = i \<and> pp_srcPort pp = pah_port key \<and> pp_hostname pp = pah_hostname key \<and>
    pp_localTrafficPolicy pp = sp_localTrafficPolicy sp \<and> pp_enableEndpointSlices pp = w_enableEndpointSlices w \<and>
    distinct (pp_listeners pp) \<and> pp_listeners pp \<noteq> [] \<and>
    (pp_exists pp \<or> Addresses (pp_addresses pp) = fmempty)"
proof -
  have "w_run w0 ops = Some (w, ems) \<Longrightarrow> w_fresh w0 ops \<Longrightarrow> w_ok w0 \<Longrightarrow> w_ok w" for w0
  proof (induction ops arbitrary: w0 ems)
    case (Cons op ops)
    then show ?case by (auto split: option.splits dest: w_step_ok)
  qed simp
  moreover have "w_ok (NewEndpointsWatcher enableEndpointSlices cluster)"
    by (simp add: w_ok_def NewEndpointsWatcher_def)
  ultimately have "w_ok w" using assms(1,2) by blast
  with assms(3,4) show ?thesis
    by (auto simp: w_ok_def sp_ok_def port_ok_def pp_inv_def exists_ok_def)
qed

text \<open>A subscription to a service that does not exist yet, then its first appearance.\<close>

definition other_id :: ServiceID where
  "other_id = \<lparr>Namespace = ''ns'', Name = ''other'', IPFamily = []\<rparr>"

theorem watcher_invariant_witness:
  "\<exists>w ems sp pp. w_run (NewEndpointsWatcher True ''local'') [WSubscribe sample_api other_id 80 [] 7] = Some (w, ems) \<and>
     fmlookup (w_publishers w) other_id = Some sp \<and>
     fmlookup (sp_ports sp) \<lparr>pah_port = 80, pah_hostname = []\<rparr> = Some pp \<and>
     pp_listeners pp \<noteq> [] \<and> pp_srcPort pp = 80"
proof -
  let ?w0 = "NewEndpointsWatcher True ''local''" and ?op = "WSubscribe sample_api other_id 80 [] 7"
  have "w_run ?w0 [?op] \<noteq> None" and fresh: "w_fresh ?w0 [?op]"
    by (simp_all add: Subscribe_def sample_api_def other_id_def w_get_or_new_def getOrNewServicePublisher_def
        NewEndpointsWatcher_def new_service_publisher_def w_put_def sp_subscribe_def newPortPublisher_def
        pp_subscribe_def Let_def w_listeners_def)
  then obtain w ems where run: "w_run ?w0 [?op] = Some (w, ems)" by auto
  then obtain sp pp where pp: "fmlookup (w_publishers w) other_id = Some sp"
    "fmlookup (sp_ports sp) \<lparr>pah_port = 80, pah_hostname = []\<rparr> = Some pp"
    by (auto simp: Subscribe_def sample_api_def other_id_def w_get_or_new_def getOrNewServicePublisher_def
        NewEndpointsWatcher_def new_service_publisher_def w_put_def sp_subscribe_def newPortPublisher_def
        pp_subscribe_def Let_def)
  from watcher_invariant [OF run fresh pp] run pp show ?thesis by auto
qed

end
