(* ===== verification/Profile_Watcher.thy ===== *)
theory Profile_Watcher
  imports Kube_Types
begin

text \<open>
  The watcher of service profiles (\<open>watcher/profile_watcher.go\<close>): one publisher per profile
  identifier, with its listeners.

  A \<open>*sp.ServiceProfile\<close> is an address, \<open>nat option\<close> with \<open>None\<close> for nil: the watcher only
  passes it on, and the listeners compare it. Calls of \<open>Update\<close> are pairs of a listener and
  the pointer, in order. \<open>Unsubscribe\<close> panics (\<open>None\<close>) where the source calls a method of a
  nil publisher.
\<close>

section \<open>Model\<close>

type_synonym profile_ptr = "nat option"
type_synonym profile_calls = "(nat \<times> profile_ptr) list"
type_synonym ProfileID = ID

record profilePublisher =
  ppub_profile :: profile_ptr
  ppub_listeners :: "nat list"
  ppub_subscribers :: nat
  ppub_updates :: nat

record ProfileWatcher =
  pw_profiles :: "(ProfileID, profilePublisher) fmap"

type_synonym profile_lister = "string \<Rightarrow> string \<Rightarrow> api_error + nat"

definition NewProfileWatcher :: ProfileWatcher where
  "NewProfileWatcher = \<lparr>pw_profiles = fmempty\<rparr>"

definition ppub_subscribe :: "profilePublisher \<Rightarrow> nat \<Rightarrow> profilePublisher \<times> profile_calls" where
  "ppub_subscribe pp l =
     (let ls = ppub_listeners pp @ [l]
      in (pp\<lparr>ppub_listeners := ls, ppub_subscribers := length ls\<rparr>, [(l, ppub_profile pp)]))"

definition ppub_unsubscribe :: "profilePublisher \<Rightarrow> nat \<Rightarrow> profilePublisher" where
  "ppub_unsubscribe pp l =
     (let ls = remove_listener l (ppub_listeners pp)
      in pp\<lparr>ppub_listeners := ls, ppub_subscribers := length ls\<rparr>)"

definition ppub_update :: "profilePublisher \<Rightarrow> profile_ptr \<Rightarrow> profilePublisher \<times> profile_calls" where
  "ppub_update pp profile =
     (pp\<lparr>ppub_profile := profile, ppub_updates := Suc (ppub_updates pp)\<rparr>,
      map (\<lambda>l. (l, profile)) (ppub_listeners pp))"

definition getOrNewProfilePublisher ::
  "profile_lister \<Rightarrow> ProfileWatcher \<Rightarrow> ProfileID \<Rightarrow> profile_ptr \<Rightarrow> ProfileWatcher \<times> profilePublisher" where
  "getOrNewProfilePublisher lister pw i profile = (case fmlookup (pw_profiles pw) i of
     Some publisher \<Rightarrow> (pw, publisher)
   | None \<Rightarrow>
       let profile = (if profile = None
             then (case lister (Namespace i) (Name i) of Inl _ \<Rightarrow> None | Inr p \<Rightarrow> Some p) else profile);
           publisher = \<lparr>ppub_profile = profile, ppub_listeners = [], ppub_subscribers = 0, ppub_updates = 0\<rparr>
       in (pw\<lparr>pw_profiles := fmupd i publisher (pw_profiles pw)\<rparr>, publisher))"

definition getProfilePublisher :: "ProfileWatcher \<Rightarrow> ProfileID \<Rightarrow> profilePublisher option" where
  "getProfilePublisher pw i = fmlookup (pw_profiles pw) i"

definition pw_put :: "ProfileWatcher \<Rightarrow> ProfileID \<Rightarrow> profilePublisher \<Rightarrow> ProfileWatcher" where
  "pw_put pw i pp = pw\<lparr>pw_profiles := fmupd i pp (pw_profiles pw)\<rparr>"

definition pw_Subscribe ::
  "profile_lister \<Rightarrow> ProfileWatcher \<Rightarrow> ProfileID \<Rightarrow> nat \<Rightarrow> ProfileWatcher \<times> profile_calls" where
  "pw_Subscribe lister pw i l = (case getOrNewProfilePublisher lister pw i None of (pw, publisher) \<Rightarrow>
     (case ppub_subscribe publisher l of (publisher, calls) \<Rightarrow> (pw_put pw i publisher, calls)))"

definition pw_Unsubscribe :: "ProfileWatcher \<Rightarrow> ProfileID \<Rightarrow> nat \<Rightarrow> ProfileWatcher option" where
  "pw_Unsubscribe pw i l = (case getProfilePublisher pw i of
     None \<Rightarrow> None
   | Some publisher \<Rightarrow> Some (pw_put pw i (ppub_unsubscribe publisher l)))"

text \<open>An object of the informer: the namespace, name and address of a profile.\<close>

record profile_obj =
  po_Namespace :: string
  po_Name :: string
  po_ptr :: nat

definition po_ID :: "profile_obj \<Rightarrow> ProfileID" where
  "po_ID p = \<lparr>Namespace = po_Namespace p, Name = po_Name p, IPFamily = []\<rparr>"

definition pw_addProfile ::
  "profile_lister \<Rightarrow> ProfileWatcher \<Rightarrow> profile_obj \<Rightarrow> ProfileWatcher \<times> profile_calls" where
  "pw_addProfile lister pw profile =
     (let i = po_ID profile
      in case getOrNewProfilePublisher lister pw i (Some (po_ptr profile)) of (pw, publisher) \<Rightarrow>
        (case ppub_update publisher (Some (po_ptr profile)) of (publisher, calls) \<Rightarrow>
          (pw_put pw i publisher, calls)))"

definition pw_updateProfile ::
  "profile_lister \<Rightarrow> ProfileWatcher \<Rightarrow> profile_obj \<Rightarrow> profile_obj \<Rightarrow> ProfileWatcher \<times> profile_calls" where
  "pw_updateProfile lister pw oldProfile newProfile = pw_addProfile lister pw newProfile"

definition pw_deleteProfile :: "ProfileWatcher \<Rightarrow> profile_obj informer_obj \<Rightarrow> ProfileWatcher \<times> profile_calls" where
  "pw_deleteProfile pw obj = (case informer_object obj of
     None \<Rightarrow> (pw, [])
   | Some profile \<Rightarrow> (case getProfilePublisher pw (po_ID profile) of
       None \<Rightarrow> (pw, [])
     | Some publisher \<Rightarrow> (case ppub_update publisher None of (publisher, calls) \<Rightarrow>
         (pw_put pw (po_ID profile) publisher, calls))))"

section \<open>Runs\<close>

datatype pw_op =
    PwSubscribe profile_lister ProfileID nat
  | PwUnsubscribe ProfileID nat
  | PwAdd profile_lister profile_obj
  | PwUpdate profile_lister profile_obj profile_obj
  | PwDelete "profile_obj informer_obj"

fun pw_step :: "ProfileWatcher \<Rightarrow> pw_op \<Rightarrow> (ProfileWatcher \<times> profile_calls) option" where
  "pw_step pw (PwSubscribe lister i l) = Some (pw_Subscribe lister pw i l)"
| "pw_step pw (PwUnsubscribe i l) = map_option (\<lambda>pw. (pw, [])) (pw_Unsubscribe pw i l)"
| "pw_step pw (PwAdd lister p) = Some (pw_addProfile lister pw p)"
| "pw_step pw (PwUpdate lister p q) = Some (pw_updateProfile lister pw p q)"
| "pw_step pw (PwDelete obj) = Some (pw_deleteProfile pw obj)"

fun pw_run :: "ProfileWatcher \<Rightarrow> pw_op list \<Rightarrow> (ProfileWatcher \<times> profile_calls) option" where
  "pw_run pw [] = Some (pw, [])"
| "pw_run pw (op # ops) = (case pw_step pw op of
     None \<Rightarrow> None
   | Some (pw1, c1) \<Rightarrow> (case pw_run pw1 ops of
       None \<Rightarrow> None
     | Some (pw2, c2) \<Rightarrow> Some (pw2, c1 @ c2)))"

definition pw_listeners :: "ProfileWatcher \<Rightarrow> ProfileID \<Rightarrow> nat list" where
  "pw_listeners pw i = (case fmlookup (pw_profiles pw) i of None \<Rightarrow> [] | Some pp \<Rightarrow> ppub_listeners pp)"

definition pw_new_listener :: "ProfileWatcher \<Rightarrow> nat \<Rightarrow> bool" where
  "pw_new_listener pw l \<longleftrightarrow> (\<forall>i. l \<notin> set (pw_listeners pw i))"

text \<open>Every listener subscribes once, and unsubscribes only from what it subscribed to.\<close>

definition pw_legal :: "ProfileWatcher \<Rightarrow> pw_op \<Rightarrow> bool" where
  "pw_legal pw op = (case op of
     PwSubscribe lister i l \<Rightarrow> pw_new_listener pw l
   | PwUnsubscribe i l \<Rightarrow> l \<in> set (pw_listeners pw i)
   | _ \<Rightarrow> True)"

fun pw_fresh :: "ProfileWatcher \<Rightarrow> pw_op list \<Rightarrow> bool" where
  "pw_fresh pw [] = True"
| "pw_fresh pw (op # ops) = (pw_legal pw op \<and>
     (case pw_step pw op of None \<Rightarrow> True | Some (pw1, _) \<Rightarrow> pw_fresh pw1 ops))"

definition pw_inv :: "ProfileWatcher \<Rightarrow> bool" where
  "pw_inv pw \<longleftrightarrow>
     (\<forall>i. distinct (pw_listeners pw i)) \<and>
     (\<forall>i j l. l \<in> set (pw_listeners pw i) \<longrightarrow> l \<in> set (pw_listeners pw j) \<longrightarrow> i = j) \<and>
     (\<forall>i pp. fmlookup (pw_profiles pw) i = Some pp \<longrightarrow> ppub_subscribers pp = length (ppub_listeners pp))"

lemma pw_inv_init: "pw_inv NewProfileWatcher"
  by (simp add: pw_inv_def NewProfileWatcher_def pw_listeners_def)

lemma pw_lookup_put [simp]:
  "fmlookup (pw_profiles (pw_put pw i pp)) j = (if j = i then Some pp else fmlookup (pw_profiles pw) j)"
  by (simp add: pw_put_def)

lemma pw_listeners_put [simp]: "pw_listeners (pw_put pw i pp) = (pw_listeners pw)(i := ppub_listeners pp)"
  by (auto simp: pw_listeners_def)

text \<open>
  The publisher an operation finds or makes: it has the listeners there were, and the
  watcher has nothing else changed.
\<close>

lemma getOrNew_publisher:
  assumes "getOrNewProfilePublisher lister pw i p = (pw1, pp)"
  shows "ppub_listeners pp = pw_listeners pw i"
    and "pw_put pw1 i pp' = pw_put pw i pp'"
    and "fmlookup (pw_profiles pw) i = Some pq \<Longrightarrow> pp = pq"
    and "pw_inv pw \<Longrightarrow> ppub_subscribers pp = length (ppub_listeners pp)"
  using assms
  by (auto simp: getOrNewProfilePublisher_def pw_listeners_def pw_put_def pw_inv_def Let_def split: option.splits)

lemma pw_inv_put:
  assumes "pw_inv pw" and "distinct (ppub_listeners pp)" and "ppub_subscribers pp = length (ppub_listeners pp)"
    and "\<And>l j. l \<in> set (ppub_listeners pp) \<Longrightarrow> l \<in> set (pw_listeners pw j) \<Longrightarrow> j = i"
  shows "pw_inv (pw_put pw i pp)"
  using assms unfolding pw_inv_def by (auto split: if_splits)

lemma pw_inv_same:
  "pw_inv pw \<Longrightarrow> ppub_listeners pp = pw_listeners pw i \<Longrightarrow>
     ppub_subscribers pp = length (ppub_listeners pp) \<Longrightarrow> pw_inv (pw_put pw i pp)"
  by (rule pw_inv_put) (auto simp: pw_inv_def)

lemma pw_step_inv:
  assumes inv: "pw_inv pw" and legal: "pw_legal pw op"
  shows "\<exists>pw1 calls. pw_step pw op = Some (pw1, calls) \<and> pw_inv pw1"
proof (cases op)
  case (PwSubscribe lister i l)
  obtain pw1 pp where g: "getOrNewProfilePublisher lister pw i None = (pw1, pp)" by force
  have "pw_inv (pw_put pw i (pp\<lparr>ppub_listeners := ppub_listeners pp @ [l],
      ppub_subscribers := Suc (length (ppub_listeners pp))\<rparr>))"
    using inv legal PwSubscribe getOrNew_publisher(1) [OF g]
    by (intro pw_inv_put) (auto simp: pw_legal_def pw_new_listener_def pw_inv_def)
  then show ?thesis
    by (simp add: PwSubscribe pw_Subscribe_def g ppub_subscribe_def getOrNew_publisher(2) [OF g] Let_def)
next
  case (PwUnsubscribe i l)
  then obtain pp where pp: "fmlookup (pw_profiles pw) i = Some pp" "l \<in> set (ppub_listeners pp)"
    using legal by (cases "fmlookup (pw_profiles pw) i") (simp_all add: pw_legal_def pw_listeners_def)
  then have ls: "ppub_listeners pp = pw_listeners pw i" by (simp add: pw_listeners_def)
  have "pw_inv (pw_put pw i (ppub_unsubscribe pp l))"
    using inv set_remove_listener_subset [of l "ppub_listeners pp"] unfolding ppub_unsubscribe_def Let_def
    by (intro pw_inv_put) (auto simp: pw_inv_def ls distinct_remove_listener)
  then show ?thesis by (simp add: PwUnsubscribe pw_Unsubscribe_def getProfilePublisher_def pp)
next
  case (PwAdd lister p)
  obtain pw1 pp where g: "getOrNewProfilePublisher lister pw (po_ID p) (Some (po_ptr p)) = (pw1, pp)" by force
  then show ?thesis
    using inv getOrNew_publisher(1,4) [OF g]
    by (simp add: PwAdd pw_addProfile_def ppub_update_def getOrNew_publisher(2) [OF g] pw_inv_same Let_def)
next
  case (PwUpdate lister p q)
  obtain pw1 pp where g: "getOrNewProfilePublisher lister pw (po_ID q) (Some (po_ptr q)) = (pw1, pp)" by force
  then show ?thesis
    using inv getOrNew_publisher(1,4) [OF g]
    by (simp add: PwUpdate pw_updateProfile_def pw_addProfile_def ppub_update_def
        getOrNew_publisher(2) [OF g] pw_inv_same Let_def)
next
  case (PwDelete obj)
  show ?thesis
  proof (cases "informer_object obj")
    case (Some p)
    show ?thesis
    proof (cases "fmlookup (pw_profiles pw) (po_ID p)")
      case (Some pp)
      then have "pw_inv (pw_put pw (po_ID p) (pp\<lparr>ppub_profile := None, ppub_updates := Suc (ppub_updates pp)\<rparr>))"
        using inv by (intro pw_inv_same) (auto simp: pw_listeners_def pw_inv_def)
      with Some show ?thesis
        by (simp add: PwDelete pw_deleteProfile_def \<open>informer_object obj = Some p\<close> getProfilePublisher_def ppub_update_def)
    qed (simp add: PwDelete pw_deleteProfile_def Some getProfilePublisher_def inv)
  qed (simp add: PwDelete pw_deleteProfile_def inv)
qed

section \<open>What the listeners hear\<close>

text \<open>The profile an identifier has after an informer event.\<close>

fun profile_after :: "ProfileID \<Rightarrow> profile_ptr \<Rightarrow> pw_op \<Rightarrow> profile_ptr" where
  "profile_after i cur (PwAdd lister p) = (if po_ID p = i then Some (po_ptr p) else cur)"
| "profile_after i cur (PwUpdate lister p q) = (if po_ID q = i then Some (po_ptr q) else cur)"
| "profile_after i cur (PwDelete obj) = (case informer_object obj of
     None \<Rightarrow> cur | Some p \<Rightarrow> if po_ID p = i then None else cur)"
| "profile_after i cur _ = cur"

definition profile_heard :: "profile_ptr \<Rightarrow> profile_ptr list \<Rightarrow> profile_ptr \<Rightarrow> bool" where
  "profile_heard before heard after \<longleftrightarrow> heard = [] \<and> after = before \<or> heard = [after]"

lemma pw_add_heard:
  assumes inv: "pw_inv pw" and pp: "fmlookup (pw_profiles pw) i = Some pp" and l: "l \<in> set (ppub_listeners pp)"
    and r: "pw_addProfile lister pw p = (pw1, calls)"
  shows "\<exists>pp1. fmlookup (pw_profiles pw1) i = Some pp1 \<and> ppub_listeners pp1 = ppub_listeners pp \<and>
    ppub_profile pp1 = profile_after i (ppub_profile pp) (PwAdd lister p) \<and>
    profile_heard (ppub_profile pp) (calls_for l calls) (ppub_profile pp1)"
proof -
  obtain pw0 pp0 where g: "getOrNewProfilePublisher lister pw (po_ID p) (Some (po_ptr p)) = (pw0, pp0)" by force
  have li: "pw_listeners pw i = ppub_listeners pp" by (simp add: pw_listeners_def pp)
  have d: "distinct (ppub_listeners pp0)"
    using inv by (simp add: getOrNew_publisher(1) [OF g] pw_inv_def)
  have "po_ID p = i" if "l \<in> set (ppub_listeners pp0)"
    using inv that l by (metis getOrNew_publisher(1) [OF g] li pw_inv_def)
  then show ?thesis
    using r pp l d getOrNew_publisher(3) [OF g, of pp]
    by (auto simp: pw_addProfile_def g ppub_update_def getOrNew_publisher(2) [OF g] profile_heard_def
        calls_for_broadcast Let_def)
qed

lemma pw_step_heard:
  assumes inv: "pw_inv pw" and pp: "fmlookup (pw_profiles pw) i = Some pp" and l: "l \<in> set (ppub_listeners pp)"
    and legal: "pw_legal pw op" and stays: "op \<noteq> PwUnsubscribe i l" and r: "pw_step pw op = Some (pw1, calls)"
  shows "\<exists>pp1. fmlookup (pw_profiles pw1) i = Some pp1 \<and> l \<in> set (ppub_listeners pp1) \<and>
    ppub_profile pp1 = profile_after i (ppub_profile pp) op \<and>
    profile_heard (ppub_profile pp) (calls_for l calls) (ppub_profile pp1)"
proof -
  have li: "pw_listeners pw i = ppub_listeners pp" by (simp add: pw_listeners_def pp)
  have other: "l \<notin> set (pw_listeners pw j)" if "j \<noteq> i" for j
    using inv that l li by (metis pw_inv_def)
  have dist: "distinct (pw_listeners pw j)" for j using inv by (simp add: pw_inv_def)
  show ?thesis
  proof (cases op)
    case (PwSubscribe lister j k)
    obtain pw0 pp0 where g: "getOrNewProfilePublisher lister pw j None = (pw0, pp0)" by force
    have "k \<noteq> l" using legal l unfolding li [symmetric] by (auto simp: PwSubscribe pw_legal_def pw_new_listener_def)
    then show ?thesis
      using r pp l getOrNew_publisher(3) [OF g, of pp]
      by (auto simp: PwSubscribe pw_Subscribe_def g ppub_subscribe_def getOrNew_publisher(2) [OF g]
          profile_heard_def Let_def)
  next
    case (PwUnsubscribe j k)
    then have "k \<noteq> l" if "j = i" using stays that by auto
    then show ?thesis
      using r pp l dist [of i] li
      by (auto simp: PwUnsubscribe pw_Unsubscribe_def getProfilePublisher_def ppub_unsubscribe_def
          profile_heard_def set_remove_listener_distinct Let_def split: option.splits)
  next
    case (PwAdd lister p)
    then show ?thesis using pw_add_heard [OF inv pp l, of lister p pw1 calls] r l by auto
  next
    case (PwUpdate lister p q)
    then show ?thesis
      using pw_add_heard [OF inv pp l, of lister q pw1 calls] r l by (auto simp: pw_updateProfile_def)
  next
    case (PwDelete obj)
    show ?thesis
    proof (cases "informer_object obj")
      case (Some p)
      have "calls_for l (map (\<lambda>k. (k, None :: profile_ptr)) (ppub_listeners pq)) = []"
        if "fmlookup (pw_profiles pw) (po_ID p) = Some pq" "po_ID p \<noteq> i" for pq
        using other [OF that(2)] dist [of "po_ID p"] that(1)
        by (simp add: pw_listeners_def calls_for_broadcast)
      then show ?thesis
        using r pp l dist [of i] li Some
        by (cases "po_ID p = i")
           (auto simp: PwDelete pw_deleteProfile_def getProfilePublisher_def ppub_update_def
             profile_heard_def calls_for_broadcast split: option.splits)
    qed (use r pp l in \<open>simp add: PwDelete pw_deleteProfile_def profile_heard_def\<close>)
  qed
qed

text \<open>Who is not subscribed hears nothing.\<close>

lemma pw_step_silent:
  assumes "pw_new_listener pw l" and "\<And>lister i. op \<noteq> PwSubscribe lister i l" and "pw_step pw op = Some (pw1, calls)"
  shows "pw_new_listener pw1 l \<and> calls_for l calls = []"
proof -
  have calls: "calls_for l (map (\<lambda>k. (k, c :: profile_ptr)) ls) = []" if "l \<notin> set ls" for ls c
    using that by (induction ls) auto
  have known: "l \<notin> set (ppub_listeners pp)" if "fmlookup (pw_profiles pw) i = Some pp" for i pp
    using assms(1) that by (metis pw_new_listener_def pw_listeners_def option.simps(5))
  have new: "l \<notin> set (pw_listeners pw i)" for i using assms(1) by (simp add: pw_new_listener_def)
  have got: "l \<notin> set (ppub_listeners pp)" "pw_put pw0 i pp' = pw_put pw i pp'"
    if "getOrNewProfilePublisher lister pw i p = (pw0, pp)" for lister i p pw0 pp pp'
    using new getOrNew_publisher(1,2) [OF that] by auto
  have add: "pw_new_listener pw1 l \<and> calls_for l calls = []" if "pw_addProfile lister pw q = (pw1, calls)" for lister q
    using that got new
    by (auto simp: pw_addProfile_def ppub_update_def pw_new_listener_def calls Let_def split: prod.splits if_splits)
  show ?thesis
  proof (cases op)
    case (PwSubscribe lister i k)
    with assms(2) have "k \<noteq> l" by blast
    with PwSubscribe assms(3) got new show ?thesis
      by (auto simp: pw_Subscribe_def ppub_subscribe_def pw_new_listener_def Let_def split: prod.splits if_splits)
  next
    case (PwUnsubscribe i k)
    with assms(3) obtain pp where pp: "fmlookup (pw_profiles pw) i = Some pp"
      and r: "pw1 = pw_put pw i (ppub_unsubscribe pp k)" "calls = []"
      by (auto simp: pw_Unsubscribe_def getProfilePublisher_def split: option.splits)
    have "l \<notin> set (remove_listener k (ppub_listeners pp))"
      using known [OF pp] set_remove_listener_subset [of k "ppub_listeners pp"] by blast
    with new show ?thesis by (simp add: r pw_new_listener_def ppub_unsubscribe_def Let_def)
  next
    case (PwDelete obj)
    with assms(3) known new show ?thesis
      by (auto simp: pw_deleteProfile_def getProfilePublisher_def ppub_update_def pw_new_listener_def calls
          split: option.splits if_splits)
  qed (use assms(3) add in \<open>auto simp: pw_updateProfile_def\<close>)
qed

lemma pw_run_silent:
  "pw_new_listener pw l \<Longrightarrow> (\<And>lister i. PwSubscribe lister i l \<notin> set ops) \<Longrightarrow> pw_run pw ops = Some (pw', calls) \<Longrightarrow>
     calls_for l calls = []"
proof (induction ops arbitrary: pw calls)
  case (Cons op ops)
  from Cons.prems(3) obtain pw1 c1 c2 where "pw_step pw op = Some (pw1, c1)"
    and "pw_run pw1 ops = Some (pw', c2)" and "calls = c1 @ c2"
    by (auto split: option.splits)
  with Cons.IH [of pw1 c2] Cons.prems pw_step_silent [of pw l op pw1 c1] show ?case by auto
qed simp

lemma pw_run_append:
  "pw_run pw (ops @ ops') = (case pw_run pw ops of
     None \<Rightarrow> None
   | Some (pw1, c1) \<Rightarrow> (case pw_run pw1 ops' of None \<Rightarrow> None | Some (pw2, c2) \<Rightarrow> Some (pw2, c1 @ c2)))"
  by (induction ops arbitrary: pw) (auto split: option.splits)

lemma pw_fresh_append:
  "pw_fresh pw (ops @ ops') = (pw_fresh pw ops \<and>
     (case pw_run pw ops of None \<Rightarrow> True | Some (pw1, c1) \<Rightarrow> pw_fresh pw1 ops'))"
  by (induction ops arbitrary: pw) (auto split: option.splits)

text \<open>
  The contract of a \<open>ProfileUpdateListener\<close>: it has the profile it was last given.
\<close>

locale profile_listener =
  fixes on_update :: "'s \<Rightarrow> profile_ptr \<Rightarrow> 's"
    and profile_of :: "'s \<Rightarrow> profile_ptr"
  assumes profile_of_update: "profile_of (on_update s p) = p"
begin

lemma heard_profile:
  "profile_heard before heard after \<Longrightarrow> profile_of s = before \<Longrightarrow> profile_of (foldl on_update s heard) = after"
  by (auto simp: profile_heard_def profile_of_update)

lemma profile_of_foldl: "profile_of (foldl on_update s ps) = foldl (\<lambda>_ p. p) (profile_of s) ps"
  by (induction ps arbitrary: s) (simp_all add: profile_of_update)

lemma run_profile:
  assumes "pw_inv pw" and "pw_run pw ops = Some (pw', calls)" and "pw_fresh pw ops"
    and "PwUnsubscribe i l \<notin> set ops"
    and "fmlookup (pw_profiles pw) i = Some pp" and "l \<in> set (ppub_listeners pp)"
    and "profile_of s = ppub_profile pp"
  shows "\<exists>pp'. fmlookup (pw_profiles pw') i = Some pp' \<and> l \<in> set (ppub_listeners pp') \<and>
    ppub_profile pp' = foldl (profile_after i) (ppub_profile pp) ops \<and>
    profile_of (foldl on_update s (calls_for l calls)) = ppub_profile pp'"
  using assms
proof (induction ops arbitrary: pw pp s calls)
  case (Cons op ops)
  from Cons.prems(2) obtain pw1 c1 c2 where step: "pw_step pw op = Some (pw1, c1)"
    and run: "pw_run pw1 ops = Some (pw', c2)" and c: "calls = c1 @ c2"
    by (auto split: option.splits)
  have legal: "pw_legal pw op" and fresh: "pw_fresh pw1 ops" and stays: "op \<noteq> PwUnsubscribe i l"
    using Cons.prems(3,4) step by auto
  obtain pp1 where pp1: "fmlookup (pw_profiles pw1) i = Some pp1" "l \<in> set (ppub_listeners pp1)"
    "ppub_profile pp1 = profile_after i (ppub_profile pp) op"
    "profile_heard (ppub_profile pp) (calls_for l c1) (ppub_profile pp1)"
    using pw_step_heard [OF Cons.prems(1,5,6) legal stays step] by blast
  have inv1: "pw_inv pw1" using pw_step_inv [OF Cons.prems(1) legal] step by auto
  have "profile_of (foldl on_update s (calls_for l c1)) = ppub_profile pp1"
    using heard_profile [OF pp1(4)] Cons.prems(7) by simp
  from Cons.IH [OF inv1 run fresh _ pp1(1,2) this] Cons.prems(4) show ?case
    by (simp add: c pp1(3))
qed simp

text \<open>
  A listener that subscribes has, after any further operations, the profile of the last
  informer event for its identifier, or else the one the publisher or the cache had.
\<close>

lemma subscribe_run_profile:
  assumes inv: "pw_inv pw" and run: "pw_run pw (PwSubscribe lister i l # ops) = Some (pw', calls)"
    and fresh: "pw_fresh pw (PwSubscribe lister i l # ops)" and stays: "PwUnsubscribe i l \<notin> set ops"
  shows "\<exists>pp'. fmlookup (pw_profiles pw') i = Some pp' \<and> l \<in> set (ppub_listeners pp') \<and>
    ppub_profile pp' =
      foldl (profile_after i) (ppub_profile (snd (getOrNewProfilePublisher lister pw i None))) ops \<and>
    profile_of (foldl on_update s (calls_for l calls)) = ppub_profile pp' \<and> calls_for l calls \<noteq> []"
proof -
  obtain pw0 pp where g: "getOrNewProfilePublisher lister pw i None = (pw0, pp)" by force
  let ?pp = "pp\<lparr>ppub_listeners := ppub_listeners pp @ [l], ppub_subscribers := Suc (length (ppub_listeners pp))\<rparr>"
  have step: "pw_step pw (PwSubscribe lister i l) = Some (pw_put pw i ?pp, [(l, ppub_profile pp)])"
    by (simp add: pw_Subscribe_def g ppub_subscribe_def getOrNew_publisher(2) [OF g] Let_def)
  obtain c2 where run2: "pw_run (pw_put pw i ?pp) ops = Some (pw', c2)" and c: "calls = (l, ppub_profile pp) # c2"
    using run step by (auto split: option.splits)
  have inv1: "pw_inv (pw_put pw i ?pp)" and fresh1: "pw_fresh (pw_put pw i ?pp) ops"
    using pw_step_inv [OF inv, of "PwSubscribe lister i l"] fresh step by auto
  show ?thesis
    using run_profile [OF inv1 run2 fresh1 stays, of ?pp "on_update s (ppub_profile pp)"]
    by (simp add: c g profile_of_update)
qed

end

text \<open>A run of legal operations never panics.\<close>

lemma pw_run_total: "pw_inv pw \<Longrightarrow> pw_fresh pw ops \<Longrightarrow> \<exists>pw' calls. pw_run pw ops = Some (pw', calls) \<and> pw_inv pw'"
proof (induction ops arbitrary: pw)
  case (Cons op ops)
  then obtain pw1 c1 where "pw_step pw op = Some (pw1, c1)" "pw_inv pw1"
    using pw_step_inv [of pw op] by auto
  with Cons show ?case by fastforce
qed simp

end
