(* ===== verification/Opaque_Ports.thy ===== *)
theory Opaque_Ports
  imports Port_Ranges Sample_Cluster
begin

text \<open>
  The opaque ports of services (\<open>watcher/opaque_ports_watcher.go\<close>): the parser of the
  annotation of a service, and the watcher that tells its listeners when the ports of their
  service change.

  The state of the watcher is one record; each informer callback and each call of a
  subscriber is one step that returns the new state and the calls of \<open>UpdateService\<close> it
  makes, in order, as pairs of a listener and a set of ports. The gauge of subscribers is a
  map from services to its current value. The service cache is read through \<open>api_svc\<close>.
\<close>

section \<open>The annotation of a service\<close>

fun isNamed :: "string \<Rightarrow> ServicePort list \<Rightarrow> int32 option" where
  "isNamed pr [] = None"
| "isNamed pr (sp # sps) = (if sp_Name sp = pr then Some (sp_Port sp) else isNamed pr sps)"

fun service_port_values :: "ServicePort list \<Rightarrow> string list \<Rightarrow> string list" where
  "service_port_values sps [] = []"
| "service_port_values sps (pr # prs) =
     (case isNamed pr sps of
        Some port \<Rightarrow> itoa (sint port) # service_port_values sps prs
      | None \<Rightarrow> (case ParsePortRange pr of
          Inl _ \<Rightarrow> service_port_values sps prs
        | Inr r \<Rightarrow> map itoa [LowerBound r..UpperBound r] @ service_port_values sps prs))"

definition parseServiceOpaquePorts :: "string \<Rightarrow> ServicePort list \<Rightarrow> string list" where
  "parseServiceOpaquePorts annotation sps = service_port_values sps (GetPortRanges annotation)"

fun collect_ports :: "string list \<Rightarrow> uint32 fset \<Rightarrow> string + uint32 fset" where
  "collect_ports [] opaquePorts = Inr opaquePorts"
| "collect_ports (portStr # strs) opaquePorts = (case parse_uint32 portStr of
     None \<Rightarrow> Inl portStr
   | Some port \<Rightarrow> collect_ports strs (finsert port opaquePorts))"

text \<open>
  The result \<open>nil, false, nil\<close> is \<open>Inr None\<close>, a set of ports is \<open>Inr (Some ports)\<close>, and a
  failed conversion is \<open>Inl\<close> of the offending string.
\<close>

definition getServiceOpaquePortsAnnotation :: "Service \<Rightarrow> string + uint32 fset option" where
  "getServiceOpaquePortsAnnotation svc =
     (case fmlookup (svc_Annotations svc) ProxyOpaquePortsAnnotation of
        None \<Rightarrow> Inr None
      | Some annotation \<Rightarrow>
          if annotation \<noteq> []
          then (case collect_ports (parseServiceOpaquePorts annotation (svc_Ports svc)) {||} of
              Inl e \<Rightarrow> Inl e
            | Inr opaquePorts \<Rightarrow> Inr (Some opaquePorts))
          else Inr (Some {||}))"

definition portsEqual :: "uint32 fset \<Rightarrow> uint32 fset \<Rightarrow> bool" where
  "portsEqual x y = (if fcard x \<noteq> fcard y then False else fBall x (\<lambda>port. port |\<in>| y))"

section \<open>The watcher\<close>

record svcSubscriptions =
  opaquePorts :: "uint32 fset"
  ss_listeners :: "nat list"

record OpaquePortsWatcher =
  opw_subscriptions :: "(ServiceID, svcSubscriptions) fmap"
  opw_subscribersGauge :: "(ServiceID, nat) fmap"
  opw_defaultOpaquePorts :: "uint32 fset"

type_synonym port_calls = "(nat \<times> uint32 fset) list"

definition NewOpaquePortsWatcher :: "uint32 fset \<Rightarrow> OpaquePortsWatcher" where
  "NewOpaquePortsWatcher ports =
     \<lparr>opw_subscriptions = fmempty, opw_subscribersGauge = fmempty, opw_defaultOpaquePorts = ports\<rparr>"

definition opw_put :: "ServiceID \<Rightarrow> svcSubscriptions \<Rightarrow> OpaquePortsWatcher \<Rightarrow> OpaquePortsWatcher" where
  "opw_put i ss opw = opw\<lparr>opw_subscriptions := fmupd i ss (opw_subscriptions opw)\<rparr>"

definition opw_gauge :: "ServiceID \<Rightarrow> nat \<Rightarrow> OpaquePortsWatcher \<Rightarrow> OpaquePortsWatcher" where
  "opw_gauge i n opw = opw\<lparr>opw_subscribersGauge := fmupd i n (opw_subscribersGauge opw)\<rparr>"

definition opw_Subscribe ::
  "k8s_api \<Rightarrow> OpaquePortsWatcher \<Rightarrow> ServiceID \<Rightarrow> nat \<Rightarrow> string + (OpaquePortsWatcher \<times> port_calls)" where
  "opw_Subscribe api opw i l =
     (if (case api_svc api (Namespace i) (Name i) of
            Inl _ \<Rightarrow> False | Inr svc \<Rightarrow> svc_Type svc = ''ExternalName'')
      then Inl (ID_String i)
      else (case fmlookup (opw_subscriptions opw) i of
          None \<Rightarrow> Inr (opw_gauge i 1 (opw_put i
              \<lparr>opaquePorts = opw_defaultOpaquePorts opw, ss_listeners = [l]\<rparr> opw), [])
        | Some ss \<Rightarrow>
            let ls = ss_listeners ss @ [l]
            in Inr (opw_gauge i (length ls) (opw_put i (ss\<lparr>ss_listeners := ls\<rparr>) opw),
                    [(l, opaquePorts ss)])))"

text \<open>
  The loop of \<open>Unsubscribe\<close> ranges over the slice as it was, with its backing array, while
  its body shortens the subscription's slice: a cell past the new end is nil (\<open>None\<close>), and
  the loop goes on after a match.
\<close>

definition unsubscribe_cell :: "'a \<Rightarrow> nat \<Rightarrow> 'a option list \<times> nat \<Rightarrow> 'a option list \<times> nat" where
  "unsubscribe_cell l i = (\<lambda>(cells, n).
     if cells ! i = Some l
     then ((cells[i := cells ! (n - 1)])[n - 1 := None], n - 1) else (cells, n))"

definition unsubscribe_loop :: "'a \<Rightarrow> 'a list \<Rightarrow> 'a list" where
  "unsubscribe_loop l ls =
     (case fold (unsubscribe_cell l) [0..<length ls] (map Some ls, length ls) of
        (cells, n) \<Rightarrow> map the (take n cells))"

definition opw_Unsubscribe :: "OpaquePortsWatcher \<Rightarrow> ServiceID \<Rightarrow> nat \<Rightarrow> OpaquePortsWatcher" where
  "opw_Unsubscribe opw i l = (case fmlookup (opw_subscriptions opw) i of
     None \<Rightarrow> opw
   | Some ss \<Rightarrow>
       let ls = unsubscribe_loop l (ss_listeners ss)
       in if 0 < length ls
          then opw_gauge i (length ls) (opw_put i (ss\<lparr>ss_listeners := ls\<rparr>) opw)
          else opw\<lparr>opw_subscribersGauge := fmdrop i (opw_subscribersGauge opw),
                   opw_subscriptions := fmdrop i (opw_subscriptions opw)\<rparr>)"

definition opw_addService :: "OpaquePortsWatcher \<Rightarrow> Service \<Rightarrow> OpaquePortsWatcher \<times> port_calls" where
  "opw_addService opw svc =
     (let i = svc_ID svc
      in case getServiceOpaquePortsAnnotation svc of
           Inl _ \<Rightarrow> (opw, [])
         | Inr ann \<Rightarrow>
             let ports = (case ann of None \<Rightarrow> opw_defaultOpaquePorts opw | Some ports \<Rightarrow> ports)
             in case fmlookup (opw_subscriptions opw) i of
                  None \<Rightarrow> (opw_put i \<lparr>opaquePorts = ports, ss_listeners = []\<rparr> opw, [])
                | Some ss \<Rightarrow>
                    if portsEqual (opaquePorts ss) ports then (opw, [])
                    else (opw_put i (ss\<lparr>opaquePorts := ports\<rparr>) opw,
                          map (\<lambda>l. (l, ports)) (ss_listeners ss)))"

definition opw_updateService ::
  "OpaquePortsWatcher \<Rightarrow> Service \<Rightarrow> Service \<Rightarrow> OpaquePortsWatcher \<times> port_calls" where
  "opw_updateService opw oldSvc newSvc = opw_addService opw newSvc"

definition opw_deleteService ::
  "OpaquePortsWatcher \<Rightarrow> Service informer_obj \<Rightarrow> OpaquePortsWatcher \<times> port_calls" where
  "opw_deleteService opw obj =
     (case informer_object obj of
        None \<Rightarrow> (opw, [])
      | Some service \<Rightarrow>
          let i = svc_ID service
          in case fmlookup (opw_subscriptions opw) i of
               None \<Rightarrow> (opw, [])
             | Some ss \<Rightarrow>
                 let old = opaquePorts ss;
                     ss = ss\<lparr>opaquePorts := opw_defaultOpaquePorts opw\<rparr>
                 in (opw_put i ss opw,
                     if portsEqual old (opaquePorts ss) then []
                     else map (\<lambda>l. (l, opaquePorts ss)) (ss_listeners ss)))"

section \<open>The parser\<close>

lemma portsEqual_iff [simp]: "portsEqual x y \<longleftrightarrow> x = y"
proof
  assume "portsEqual x y"
  then have "x |\<subseteq>| y" "fcard y \<le> fcard x" by (auto simp: portsEqual_def split: if_splits)
  then show "x = y" by (rule fcard_seteq)
qed (simp add: portsEqual_def)

lemma itoa_nonneg: "0 \<le> i \<Longrightarrow> itoa i = dec_of_nat (nat i)"
  by (simp add: itoa_def)

lemma parse_uint32_itoa:
  "parse_uint32 (itoa i) = (if 0 \<le> i \<and> i < 2 ^ 32 then Some (word_of_int i) else None)"
proof (cases "0 \<le> i")
  case True
  then show ?thesis by (auto simp: itoa_nonneg parse_uint32_def)
next
  case False
  then show ?thesis by (simp add: itoa_def parse_uint32_def is_digit_def)
qed

lemma collect_ports_Inl:
  "(\<exists>e. collect_ports strs ports = Inl e) \<longleftrightarrow> (\<exists>s \<in> set strs. parse_uint32 s = None)"
  by (induction strs arbitrary: ports) (auto split: option.splits)

lemma collect_ports_Inr:
  "collect_ports strs ports = Inr ports' \<Longrightarrow>
     p |\<in>| ports' \<longleftrightarrow> p |\<in>| ports \<or> (\<exists>s \<in> set strs. parse_uint32 s = Some p)"
  by (induction strs arbitrary: ports) (auto split: option.splits)

text \<open>The segments of an annotation that stand for a port, by name or by range.\<close>

definition segment_port :: "ServicePort list \<Rightarrow> string \<Rightarrow> uint32 \<Rightarrow> bool" where
  "segment_port sps seg p \<longleftrightarrow> (case isNamed seg sps of
     Some port \<Rightarrow> p = port
   | None \<Rightarrow> (case ParsePortRange seg of
       Inl _ \<Rightarrow> False
     | Inr r \<Rightarrow> LowerBound r \<le> uint p \<and> uint p \<le> UpperBound r))"

definition names_negative_port :: "ServicePort list \<Rightarrow> string \<Rightarrow> bool" where
  "names_negative_port sps seg \<longleftrightarrow> (case isNamed seg sps of None \<Rightarrow> False | Some port \<Rightarrow> sint port < 0)"

lemma sint_word_of_int_nonneg: "0 \<le> sint (w :: 32 word) \<Longrightarrow> word_of_int (sint w) = w"
  by simp

lemma sint32_less: "sint (w :: 32 word) < 4294967296"
  using sint_range_size [of w] by (simp add: word_size)

lemma service_port_values_None:
  "(\<exists>s \<in> set (service_port_values sps prs). parse_uint32 s = None) \<longleftrightarrow>
     (\<exists>seg \<in> set prs. names_negative_port sps seg)"
proof (induction prs)
  case (Cons pr prs)
  have "0 \<le> LowerBound r \<and> UpperBound r < 4294967296" if "ParsePortRange pr = Inr r" for r
    using ParsePortRange_bounds [OF that] by simp
  then show ?case
    using sint32_less
    by (auto simp: Cons.IH names_negative_port_def bex_Un parse_uint32_itoa not_le
        split: option.splits sum.splits)
qed simp

lemma service_port_values_Some:
  assumes "\<not> (\<exists>seg \<in> set prs. names_negative_port sps seg)"
  shows "(\<exists>s \<in> set (service_port_values sps prs). parse_uint32 s = Some p) \<longleftrightarrow>
     (\<exists>seg \<in> set prs. segment_port sps seg p)"
  using assms
proof (induction prs)
  case (Cons pr prs)
  from Cons.prems have neg: "\<not> names_negative_port sps pr"
    and rest: "\<not> (\<exists>seg \<in> set prs. names_negative_port sps seg)" by auto
  note IH = Cons.IH [OF rest]
  show ?case
  proof (cases "isNamed pr sps")
    case (Some port)
    with neg have "parse_uint32 (itoa (sint port)) = Some port"
      using sint32_less [of port] by (simp add: names_negative_port_def parse_uint32_itoa)
    with Some IH show ?thesis by (auto simp: segment_port_def)
  next
    case None
    show ?thesis
    proof (cases "ParsePortRange pr")
      case (Inl e)
      with None IH show ?thesis by (simp add: segment_port_def)
    next
      case (Inr r)
      have "(\<exists>i \<in> {LowerBound r..UpperBound r}. parse_uint32 (itoa i) = Some p) \<longleftrightarrow>
          LowerBound r \<le> uint p \<and> uint p \<le> UpperBound r"
        using ParsePortRange_bounds [OF Inr] word_range_mem [of r p]
        by (auto simp: parse_uint32_itoa image_iff)
      with None Inr IH show ?thesis by (auto simp: segment_port_def bex_Un)
    qed
  qed
qed simp

text \<open>
  The ports the watcher reads off the annotation of a service: each segment stands for
  the service port of that name, or else for the ports of the range it spells; a segment
  that is neither counts for nothing. The annotation is rejected as a whole exactly when
  some segment names a service port with a negative number.
\<close>

theorem getServiceOpaquePortsAnnotation_spec:
  assumes "fmlookup (svc_Annotations svc) ProxyOpaquePortsAnnotation = Some ann" and "ann \<noteq> []"
  shows "((\<exists>e. getServiceOpaquePortsAnnotation svc = Inl e) \<longleftrightarrow>
      (\<exists>seg \<in> set (GetPortRanges ann). names_negative_port (svc_Ports svc) seg)) \<and>
    (\<forall>ports. getServiceOpaquePortsAnnotation svc = Inr ports \<longrightarrow>
      (\<exists>ps. ports = Some ps \<and>
        (\<forall>p. p |\<in>| ps \<longleftrightarrow> (\<exists>seg \<in> set (GetPortRanges ann). segment_port (svc_Ports svc) seg p))))"
proof -
  let ?strs = "parseServiceOpaquePorts ann (svc_Ports svc)"
  have eq: "getServiceOpaquePortsAnnotation svc = (case collect_ports ?strs {||} of
      Inl e \<Rightarrow> Inl e | Inr ps \<Rightarrow> Inr (Some ps))"
    using assms by (simp add: getServiceOpaquePortsAnnotation_def)
  have none: "(\<exists>e. collect_ports ?strs {||} = Inl e) \<longleftrightarrow>
      (\<exists>seg \<in> set (GetPortRanges ann). names_negative_port (svc_Ports svc) seg)"
    by (simp add: collect_ports_Inl parseServiceOpaquePorts_def service_port_values_None)
  show ?thesis
  proof (cases "collect_ports ?strs {||}")
    case (Inl e)
    with none show ?thesis by (auto simp: eq)
  next
    case (Inr ps)
    with none have ok: "\<not> (\<exists>seg \<in> set (GetPortRanges ann). names_negative_port (svc_Ports svc) seg)"
      by auto
    have "p |\<in>| ps \<longleftrightarrow> (\<exists>seg \<in> set (GetPortRanges ann). segment_port (svc_Ports svc) seg p)" for p
      using collect_ports_Inr [OF Inr, of p] service_port_values_Some [OF ok, of p]
      by (simp add: parseServiceOpaquePorts_def)
    with ok Inr show ?thesis by (simp add: eq)
  qed
qed

theorem getServiceOpaquePortsAnnotation_spec_witness:
  "(\<exists>ports. getServiceOpaquePortsAnnotation (sample_service\<lparr>
       svc_Annotations := fmap_of_list [(ProxyOpaquePortsAnnotation, ''http,x'')]\<rparr>) = Inr (Some ports) \<and>
     80 |\<in>| ports)"
proof -
  let ?svc = "sample_service\<lparr>svc_Annotations := fmap_of_list [(ProxyOpaquePortsAnnotation, ''http,x'')]\<rparr>"
  have segs: "GetPortRanges ''http,x'' = [''http'', ''x'']"
    by (simp add: GetPortRanges_def trim_suffix_def trim_space_def is_space_def)
  have "\<not> names_negative_port (svc_Ports ?svc) seg" if "seg \<in> set [''http'', ''x'']" for seg
    using that by (auto simp: names_negative_port_def sample_service_def)
  moreover have "segment_port (svc_Ports ?svc) ''http'' 80"
    by (simp add: segment_port_def sample_service_def)
  ultimately show ?thesis
    using getServiceOpaquePortsAnnotation_spec [of ?svc "''http,x''"]
    by (cases "getServiceOpaquePortsAnnotation ?svc") (auto simp: segs)
qed

section \<open>The unsubscribe loop\<close>

lemma unsubscribe_cells_id:
  "(\<And>i. i \<in> set is \<Longrightarrow> cells ! i \<noteq> Some l) \<Longrightarrow> fold (unsubscribe_cell l) is (cells, n) = (cells, n)"
  by (induction "is") (auto simp: unsubscribe_cell_def)

text \<open>With distinct listeners the loop removes the one it looks for and no other.\<close>

lemma unsubscribe_loop_distinct:
  assumes "distinct ls"
  shows "unsubscribe_loop l ls = remove_listener l ls"
proof (cases "index_of l ls")
  case None
  then have "fold (unsubscribe_cell l) [0..<length ls] (map Some ls, length ls) = (map Some ls, length ls)"
    by (intro unsubscribe_cells_id) auto
  moreover have "remove_listener l ls = ls" by (simp only: remove_listener_def None option.case)
  ultimately show ?thesis by (simp add: unsubscribe_loop_def comp_def)
next
  case (Some j)
  then have j: "j < length ls" "ls ! j = l" using index_of_SomeD by force+
  define n where "n = length ls - 1"
  let ?cells = "((map Some ls)[j := Some (ls ! n)])[n := None]"
  have n: "n < length ls" "length ls = Suc n" using j by (auto simp: n_def)
  have split: "[0..<length ls] = [0..<j] @ j # [Suc j..<length ls]"
    using j by (metis less_imp_le upt_add_eq_append upt_conv_Cons le_add_diff_inverse zero_le)
  have other: "ls ! i \<noteq> l" if "i < length ls" "i \<noteq> j" for i
    using assms j that nth_eq_iff_index_eq by blast
  have "fold (unsubscribe_cell l) [0..<j] (map Some ls, length ls) = (map Some ls, length ls)"
    using j other by (intro unsubscribe_cells_id) auto
  moreover have "unsubscribe_cell l j (map Some ls, length ls) = (?cells, n)"
    using j by (simp add: unsubscribe_cell_def n(2))
  moreover have "fold (unsubscribe_cell l) [Suc j..<length ls] (?cells, n) = (?cells, n)"
    using j other n by (intro unsubscribe_cells_id) (auto simp: nth_list_update)
  ultimately have "unsubscribe_loop l ls = map the (take n ?cells)"
    by (simp add: unsubscribe_loop_def split)
  also have "take n ?cells = map Some (take n (ls[j := ls ! n]))"
    by (simp flip: take_map add: map_update)
  also have "map the \<dots> = butlast (ls[j := ls ! n])"
    using n by (simp add: butlast_conv_take comp_def)
  finally show ?thesis
    using n by (simp add: remove_listener_def Some swap_remove_def last_conv_nth flip: length_greater_0_conv)
qed

section \<open>Runs of the watcher\<close>

datatype opw_op =
    OpwSubscribe k8s_api ServiceID nat
  | OpwUnsubscribe ServiceID nat
  | OpwAddService Service
  | OpwUpdateService Service Service
  | OpwDeleteService "Service informer_obj"

fun opw_step :: "OpaquePortsWatcher \<Rightarrow> opw_op \<Rightarrow> OpaquePortsWatcher \<times> port_calls" where
  "opw_step opw (OpwSubscribe api i l) = (case opw_Subscribe api opw i l of
     Inl _ \<Rightarrow> (opw, []) | Inr r \<Rightarrow> r)"
| "opw_step opw (OpwUnsubscribe i l) = (opw_Unsubscribe opw i l, [])"
| "opw_step opw (OpwAddService svc) = opw_addService opw svc"
| "opw_step opw (OpwUpdateService oldSvc newSvc) = opw_updateService opw oldSvc newSvc"
| "opw_step opw (OpwDeleteService obj) = opw_deleteService opw obj"

fun opw_run :: "OpaquePortsWatcher \<Rightarrow> opw_op list \<Rightarrow> OpaquePortsWatcher \<times> port_calls" where
  "opw_run opw [] = (opw, [])"
| "opw_run opw (op # ops) = (case opw_step opw op of (opw1, c1) \<Rightarrow>
     (case opw_run opw1 ops of (opw2, c2) \<Rightarrow> (opw2, c1 @ c2)))"

definition opw_listeners :: "OpaquePortsWatcher \<Rightarrow> ServiceID \<Rightarrow> nat list" where
  "opw_listeners opw i =
     (case fmlookup (opw_subscriptions opw) i of None \<Rightarrow> [] | Some ss \<Rightarrow> ss_listeners ss)"

text \<open>
  A listener belongs to one request: when it subscribes it is not a listener of any service.
\<close>

definition opw_new_listener :: "OpaquePortsWatcher \<Rightarrow> nat \<Rightarrow> bool" where
  "opw_new_listener opw l \<longleftrightarrow> (\<forall>i. l \<notin> set (opw_listeners opw i))"

fun opw_fresh :: "OpaquePortsWatcher \<Rightarrow> opw_op list \<Rightarrow> bool" where
  "opw_fresh opw [] = True"
| "opw_fresh opw (op # ops) =
     ((case op of OpwSubscribe api i l \<Rightarrow> opw_new_listener opw l | _ \<Rightarrow> True) \<and>
      opw_fresh (fst (opw_step opw op)) ops)"

text \<open>
  The invariant: no listener twice, neither in one service nor in two, and the gauge shows
  the number of listeners of every service that has any and of no other.
\<close>

definition opw_inv :: "OpaquePortsWatcher \<Rightarrow> bool" where
  "opw_inv opw \<longleftrightarrow>
     (\<forall>i. distinct (opw_listeners opw i)) \<and>
     (\<forall>i j l. l \<in> set (opw_listeners opw i) \<longrightarrow> l \<in> set (opw_listeners opw j) \<longrightarrow> i = j) \<and>
     (\<forall>i. fmlookup (opw_subscribersGauge opw) i =
        (if opw_listeners opw i = [] then None else Some (length (opw_listeners opw i))))"

text \<open>The listeners after each kind of change of the state.\<close>

lemma opw_listeners_put [simp]:
  "opw_listeners (opw_put i ss opw) = (opw_listeners opw)(i := ss_listeners ss)"
  by (auto simp: opw_listeners_def opw_put_def)

lemma opw_listeners_gauge [simp]: "opw_listeners (opw_gauge i n opw) = opw_listeners opw"
  by (auto simp: opw_listeners_def opw_gauge_def)

lemma opw_gauge_lookup [simp]:
  "fmlookup (opw_subscribersGauge (opw_gauge i n opw)) j =
     (if j = i then Some n else fmlookup (opw_subscribersGauge opw) j)"
  "opw_subscribersGauge (opw_put i ss opw) = opw_subscribersGauge opw"
  by (auto simp: opw_gauge_def opw_put_def)

lemma opw_listeners_lookup:
  "fmlookup (opw_subscriptions opw) i = Some ss \<Longrightarrow> opw_listeners opw i = ss_listeners ss"
  "fmlookup (opw_subscriptions opw) i = None \<Longrightarrow> opw_listeners opw i = []"
  by (simp_all add: opw_listeners_def)

lemma opw_listeners_Subscribe:
  "opw_Subscribe api opw i l = Inr (opw', calls) \<Longrightarrow>
     opw_listeners opw' = (opw_listeners opw)(i := opw_listeners opw i @ [l])"
  by (auto simp: opw_Subscribe_def Let_def opw_listeners_lookup split: if_splits option.splits)

definition opw_drop :: "ServiceID \<Rightarrow> OpaquePortsWatcher \<Rightarrow> OpaquePortsWatcher" where
  "opw_drop i opw = opw\<lparr>opw_subscribersGauge := fmdrop i (opw_subscribersGauge opw),
     opw_subscriptions := fmdrop i (opw_subscriptions opw)\<rparr>"

lemma opw_listeners_drop [simp]: "opw_listeners (opw_drop i opw) = (opw_listeners opw)(i := [])"
  by (auto simp: opw_listeners_def opw_drop_def)

lemma opw_Unsubscribe_distinct:
  assumes "distinct (opw_listeners opw i)"
  shows "opw_Unsubscribe opw i l = (case fmlookup (opw_subscriptions opw) i of
     None \<Rightarrow> opw
   | Some ss \<Rightarrow>
       let ls = remove_listener l (ss_listeners ss)
       in if ls = [] then opw_drop i opw
          else opw_gauge i (length ls) (opw_put i (ss\<lparr>ss_listeners := ls\<rparr>) opw))"
  using assms
  by (auto simp: opw_Unsubscribe_def opw_drop_def opw_listeners_def unsubscribe_loop_distinct Let_def
      split: option.splits)

lemma opw_listeners_Unsubscribe:
  assumes "distinct (opw_listeners opw i)"
  shows "opw_listeners (opw_Unsubscribe opw i l) =
    (opw_listeners opw)(i := remove_listener l (opw_listeners opw i))"
proof -
  have "remove_listener l [] = []" by (simp add: remove_listener_def)
  then show ?thesis
    by (auto simp: opw_Unsubscribe_distinct [OF assms] Let_def opw_listeners_lookup split: option.splits)
qed

lemma opw_listeners_addService: "opw_listeners (fst (opw_addService opw svc)) = opw_listeners opw"
  by (auto simp: opw_addService_def Let_def opw_listeners_lookup split: sum.splits option.splits)

lemma opw_listeners_deleteService: "opw_listeners (fst (opw_deleteService opw obj)) = opw_listeners opw"
  by (auto simp: opw_deleteService_def Let_def opw_listeners_lookup split: option.splits)

text \<open>The gauge after each kind of change of the state.\<close>

lemma opw_gauge_drop [simp]:
  "fmlookup (opw_subscribersGauge (opw_drop i opw)) j =
     (if j = i then None else fmlookup (opw_subscribersGauge opw) j)"
  by (simp add: opw_drop_def)

lemma opw_gauge_Subscribe:
  "opw_Subscribe api opw i l = Inr (opw', calls) \<Longrightarrow>
     fmlookup (opw_subscribersGauge opw') j =
       (if j = i then Some (length (opw_listeners opw i) + 1) else fmlookup (opw_subscribersGauge opw) j)"
  by (auto simp: opw_Subscribe_def Let_def opw_listeners_lookup split: if_splits option.splits)

lemma opw_gauge_service:
  "opw_subscribersGauge (fst (opw_addService opw svc)) = opw_subscribersGauge opw"
  "opw_subscribersGauge (fst (opw_deleteService opw obj)) = opw_subscribersGauge opw"
  by (auto simp: opw_addService_def opw_deleteService_def Let_def split: sum.splits option.splits)

section \<open>The invariant\<close>

lemma opw_inv_init: "opw_inv (NewOpaquePortsWatcher ports)"
  by (simp add: opw_inv_def NewOpaquePortsWatcher_def opw_listeners_def)

lemma opw_Subscribe_inv:
  assumes "opw_inv opw" "opw_new_listener opw l" "opw_Subscribe api opw i l = Inr (opw', calls)"
  shows "opw_inv opw'"
  using assms(1,2)
  by (auto simp: opw_inv_def opw_new_listener_def opw_listeners_Subscribe [OF assms(3)]
      opw_gauge_Subscribe [OF assms(3)])

lemma opw_Unsubscribe_inv:
  assumes "opw_inv opw"
  shows "opw_inv (opw_Unsubscribe opw i l)"
proof -
  have d: "distinct (opw_listeners opw i)" using assms by (simp add: opw_inv_def)
  let ?ls = "remove_listener l (opw_listeners opw i)"
  have "fmlookup (opw_subscribersGauge (opw_Unsubscribe opw i l)) j =
      (if j = i then if ?ls = [] then None else Some (length ?ls)
       else fmlookup (opw_subscribersGauge opw) j)" for j
    using assms
    by (auto simp: opw_Unsubscribe_distinct [OF d] Let_def opw_listeners_lookup opw_inv_def
        remove_listener_def [of l "[]"] split: option.splits)
  with assms show ?thesis
    by (auto simp: opw_inv_def opw_listeners_Unsubscribe [OF d] set_remove_listener_distinct
        distinct_remove_listener)
qed

lemma opw_step_inv:
  assumes "opw_inv opw" and "case op of OpwSubscribe api i l \<Rightarrow> opw_new_listener opw l | _ \<Rightarrow> True"
  shows "opw_inv (fst (opw_step opw op))"
proof (cases op)
  case (OpwSubscribe api i l)
  with assms opw_Subscribe_inv show ?thesis by (cases "opw_Subscribe api opw i l") auto
next
  case (OpwUnsubscribe i l)
  with assms show ?thesis by (simp add: opw_Unsubscribe_inv)
qed (use assms(1) in \<open>simp_all add: opw_inv_def opw_updateService_def opw_listeners_addService
  opw_listeners_deleteService opw_gauge_service\<close>)

lemma opw_run_Cons: "fst (opw_run opw (op # ops)) = fst (opw_run (fst (opw_step opw op)) ops)"
  "snd (opw_run opw (op # ops)) = snd (opw_step opw op) @ snd (opw_run (fst (opw_step opw op)) ops)"
  by (simp_all split: prod.split)

lemma opw_run_inv: "opw_inv opw \<Longrightarrow> opw_fresh opw ops \<Longrightarrow> opw_inv (fst (opw_run opw ops))"
  by (induction ops arbitrary: opw) (auto simp: opw_run_Cons opw_step_inv simp del: opw_run.simps(2))

text \<open>
  C31. In every state the watcher reaches, no listener is registered twice, and the gauge shows
  for each service the number of its listeners, and nothing for a service without any, even
  though the unsubscribe loop walks over a slice it shortens.
\<close>

theorem opaque_ports_watcher_invariant:
  assumes "opw_fresh (NewOpaquePortsWatcher ports) ops"
    and "opw_run (NewOpaquePortsWatcher ports) ops = (opw, calls)"
  shows "distinct (opw_listeners opw i) \<and>
    fmlookup (opw_subscribersGauge opw) i =
      (if opw_listeners opw i = [] then None else Some (length (opw_listeners opw i))) \<and>
    (l \<in> set (opw_listeners opw i) \<longrightarrow> l \<in> set (opw_listeners opw j) \<longrightarrow> i = j)"
  using opw_run_inv [OF opw_inv_init assms(1)] assms(2) by (simp add: opw_inv_def)

theorem opaque_ports_watcher_invariant_witness:
  "fmlookup (opw_subscribersGauge (fst (opw_run (NewOpaquePortsWatcher {||})
     [OpwAddService sample_service, OpwSubscribe sample_api (svc_ID sample_service) 7]))) (svc_ID sample_service) = Some 1"
proof -
  let ?ops = "[OpwAddService sample_service, OpwSubscribe sample_api (svc_ID sample_service) 7]"
  obtain opw calls where run: "opw_run (NewOpaquePortsWatcher {||}) ?ops = (opw, calls)" by force
  have fresh: "opw_fresh (NewOpaquePortsWatcher {||}) ?ops"
    by (simp add: opw_new_listener_def opw_listeners_addService) (simp add: opw_listeners_def NewOpaquePortsWatcher_def)
  have "opw_listeners opw (svc_ID sample_service) = [7]"
    using arg_cong [OF run, of fst]
    by (auto simp: opw_addService_def NewOpaquePortsWatcher_def getServiceOpaquePortsAnnotation_def opw_Subscribe_def
        svc_ID_def sample_service_def opw_put_def opw_gauge_def opw_listeners_def Let_def)
  with opaque_ports_watcher_invariant [OF fresh run, of "svc_ID sample_service"] show ?thesis
    unfolding run fst_conv by simp
qed

section \<open>What the listeners hear\<close>

text \<open>
  The ports a service has after an informer event, from the ports it had: those of its
  annotation, the default ports without one or when the service is deleted, and the old
  ones if the annotation is rejected.
\<close>

definition annotated_ports :: "uint32 fset \<Rightarrow> ServiceID \<Rightarrow> uint32 fset \<Rightarrow> Service \<Rightarrow> uint32 fset" where
  "annotated_ports d i cur svc =
     (if svc_ID svc = i
      then (case getServiceOpaquePortsAnnotation svc of
          Inl _ \<Rightarrow> cur | Inr None \<Rightarrow> d | Inr (Some ports) \<Rightarrow> ports)
      else cur)"

fun service_ports :: "uint32 fset \<Rightarrow> ServiceID \<Rightarrow> uint32 fset \<Rightarrow> opw_op \<Rightarrow> uint32 fset" where
  "service_ports d i cur (OpwAddService svc) = annotated_ports d i cur svc"
| "service_ports d i cur (OpwUpdateService oldSvc newSvc) = annotated_ports d i cur newSvc"
| "service_ports d i cur (OpwDeleteService obj) =
     (case informer_object obj of None \<Rightarrow> cur | Some svc \<Rightarrow> if svc_ID svc = i then d else cur)"
| "service_ports d i cur _ = cur"

definition ports_heard :: "uint32 fset \<Rightarrow> uint32 fset list \<Rightarrow> uint32 fset \<Rightarrow> bool" where
  "ports_heard before heard after \<longleftrightarrow> heard = [] \<and> after = before \<or> heard = [after]"

lemma opw_default_step [simp]: "opw_defaultOpaquePorts (fst (opw_step opw op)) = opw_defaultOpaquePorts opw"
  by (cases op)
     (auto simp: opw_Subscribe_def opw_Unsubscribe_def opw_addService_def opw_updateService_def
       opw_deleteService_def opw_put_def opw_gauge_def Let_def split: sum.splits option.splits if_splits)

lemma opw_lookup_put [simp]:
  "fmlookup (opw_subscriptions (opw_put i ss opw)) j =
     (if j = i then Some ss else fmlookup (opw_subscriptions opw) j)"
  "opw_subscriptions (opw_gauge i n opw) = opw_subscriptions opw"
  "fmlookup (opw_subscriptions (opw_drop i opw)) j =
     (if j = i then None else fmlookup (opw_subscriptions opw) j)"
  by (simp_all add: opw_put_def opw_gauge_def opw_drop_def)

lemma opw_service_heard:
  assumes inv: "opw_inv opw" and ss: "fmlookup (opw_subscriptions opw) i = Some ss"
    and l: "l \<in> set (ss_listeners ss)"
  shows "\<exists>ss'. fmlookup (opw_subscriptions (fst (opw_addService opw svc))) i = Some ss' \<and>
      opaquePorts ss' = service_ports (opw_defaultOpaquePorts opw) i (opaquePorts ss) (OpwAddService svc) \<and>
      ports_heard (opaquePorts ss) (calls_for l (snd (opw_addService opw svc))) (opaquePorts ss')"
    and "\<exists>ss'. fmlookup (opw_subscriptions (fst (opw_deleteService opw obj))) i = Some ss' \<and>
      opaquePorts ss' = service_ports (opw_defaultOpaquePorts opw) i (opaquePorts ss) (OpwDeleteService obj) \<and>
      ports_heard (opaquePorts ss) (calls_for l (snd (opw_deleteService opw obj))) (opaquePorts ss')"
proof -
  have dist: "distinct (ss_listeners tt)" if "fmlookup (opw_subscriptions opw) j = Some tt" for j tt
    using inv opw_listeners_lookup(1) [OF that] by (metis opw_inv_def)
  have other: "l \<notin> set (ss_listeners tt)" if "fmlookup (opw_subscriptions opw) j = Some tt" "j \<noteq> i" for j tt
    using inv l opw_listeners_lookup(1) [OF that(1)] opw_listeners_lookup(1) [OF ss] that(2)
    by (metis opw_inv_def)
  show "\<exists>ss'. fmlookup (opw_subscriptions (fst (opw_addService opw svc))) i = Some ss' \<and>
      opaquePorts ss' = service_ports (opw_defaultOpaquePorts opw) i (opaquePorts ss) (OpwAddService svc) \<and>
      ports_heard (opaquePorts ss) (calls_for l (snd (opw_addService opw svc))) (opaquePorts ss')"
    using ss l other dist
    by (cases "svc_ID svc = i")
       (auto simp: opw_addService_def annotated_ports_def ports_heard_def Let_def calls_for_broadcast
         split: sum.splits option.splits)
  show "\<exists>ss'. fmlookup (opw_subscriptions (fst (opw_deleteService opw obj))) i = Some ss' \<and>
      opaquePorts ss' = service_ports (opw_defaultOpaquePorts opw) i (opaquePorts ss) (OpwDeleteService obj) \<and>
      ports_heard (opaquePorts ss) (calls_for l (snd (opw_deleteService opw obj))) (opaquePorts ss')"
    using ss l other dist
    by (auto simp: opw_deleteService_def ports_heard_def Let_def calls_for_broadcast
         split: option.splits)
qed

lemma opw_step_heard:
  assumes inv: "opw_inv opw" and ss: "fmlookup (opw_subscriptions opw) i = Some ss"
    and l: "l \<in> set (ss_listeners ss)" and stays: "op \<noteq> OpwUnsubscribe i l"
    and fresh: "case op of OpwSubscribe api j k \<Rightarrow> opw_new_listener opw k | _ \<Rightarrow> True"
  shows "\<exists>ss'. fmlookup (opw_subscriptions (fst (opw_step opw op))) i = Some ss' \<and>
      l \<in> set (ss_listeners ss') \<and>
      opaquePorts ss' = service_ports (opw_defaultOpaquePorts opw) i (opaquePorts ss) op \<and>
      ports_heard (opaquePorts ss) (calls_for l (snd (opw_step opw op))) (opaquePorts ss')"
proof -
  have li: "l \<in> set (opw_listeners opw i)" using l by (simp add: opw_listeners_lookup(1) [OF ss])
  have dist: "distinct (opw_listeners opw j)" for j using inv by (simp add: opw_inv_def)
  have keep: "l \<in> set (opw_listeners (fst (opw_step opw op)) i)"
  proof (cases op)
    case (OpwSubscribe api j k)
    with li show ?thesis
      by (cases "opw_Subscribe api opw j k") (auto simp: opw_listeners_Subscribe)
  next
    case (OpwUnsubscribe j k)
    with li stays show ?thesis
      by (auto simp: opw_listeners_Unsubscribe [OF dist] set_remove_listener_distinct [OF dist])
  qed (use li in \<open>simp_all add: opw_updateService_def opw_listeners_addService opw_listeners_deleteService\<close>)
  have "\<exists>ss'. fmlookup (opw_subscriptions (fst (opw_step opw op))) i = Some ss' \<and>
      opaquePorts ss' = service_ports (opw_defaultOpaquePorts opw) i (opaquePorts ss) op \<and>
      ports_heard (opaquePorts ss) (calls_for l (snd (opw_step opw op))) (opaquePorts ss')"
  proof (cases op)
    case (OpwSubscribe api j k)
    with fresh li have "k \<noteq> l" by (auto simp: opw_new_listener_def)
    with OpwSubscribe ss show ?thesis
      by (auto simp: opw_Subscribe_def ports_heard_def Let_def split: option.splits sum.splits)
  next
    case (OpwUnsubscribe j k)
    with keep ss show ?thesis
      by (auto simp: opw_Unsubscribe_distinct [OF dist] ports_heard_def Let_def split: option.splits if_splits)
  qed (use opw_service_heard [OF inv ss l] in \<open>simp_all add: opw_updateService_def\<close>)
  with keep show ?thesis by (auto simp: opw_listeners_lookup)
qed

text \<open>
  The contract of an \<open>OpaquePortsUpdateListener\<close>: after a call it has the ports it was given.
\<close>

locale ports_listener =
  fixes on_ports :: "'s \<Rightarrow> uint32 fset \<Rightarrow> 's"
    and ports_of :: "'s \<Rightarrow> uint32 fset"
  assumes ports_of_on_ports: "ports_of (on_ports s ports) = ports"
begin

lemma heard_ports:
  "ports_heard before heard after \<Longrightarrow> ports_of s = before \<Longrightarrow> ports_of (foldl on_ports s heard) = after"
  by (auto simp: ports_heard_def ports_of_on_ports)

lemma ports_of_foldl: "ports_of (foldl on_ports s pss) = foldl (\<lambda>_ ps. ps) (ports_of s) pss"
  by (induction pss arbitrary: s) (simp_all add: ports_of_on_ports)

lemma run_ports:
  assumes "opw_inv opw" and "opw_fresh opw ops" and "OpwUnsubscribe i l \<notin> set ops"
    and "fmlookup (opw_subscriptions opw) i = Some ss" and "l \<in> set (ss_listeners ss)"
    and "ports_of s = opaquePorts ss"
  shows "\<exists>ss'. fmlookup (opw_subscriptions (fst (opw_run opw ops))) i = Some ss' \<and>
    opaquePorts ss' = foldl (service_ports (opw_defaultOpaquePorts opw) i) (opaquePorts ss) ops \<and>
    ports_of (foldl on_ports s (calls_for l (snd (opw_run opw ops)))) = opaquePorts ss'"
  using assms
proof (induction ops arbitrary: opw ss s)
  case (Cons op ops)
  let ?opw = "fst (opw_step opw op)" and ?heard = "calls_for l (snd (opw_step opw op))"
  have step: "case op of OpwSubscribe api j k \<Rightarrow> opw_new_listener opw k | _ \<Rightarrow> True" "opw_fresh ?opw ops"
    "op \<noteq> OpwUnsubscribe i l" "OpwUnsubscribe i l \<notin> set ops"
    using Cons.prems(2,3) by auto
  obtain ss' where ss': "fmlookup (opw_subscriptions ?opw) i = Some ss'" "l \<in> set (ss_listeners ss')"
    "opaquePorts ss' = service_ports (opw_defaultOpaquePorts opw) i (opaquePorts ss) op"
    "ports_heard (opaquePorts ss) ?heard (opaquePorts ss')"
    using opw_step_heard [OF Cons.prems(1,4,5) step(3,1)] by blast
  have "ports_of (foldl on_ports s ?heard) = opaquePorts ss'"
    using heard_ports [OF ss'(4)] Cons.prems(6) by simp
  from Cons.IH [OF opw_step_inv [OF Cons.prems(1) step(1)] step(2,4) ss'(1,2) this]
  show ?case by (simp add: opw_run_Cons ss'(3) del: opw_run.simps(2))
qed simp

text \<open>A listener that subscribes to a service the watcher knows follows its ports.\<close>

lemma subscribe_run_ports:
  assumes inv: "opw_inv opw" and fresh: "opw_fresh opw (OpwSubscribe api i l # ops)"
    and stays: "OpwUnsubscribe i l \<notin> set ops"
    and known: "fmlookup (opw_subscriptions opw) i = Some ss"
    and ok: "opw_Subscribe api opw i l = Inr (opw1, calls)"
  shows "\<exists>ss'. fmlookup (opw_subscriptions (fst (opw_run opw (OpwSubscribe api i l # ops)))) i = Some ss' \<and>
    opaquePorts ss' = foldl (service_ports (opw_defaultOpaquePorts opw) i) (opaquePorts ss) ops \<and>
    ports_of (foldl on_ports s (calls_for l (snd (opw_run opw (OpwSubscribe api i l # ops))))) = opaquePorts ss'"
proof -
  have step: "opw_step opw (OpwSubscribe api i l) = (opw1, calls)" by (simp add: ok)
  have ss1: "fmlookup (opw_subscriptions opw1) i = Some (ss\<lparr>ss_listeners := ss_listeners ss @ [l]\<rparr>)"
    "calls = [(l, opaquePorts ss)]"
    using ok known by (auto simp: opw_Subscribe_def Let_def split: if_splits)
  have inv1: "opw_inv opw1" and fresh1: "opw_fresh opw1 ops"
    using opw_step_inv [OF inv, of "OpwSubscribe api i l"] fresh by (simp_all add: ok)
  have d: "opw_defaultOpaquePorts opw1 = opw_defaultOpaquePorts opw"
    using opw_default_step [of opw "OpwSubscribe api i l"] by (simp add: ok)
  from run_ports [OF inv1 fresh1 stays ss1(1), of "on_ports s (opaquePorts ss)"] show ?thesis
    by (simp add: opw_run_Cons step ss1(2) ports_of_on_ports d del: opw_run.simps(2) opw_step.simps)
qed

end

end
