(* ===== verification/Profile_Matches.thy ===== *)
theory Profile_Matches
  imports Go_Prelude
begin

text \<open>
  Request and response matches of a service profile: the resource's types
  (\<open>controller/gen/apis/serviceprofile/v1alpha2/types.go\<close>), their validation
  (\<open>pkg/profiles/profiles.go\<close>) and their translation to the proxy API
  (\<open>toRequestMatch\<close>, \<open>toResponseMatch\<close> in \<open>profile_translator.go\<close>).

  A slice of matches may be nil, and each entry is a pointer that may be nil. A result is
  \<open>None\<close> for a panic (a nil pointer dereferenced), \<open>Some (Inl e)\<close> for an error and
  \<open>Some (Inr x)\<close> for a value. The table of registered HTTP methods belongs to the generated
  proxy API; it is the parameter \<open>methods\<close>.
\<close>

section \<open>Results\<close>

type_synonym ('e, 'a) go_result = "('e + 'a) option"

abbreviation go_ok :: "'a \<Rightarrow> ('e, 'a) go_result" where
  "go_ok x \<equiv> Some (Inr x)"

abbreviation go_err :: "'e \<Rightarrow> ('e, 'a) go_result" where
  "go_err e \<equiv> Some (Inl e)"

definition go_bind :: "('e, 'a) go_result \<Rightarrow> ('a \<Rightarrow> ('e, 'b) go_result) \<Rightarrow> ('e, 'b) go_result" where
  "go_bind m f = (case m of None \<Rightarrow> None | Some (Inl e) \<Rightarrow> Some (Inl e) | Some (Inr x) \<Rightarrow> f x)"

lemma go_bind_simps [simp]:
  "go_bind None f = None" "go_bind (go_err e) f = go_err e" "go_bind (go_ok x) f = f x"
  by (simp_all add: go_bind_def)

lemma go_bind_ok_iff [simp]:
  "go_bind m f = go_ok y \<longleftrightarrow> (\<exists>x. m = go_ok x \<and> f x = go_ok y)"
  by (auto simp: go_bind_def split: option.splits sum.splits)

lemma go_bind_cong [fundef_cong]:
  "m = m' \<Longrightarrow> (\<And>x. m' = go_ok x \<Longrightarrow> f x = f' x) \<Longrightarrow> go_bind m f = go_bind m' f'"
  by (auto simp: go_bind_def split: option.splits sum.splits)

section \<open>Types\<close>

datatype RequestMatch = RequestMatch
  (rq_All: "RequestMatch option list option") (rq_Not: "RequestMatch option")
  (rq_Any: "RequestMatch option list option") (rq_PathRegex: string) (rq_Method: string)

record Range =
  Min :: uint32
  Max :: uint32

datatype ResponseMatch = ResponseMatch
  (rs_All: "ResponseMatch option list option") (rs_Not: "ResponseMatch option")
  (rs_Any: "ResponseMatch option list option") (rs_Status: "Range option")

datatype HttpMethod = Registered int | Unregistered string

datatype pb_RequestMatch =
    ReqAll "pb_RequestMatch list" | ReqAny "pb_RequestMatch list" | ReqNot pb_RequestMatch
  | ReqPath string | ReqMethod HttpMethod

datatype pb_ResponseMatch =
    RspAll "pb_ResponseMatch list" | RspAny "pb_ResponseMatch list" | RspNot pb_ResponseMatch
  | RspStatus uint32 uint32

datatype profile_error =
    MissingRequestMatch | RequestMatchField | MissingResponseMatch | ResponseMatchField
  | RangeMinimum | RangeMaximum | RangeOrder | InvalidDuration string

section \<open>Validation\<close>

definition minStatus :: uint32 where
  "minStatus = 100"

definition maxStatus :: uint32 where
  "maxStatus = 599"

fun ValidateRequestMatch :: "RequestMatch \<Rightarrow> (profile_error, unit) go_result"
and validate_request_list :: "RequestMatch option list \<Rightarrow> (profile_error, unit) go_result" where
  "ValidateRequestMatch (RequestMatch all nt any pathRegex meth) =
     go_bind (case all of None \<Rightarrow> go_ok () | Some ms \<Rightarrow> validate_request_list ms) (\<lambda>_.
     go_bind (case any of None \<Rightarrow> go_ok () | Some ms \<Rightarrow> validate_request_list ms) (\<lambda>_.
     go_bind (case nt of None \<Rightarrow> go_ok () | Some m \<Rightarrow> ValidateRequestMatch m) (\<lambda>_.
     if all = None \<and> any = None \<and> meth = [] \<and> nt = None \<and> pathRegex = []
     then go_err RequestMatchField else go_ok ())))"
| "validate_request_list [] = go_ok ()"
| "validate_request_list (child # ms) = (case child of
     None \<Rightarrow> None
   | Some m \<Rightarrow> go_bind (ValidateRequestMatch m) (\<lambda>_. validate_request_list ms))"

definition validate_status :: "Range \<Rightarrow> (profile_error, unit) go_result" where
  "validate_status r =
     (if Min r \<noteq> 0 \<and> (Min r < minStatus \<or> maxStatus < Min r) then go_err RangeMinimum
      else if Max r \<noteq> 0 \<and> (Max r < minStatus \<or> maxStatus < Max r) then go_err RangeMaximum
      else if Max r \<noteq> 0 \<and> Min r \<noteq> 0 \<and> Max r < Min r then go_err RangeOrder
      else go_ok ())"

fun ValidateResponseMatch :: "ResponseMatch \<Rightarrow> (profile_error, unit) go_result"
and validate_response_list :: "ResponseMatch option list \<Rightarrow> (profile_error, unit) go_result" where
  "ValidateResponseMatch (ResponseMatch all nt any status) =
     go_bind (case all of None \<Rightarrow> go_ok () | Some ms \<Rightarrow> validate_response_list ms) (\<lambda>_.
     go_bind (case any of None \<Rightarrow> go_ok () | Some ms \<Rightarrow> validate_response_list ms) (\<lambda>_.
     go_bind (case status of None \<Rightarrow> go_ok () | Some r \<Rightarrow> validate_status r) (\<lambda>_.
     go_bind (case nt of None \<Rightarrow> go_ok () | Some m \<Rightarrow> ValidateResponseMatch m) (\<lambda>_.
     if all = None \<and> any = None \<and> status = None \<and> nt = None
     then go_err ResponseMatchField else go_ok ()))))"
| "validate_response_list [] = go_ok ()"
| "validate_response_list (child # ms) = (case child of
     None \<Rightarrow> None
   | Some m \<Rightarrow> go_bind (ValidateResponseMatch m) (\<lambda>_. validate_response_list ms))"

section \<open>Translation\<close>

definition to_upper_char :: "char \<Rightarrow> char" where
  "to_upper_char c =
     (if 97 \<le> (of_char c :: nat) \<and> (of_char c :: nat) \<le> 122 then char_of ((of_char c :: nat) - 32) else c)"

definition ParseMethod :: "(string \<Rightarrow> int option) \<Rightarrow> string \<Rightarrow> HttpMethod" where
  "ParseMethod methods meth = (case methods (map to_upper_char meth) of
     Some v \<Rightarrow> Registered v
   | None \<Rightarrow> Unregistered (map to_upper_char meth))"

text \<open>The end of both translations: no match, one match, or the conjunction of several.\<close>

fun combine_request :: "pb_RequestMatch list \<Rightarrow> (profile_error, pb_RequestMatch) go_result" where
  "combine_request [] = go_err RequestMatchField"
| "combine_request [m] = go_ok m"
| "combine_request ms = go_ok (ReqAll ms)"

fun combine_response :: "pb_ResponseMatch list \<Rightarrow> (profile_error, pb_ResponseMatch) go_result" where
  "combine_response [] = go_err ResponseMatchField"
| "combine_response [m] = go_ok m"
| "combine_response ms = go_ok (RspAll ms)"

fun toRequestMatch ::
    "(string \<Rightarrow> int option) \<Rightarrow> RequestMatch option \<Rightarrow> (profile_error, pb_RequestMatch) go_result"
and to_request_list ::
    "(string \<Rightarrow> int option) \<Rightarrow> RequestMatch option list \<Rightarrow> (profile_error, pb_RequestMatch list) go_result" where
  "toRequestMatch methods None = go_err MissingRequestMatch"
| "toRequestMatch methods (Some (RequestMatch all nt any pathRegex meth)) =
     go_bind (ValidateRequestMatch (RequestMatch all nt any pathRegex meth)) (\<lambda>_.
     go_bind (case all of None \<Rightarrow> go_ok []
       | Some ms \<Rightarrow> go_bind (to_request_list methods ms) (\<lambda>l. go_ok [ReqAll l])) (\<lambda>m1.
     go_bind (case any of None \<Rightarrow> go_ok []
       | Some ms \<Rightarrow> go_bind (to_request_list methods ms) (\<lambda>l. go_ok [ReqAny l])) (\<lambda>m2.
     go_bind (go_ok (if meth \<noteq> [] then [ReqMethod (ParseMethod methods meth)] else [])) (\<lambda>m3.
     go_bind (case nt of None \<Rightarrow> go_ok []
       | Some m \<Rightarrow> go_bind (toRequestMatch methods (Some m)) (\<lambda>x. go_ok [ReqNot x])) (\<lambda>m4.
     combine_request (m1 @ m2 @ m3 @ m4 @ (if pathRegex \<noteq> [] then [ReqPath pathRegex] else [])))))))"
| "to_request_list methods [] = go_ok []"
| "to_request_list methods (m # ms) =
     go_bind (toRequestMatch methods m) (\<lambda>x.
     go_bind (to_request_list methods ms) (\<lambda>xs. go_ok (x # xs)))"

fun toResponseMatch :: "ResponseMatch option \<Rightarrow> (profile_error, pb_ResponseMatch) go_result"
and to_response_list :: "ResponseMatch option list \<Rightarrow> (profile_error, pb_ResponseMatch list) go_result" where
  "toResponseMatch None = go_err MissingResponseMatch"
| "toResponseMatch (Some (ResponseMatch all nt any status)) =
     go_bind (ValidateResponseMatch (ResponseMatch all nt any status)) (\<lambda>_.
     go_bind (case all of None \<Rightarrow> go_ok []
       | Some ms \<Rightarrow> go_bind (to_response_list ms) (\<lambda>l. go_ok [RspAll l])) (\<lambda>m1.
     go_bind (case any of None \<Rightarrow> go_ok []
       | Some ms \<Rightarrow> go_bind (to_response_list ms) (\<lambda>l. go_ok [RspAny l])) (\<lambda>m2.
     go_bind (go_ok (case status of None \<Rightarrow> [] | Some r \<Rightarrow> [RspStatus (Min r) (Max r)])) (\<lambda>m3.
     go_bind (case nt of None \<Rightarrow> go_ok []
       | Some m \<Rightarrow> go_bind (toResponseMatch (Some m)) (\<lambda>x. go_ok [RspNot x])) (\<lambda>m4.
     combine_response (m1 @ m2 @ m3 @ m4))))))"
| "to_response_list [] = go_ok []"
| "to_response_list (m # ms) =
     go_bind (toResponseMatch m) (\<lambda>x.
     go_bind (to_response_list ms) (\<lambda>xs. go_ok (x # xs)))"

section \<open>Meaning of a match\<close>

text \<open>
  A match of a profile means the conjunction of its fields; an empty \<open>All\<close> always holds, an
  empty \<open>Any\<close> never. \<open>path\<close> says which regular expressions the request's path matches, \<open>hm\<close>
  is its verb; \<open>status\<close> says which status ranges hold of the response.
\<close>

fun request_holds :: "(string \<Rightarrow> int option) \<Rightarrow> (string \<Rightarrow> bool) \<Rightarrow> HttpMethod \<Rightarrow> RequestMatch \<Rightarrow> bool"
and request_list :: "(string \<Rightarrow> int option) \<Rightarrow> (string \<Rightarrow> bool) \<Rightarrow> HttpMethod \<Rightarrow> RequestMatch option list \<Rightarrow> bool list" where
  "request_holds methods path hm (RequestMatch all nt any pathRegex meth) \<longleftrightarrow>
     (case all of None \<Rightarrow> True | Some ms \<Rightarrow> list_all (\<lambda>b. b) (request_list methods path hm ms)) \<and>
     (case any of None \<Rightarrow> True | Some ms \<Rightarrow> list_ex (\<lambda>b. b) (request_list methods path hm ms)) \<and>
     (meth \<noteq> [] \<longrightarrow> hm = ParseMethod methods meth) \<and>
     (case nt of None \<Rightarrow> True | Some m \<Rightarrow> \<not> request_holds methods path hm m) \<and>
     (pathRegex \<noteq> [] \<longrightarrow> path pathRegex)"
| "request_list methods path hm [] = []"
| "request_list methods path hm (m # ms) =
     (case m of None \<Rightarrow> False | Some m \<Rightarrow> request_holds methods path hm m) # request_list methods path hm ms"

fun response_holds :: "(uint32 \<Rightarrow> uint32 \<Rightarrow> bool) \<Rightarrow> ResponseMatch \<Rightarrow> bool"
and response_list :: "(uint32 \<Rightarrow> uint32 \<Rightarrow> bool) \<Rightarrow> ResponseMatch option list \<Rightarrow> bool list" where
  "response_holds status (ResponseMatch all nt any st) \<longleftrightarrow>
     (case all of None \<Rightarrow> True | Some ms \<Rightarrow> list_all (\<lambda>b. b) (response_list status ms)) \<and>
     (case any of None \<Rightarrow> True | Some ms \<Rightarrow> list_ex (\<lambda>b. b) (response_list status ms)) \<and>
     (case st of None \<Rightarrow> True | Some r \<Rightarrow> status (Min r) (Max r)) \<and>
     (case nt of None \<Rightarrow> True | Some m \<Rightarrow> \<not> response_holds status m)"
| "response_list status [] = []"
| "response_list status (m # ms) =
     (case m of None \<Rightarrow> False | Some m \<Rightarrow> response_holds status m) # response_list status ms"

primrec pb_request_holds :: "(string \<Rightarrow> bool) \<Rightarrow> HttpMethod \<Rightarrow> pb_RequestMatch \<Rightarrow> bool" where
  "pb_request_holds path hm (ReqAll ms) = list_all (\<lambda>b. b) (map (pb_request_holds path hm) ms)"
| "pb_request_holds path hm (ReqAny ms) = list_ex (\<lambda>b. b) (map (pb_request_holds path hm) ms)"
| "pb_request_holds path hm (ReqNot m) = (\<not> pb_request_holds path hm m)"
| "pb_request_holds path hm (ReqPath r) = path r"
| "pb_request_holds path hm (ReqMethod m) = (hm = m)"

primrec pb_response_holds :: "(uint32 \<Rightarrow> uint32 \<Rightarrow> bool) \<Rightarrow> pb_ResponseMatch \<Rightarrow> bool" where
  "pb_response_holds status (RspAll ms) = list_all (\<lambda>b. b) (map (pb_response_holds status) ms)"
| "pb_response_holds status (RspAny ms) = list_ex (\<lambda>b. b) (map (pb_response_holds status) ms)"
| "pb_response_holds status (RspNot m) = (\<not> pb_response_holds status m)"
| "pb_response_holds status (RspStatus lo hi) = status lo hi"

lemma combine_request_holds:
  "ms \<noteq> [] \<Longrightarrow> \<exists>x. combine_request ms = go_ok x \<and>
     (\<forall>path hm. pb_request_holds path hm x \<longleftrightarrow> list_all (pb_request_holds path hm) ms)"
  by (cases ms rule: combine_request.cases) (auto simp: list_all_iff)

lemma combine_response_holds:
  "ms \<noteq> [] \<Longrightarrow> \<exists>x. combine_response ms = go_ok x \<and>
     (\<forall>status. pb_response_holds status x \<longleftrightarrow> list_all (pb_response_holds status) ms)"
  by (cases ms rule: combine_response.cases) (auto simp: list_all_iff)

text \<open>One optional field of a match, translated to at most one match of the proxy API.\<close>

lemma translate_field:
  assumes "\<And>v. fld = Some v \<Longrightarrow> \<exists>y. tr v = go_ok y \<and> (\<forall>r. sem r (con y) \<longleftrightarrow> Q r v)"
  obtains ms where "(case fld of None \<Rightarrow> go_ok [] | Some v \<Rightarrow> go_bind (tr v) (\<lambda>y. go_ok [con y])) = go_ok ms"
    and "ms = [] \<longleftrightarrow> fld = None"
    and "\<forall>r. list_all (sem r) ms \<longleftrightarrow> (case fld of None \<Rightarrow> True | Some v \<Rightarrow> Q r v)"
proof (cases fld)
  case None
  then show ?thesis by (intro that [of "[]"]) auto
next
  case (Some v)
  with assms obtain y where "tr v = go_ok y" "\<forall>r. sem r (con y) \<longleftrightarrow> Q r v" by blast
  with Some show ?thesis by (intro that [of "[con y]"]) auto
qed

lemma to_request_list_holds:
  "ValidateRequestMatch m = go_ok () \<Longrightarrow>
     \<exists>x. toRequestMatch methods (Some m) = go_ok x \<and>
       (\<forall>r. pb_request_holds (fst r) (snd r) x \<longleftrightarrow> request_holds methods (fst r) (snd r) m)"
  "validate_request_list ms = go_ok () \<Longrightarrow>
     \<exists>xs. to_request_list methods ms = go_ok xs \<and>
       (\<forall>r. map (pb_request_holds (fst r) (snd r)) xs = request_list methods (fst r) (snd r) ms)"
proof (induction m and ms rule: ValidateRequestMatch_validate_request_list.induct)
  case (1 all nt any pathRegex meth)
  let ?m = "RequestMatch all nt any pathRegex meth"
  let ?pb = "\<lambda>r. pb_request_holds (fst r) (snd r)" and ?rl = "\<lambda>r. request_list methods (fst r) (snd r)"
  have v: "(case all of None \<Rightarrow> go_ok () | Some ms \<Rightarrow> validate_request_list ms) = go_ok ()"
    "(case any of None \<Rightarrow> go_ok () | Some ms \<Rightarrow> validate_request_list ms) = go_ok ()"
    "(case nt of None \<Rightarrow> go_ok () | Some m \<Rightarrow> ValidateRequestMatch m) = go_ok ()"
    "\<not> (all = None \<and> any = None \<and> meth = [] \<and> nt = None \<and> pathRegex = [])"
    using "1.prems" by (simp_all split: if_splits)
  obtain m1 where m1: "(case all of None \<Rightarrow> go_ok []
       | Some ms \<Rightarrow> go_bind (to_request_list methods ms) (\<lambda>l. go_ok [ReqAll l])) = go_ok m1"
    "m1 = [] \<longleftrightarrow> all = None"
    "\<forall>r. list_all (?pb r) m1 \<longleftrightarrow> (case all of None \<Rightarrow> True | Some ms \<Rightarrow> list_all (\<lambda>b. b) (?rl r ms))"
    by (rule translate_field [of all "to_request_list methods" ?pb ReqAll "\<lambda>r ms. list_all (\<lambda>b. b) (?rl r ms)"])
       (use "1.IH"(1) v(1) in fastforce)+
  obtain m2 where m2: "(case any of None \<Rightarrow> go_ok []
       | Some ms \<Rightarrow> go_bind (to_request_list methods ms) (\<lambda>l. go_ok [ReqAny l])) = go_ok m2"
    "m2 = [] \<longleftrightarrow> any = None"
    "\<forall>r. list_all (?pb r) m2 \<longleftrightarrow> (case any of None \<Rightarrow> True | Some ms \<Rightarrow> list_ex (\<lambda>b. b) (?rl r ms))"
    by (rule translate_field [of any "to_request_list methods" ?pb ReqAny "\<lambda>r ms. list_ex (\<lambda>b. b) (?rl r ms)"])
       (use "1.IH"(2) [OF v(1)] v(2) in fastforce)+
  obtain m4 where m4: "(case nt of None \<Rightarrow> go_ok []
       | Some m \<Rightarrow> go_bind (toRequestMatch methods (Some m)) (\<lambda>x. go_ok [ReqNot x])) = go_ok m4"
    "m4 = [] \<longleftrightarrow> nt = None"
    "\<forall>r. list_all (?pb r) m4 \<longleftrightarrow>
       (case nt of None \<Rightarrow> True | Some m \<Rightarrow> \<not> request_holds methods (fst r) (snd r) m)"
    by (rule translate_field [of nt "\<lambda>m. toRequestMatch methods (Some m)" ?pb ReqNot
          "\<lambda>r m. \<not> request_holds methods (fst r) (snd r) m"])
       (use "1.IH"(3) [OF v(1,2)] v(3) in fastforce)+
  let ?ms = "m1 @ m2 @ (if meth \<noteq> [] then [ReqMethod (ParseMethod methods meth)] else []) @ m4 @
      (if pathRegex \<noteq> [] then [ReqPath pathRegex] else [])"
  have "?ms \<noteq> []" using v(4) m1(2) m2(2) m4(2) by auto
  from combine_request_holds [OF this] obtain x where x: "combine_request ?ms = go_ok x"
    "\<forall>path hm. pb_request_holds path hm x \<longleftrightarrow> list_all (pb_request_holds path hm) ?ms"
    by (elim exE conjE)
  have "toRequestMatch methods (Some ?m) = combine_request ?ms"
    using "1.prems" m1(1) m2(1) m4(1) by (simp del: ValidateRequestMatch.simps)
  moreover have "?pb r x \<longleftrightarrow> request_holds methods (fst r) (snd r) ?m" for r
    using spec [OF m1(3), of r] spec [OF m2(3), of r] spec [OF m4(3), of r] by (simp add: x(2))
  ultimately show ?case using x(1) by metis
next
  case (3 child ms)
  then obtain m where m: "child = Some m" "ValidateRequestMatch m = go_ok ()" "validate_request_list ms = go_ok ()"
    by (auto split: option.splits)
  with 3 show ?case by fastforce
qed simp

lemma to_response_list_holds:
  "ValidateResponseMatch m = go_ok () \<Longrightarrow>
     \<exists>x. toResponseMatch (Some m) = go_ok x \<and> (\<forall>r. pb_response_holds r x \<longleftrightarrow> response_holds r m)"
  "validate_response_list ms = go_ok () \<Longrightarrow>
     \<exists>xs. to_response_list ms = go_ok xs \<and> (\<forall>r. map (pb_response_holds r) xs = response_list r ms)"
proof (induction m and ms rule: ValidateResponseMatch_validate_response_list.induct)
  case (1 all nt any status)
  let ?m = "ResponseMatch all nt any status"
  have v: "(case all of None \<Rightarrow> go_ok () | Some ms \<Rightarrow> validate_response_list ms) = go_ok ()"
    "(case any of None \<Rightarrow> go_ok () | Some ms \<Rightarrow> validate_response_list ms) = go_ok ()"
    "(case status of None \<Rightarrow> go_ok () | Some r \<Rightarrow> validate_status r) = go_ok ()"
    "(case nt of None \<Rightarrow> go_ok () | Some m \<Rightarrow> ValidateResponseMatch m) = go_ok ()"
    "\<not> (all = None \<and> any = None \<and> status = None \<and> nt = None)"
    using "1.prems" by (simp_all split: if_splits)
  obtain m1 where m1: "(case all of None \<Rightarrow> go_ok []
       | Some ms \<Rightarrow> go_bind (to_response_list ms) (\<lambda>l. go_ok [RspAll l])) = go_ok m1"
    "m1 = [] \<longleftrightarrow> all = None"
    "\<forall>r. list_all (pb_response_holds r) m1 \<longleftrightarrow>
       (case all of None \<Rightarrow> True | Some ms \<Rightarrow> list_all (\<lambda>b. b) (response_list r ms))"
    by (rule translate_field [of all to_response_list pb_response_holds RspAll
          "\<lambda>r ms. list_all (\<lambda>b. b) (response_list r ms)"])
       (use "1.IH"(1) v(1) in fastforce)+
  obtain m2 where m2: "(case any of None \<Rightarrow> go_ok []
       | Some ms \<Rightarrow> go_bind (to_response_list ms) (\<lambda>l. go_ok [RspAny l])) = go_ok m2"
    "m2 = [] \<longleftrightarrow> any = None"
    "\<forall>r. list_all (pb_response_holds r) m2 \<longleftrightarrow>
       (case any of None \<Rightarrow> True | Some ms \<Rightarrow> list_ex (\<lambda>b. b) (response_list r ms))"
    by (rule translate_field [of any to_response_list pb_response_holds RspAny
          "\<lambda>r ms. list_ex (\<lambda>b. b) (response_list r ms)"])
       (use "1.IH"(2) [OF v(1)] v(2) in fastforce)+
  obtain m4 where m4: "(case nt of None \<Rightarrow> go_ok []
       | Some m \<Rightarrow> go_bind (toResponseMatch (Some m)) (\<lambda>x. go_ok [RspNot x])) = go_ok m4"
    "m4 = [] \<longleftrightarrow> nt = None"
    "\<forall>r. list_all (pb_response_holds r) m4 \<longleftrightarrow> (case nt of None \<Rightarrow> True | Some m \<Rightarrow> \<not> response_holds r m)"
    by (rule translate_field [of nt "\<lambda>m. toResponseMatch (Some m)" pb_response_holds RspNot
          "\<lambda>r m. \<not> response_holds r m"])
       (use "1.IH"(3) [OF v(1,2,3)] v(4) in fastforce)+
  let ?ms = "m1 @ m2 @ (case status of None \<Rightarrow> [] | Some r \<Rightarrow> [RspStatus (Min r) (Max r)]) @ m4"
  have "?ms \<noteq> []" using v(5) m1(2) m2(2) m4(2) by (auto split: option.splits)
  from combine_response_holds [OF this] obtain x where x: "combine_response ?ms = go_ok x"
    "\<forall>r. pb_response_holds r x \<longleftrightarrow> list_all (pb_response_holds r) ?ms"
    by (elim exE conjE)
  have "toResponseMatch (Some ?m) = combine_response ?ms"
    using "1.prems" m1(1) m2(1) m4(1) by (simp del: ValidateResponseMatch.simps)
  moreover have "pb_response_holds r x \<longleftrightarrow> response_holds r ?m" for r
    using spec [OF m1(3), of r] spec [OF m2(3), of r] spec [OF m4(3), of r]
    by (cases status) (simp_all add: x(2))
  ultimately show ?case using x(1) by metis
next
  case (3 child ms)
  then obtain m where m: "child = Some m" "ValidateResponseMatch m = go_ok ()" "validate_response_list ms = go_ok ()"
    by (auto split: option.splits)
  with 3 show ?case by fastforce
qed simp

text \<open>
  C29. A request match that passes validation is translated, never rejected, and the proxy API
  match means what the match of the profile means: the conjunction of all its fields, at
  every depth. A match that does not pass is rejected with the error of the validation.
\<close>

theorem toRequestMatch_correct:
  "(case ValidateRequestMatch m of
      None \<Rightarrow> toRequestMatch methods (Some m) = None
    | Some (Inl e) \<Rightarrow> toRequestMatch methods (Some m) = go_err e
    | Some (Inr u) \<Rightarrow> (\<exists>x. toRequestMatch methods (Some m) = go_ok x \<and>
        (\<forall>path hm. pb_request_holds path hm x \<longleftrightarrow> request_holds methods path hm m)))"
proof (cases "ValidateRequestMatch m = go_ok ()")
  case True
  with to_request_list_holds(1) [OF True, of methods] show ?thesis by auto
next
  case False
  then show ?thesis by (cases m) (auto simp del: ValidateRequestMatch.simps split: option.splits sum.splits)
qed

text \<open>
  The same for response matches, whatever status ranges mean to the proxy.
\<close>

theorem toResponseMatch_correct:
  "(case ValidateResponseMatch m of
      None \<Rightarrow> toResponseMatch (Some m) = None
    | Some (Inl e) \<Rightarrow> toResponseMatch (Some m) = go_err e
    | Some (Inr u) \<Rightarrow> (\<exists>x. toResponseMatch (Some m) = go_ok x \<and>
        (\<forall>status. pb_response_holds status x \<longleftrightarrow> response_holds status m)))"
proof (cases "ValidateResponseMatch m = go_ok ()")
  case True
  with to_response_list_holds(1) [OF True] show ?thesis by auto
next
  case False
  then show ?thesis by (cases m) (auto simp del: ValidateResponseMatch.simps split: option.splits sum.splits)
qed

section \<open>Nil entries\<close>

fun request_nil_free :: "RequestMatch \<Rightarrow> bool" and request_list_nil_free :: "RequestMatch option list \<Rightarrow> bool" where
  "request_nil_free (RequestMatch all nt any pathRegex meth) \<longleftrightarrow>
     (case all of None \<Rightarrow> True | Some ms \<Rightarrow> request_list_nil_free ms) \<and>
     (case any of None \<Rightarrow> True | Some ms \<Rightarrow> request_list_nil_free ms) \<and>
     (case nt of None \<Rightarrow> True | Some m \<Rightarrow> request_nil_free m)"
| "request_list_nil_free [] = True"
| "request_list_nil_free (m # ms) =
     ((case m of None \<Rightarrow> False | Some m \<Rightarrow> request_nil_free m) \<and> request_list_nil_free ms)"

lemma go_bind_no_panic: "m \<noteq> None \<Longrightarrow> (\<And>x. m = go_ok x \<Longrightarrow> f x \<noteq> None) \<Longrightarrow> go_bind m f \<noteq> None"
  by (cases m) (auto simp: go_bind_def split: sum.splits)

lemma validate_request_no_panic:
  "request_nil_free m \<Longrightarrow> ValidateRequestMatch m \<noteq> None"
  "request_list_nil_free ms \<Longrightarrow> validate_request_list ms \<noteq> None"
proof (induction m and ms rule: ValidateRequestMatch_validate_request_list.induct)
  case (1 all nt any pathRegex meth)
  show ?case unfolding ValidateRequestMatch.simps
  proof (intro go_bind_no_panic)
    show "(case all of None \<Rightarrow> go_ok () | Some ms \<Rightarrow> validate_request_list ms) \<noteq> None"
      using "1.IH"(1) "1.prems" by (cases all) simp_all
  next
    fix x
    assume "(case all of None \<Rightarrow> go_ok () | Some ms \<Rightarrow> validate_request_list ms) = go_ok x"
    with "1.IH"(2) "1.prems"
    show "(case any of None \<Rightarrow> go_ok () | Some ms \<Rightarrow> validate_request_list ms) \<noteq> None"
      by (cases any) simp_all
  next
    fix x y
    assume "(case all of None \<Rightarrow> go_ok () | Some ms \<Rightarrow> validate_request_list ms) = go_ok x"
      "(case any of None \<Rightarrow> go_ok () | Some ms \<Rightarrow> validate_request_list ms) = go_ok y"
    with "1.IH"(3) "1.prems"
    show "(case nt of None \<Rightarrow> go_ok () | Some m \<Rightarrow> ValidateRequestMatch m) \<noteq> None"
      by (cases nt) simp_all
  qed simp
next
  case (3 child ms)
  then obtain m where "child = Some m" by (cases child) simp_all
  with 3 show ?case using go_bind_no_panic [of "ValidateRequestMatch m" "\<lambda>_. validate_request_list ms"] by auto
qed simp

text \<open>
  A null entry in a list of matches makes the translation panic: the validation
  dereferences the nil pointer before the check for a missing match is reached. Matches
  without null entries never panic.
\<close>

theorem request_match_null_entry:
  "toRequestMatch methods (Some (RequestMatch (Some (None # ms)) nt any pathRegex meth)) = None \<and>
   (request_nil_free m \<longrightarrow> toRequestMatch methods (Some m) \<noteq> None)"
proof -
  have "toRequestMatch methods (Some m) \<noteq> None" if "request_nil_free m"
  proof -
    from validate_request_no_panic(1) [OF that] consider e where "ValidateRequestMatch m = go_err e"
      | "ValidateRequestMatch m = go_ok ()"
      by (cases "ValidateRequestMatch m") (auto, metis (full_types) old.sum.exhaust old.unit.exhaust)
    then show ?thesis
    proof cases
      case 1
      then show ?thesis by (cases m) (simp del: ValidateRequestMatch.simps)
    qed (use to_request_list_holds(1) [of m methods] in auto)
  qed
  then show ?thesis by simp
qed

theorem request_match_null_entry_witness:
  "request_nil_free (RequestMatch None None None ''/a'' ''GET'') \<and>
   toRequestMatch (\<lambda>_. None) (Some (RequestMatch None None None ''/a'' ''GET'')) \<noteq> None"
  using request_match_null_entry [of "\<lambda>_. None" "[]" None None "[]" "[]" "RequestMatch None None None ''/a'' ''GET''"]
  by simp

end
