(* ===== verification/Go_Time.thy ===== *)
theory Go_Time
  imports Go_Prelude "HOL-Library.Signed_Division"
begin

text \<open>
  \<open>time.ParseDuration\<close> of the standard library and the conversion of a duration to the proxy
  API (\<open>toDuration\<close> in \<open>profile_translator.go\<close>). A \<open>time.Duration\<close> is a number of nanoseconds.

  The 64-bit arithmetic of the parser is written out. The digits after a decimal point go
  through a floating point product; its rounded result is the parameter \<open>fmul f unit scale\<close>.
\<close>

section \<open>Parsing\<close>

definition dur_char :: "char \<Rightarrow> bool" where
  "dur_char c \<longleftrightarrow> c = CHR ''.'' \<or> is_digit c"

fun leading_int :: "nat \<Rightarrow> string \<Rightarrow> (nat \<times> string) option" where
  "leading_int x [] = Some (x, [])"
| "leading_int x (c # s) =
     (if \<not> is_digit c then Some (x, c # s)
      else if 2 ^ 63 div 10 < x then None
      else let y = 10 * x + (of_char c - 48) in if 2 ^ 63 < y then None else leading_int y s)"

text \<open>The accumulator is the value, the scale, and the flag that digits are now ignored.\<close>

fun leading_fraction :: "nat \<Rightarrow> nat \<Rightarrow> bool \<Rightarrow> string \<Rightarrow> nat \<times> nat \<times> string" where
  "leading_fraction x scale ovf [] = (x, scale, [])"
| "leading_fraction x scale ovf (c # s) =
     (if \<not> is_digit c then (x, scale, c # s)
      else if ovf then leading_fraction x scale ovf s
      else if (2 ^ 63 - 1) div 10 < x then leading_fraction x scale True s
      else let y = 10 * x + (of_char c - 48) in
        if 2 ^ 63 < y then leading_fraction x scale True s
        else leading_fraction y (10 * scale) False s)"

text \<open>The two spellings of a microsecond are the UTF-8 bytes of U+00B5 and U+03BC.\<close>

definition duration_unit :: "string \<Rightarrow> nat option" where
  "duration_unit u =
     (if u = ''ns'' then Some 1
      else if u = ''us'' \<or> u = [char_of (194 :: nat), char_of (181 :: nat), CHR ''s''] \<or>
        u = [char_of (206 :: nat), char_of (188 :: nat), CHR ''s''] then Some 1000
      else if u = ''ms'' then Some 1000000
      else if u = ''s'' then Some 1000000000
      else if u = ''m'' then Some 60000000000
      else if u = ''h'' then Some 3600000000000 else None)"

definition duration_digits :: "string \<Rightarrow> (nat \<times> nat \<times> nat \<times> string) option" where
  "duration_digits s = (case leading_int 0 s of
     None \<Rightarrow> None
   | Some (v, s1) \<Rightarrow>
       let pre = (length s1 \<noteq> length s);
           (f, scale, s2, post) = (case s1 of
               [] \<Rightarrow> (0, 1, s1, False)
             | c # t \<Rightarrow> if c = CHR ''.''
                 then (case leading_fraction 0 1 False t of (f, scale, t') \<Rightarrow> (f, scale, t', length t' \<noteq> length t))
                 else (0, 1, s1, False))
       in if \<not> pre \<and> \<not> post then None else Some (v, f, scale, s2))"

definition duration_segment :: "(nat \<Rightarrow> nat \<Rightarrow> nat \<Rightarrow> nat) \<Rightarrow> string \<Rightarrow> (nat \<times> string) option" where
  "duration_segment fmul s =
     (if \<not> dur_char (hd s) then None
      else (case duration_digits s of
          None \<Rightarrow> None
        | Some (v, f, scale, s2) \<Rightarrow>
            let u = takeWhile (\<lambda>c. \<not> dur_char c) s2;
                rest = dropWhile (\<lambda>c. \<not> dur_char c) s2
            in if u = [] then None
               else (case duration_unit u of
                   None \<Rightarrow> None
                 | Some unit \<Rightarrow>
                     if 2 ^ 63 div unit < v then None
                     else let w = v * unit in
                       if 0 < f
                       then (let w = (w + fmul f unit scale) mod 2 ^ 64
                             in if 2 ^ 63 < w then None else Some (w, rest))
                       else Some (w, rest))))"

lemma leading_int_length: "leading_int x s = Some (y, r) \<Longrightarrow> length r \<le> length s"
  by (induction s arbitrary: x) (auto simp: Let_def le_Suc_eq split: if_splits)

lemma leading_fraction_length: "leading_fraction x sc ovf s = (y, sc', r) \<Longrightarrow> length r \<le> length s"
  by (induction s arbitrary: x sc ovf) (auto simp: Let_def le_SucI split: if_splits)

lemma duration_digits_length: "duration_digits s = Some (v, f, scale, r) \<Longrightarrow> length r \<le> length s"
  by (fastforce simp: duration_digits_def Let_def split: option.splits list.splits if_splits prod.splits
      dest: leading_int_length leading_fraction_length)

lemma duration_segment_length [termination_simp]:
  assumes "duration_segment fmul s = Some (v, r)"
  shows "length r < length s"
proof -
  from assms obtain w f scale s2 where d: "duration_digits s = Some (w, f, scale, s2)"
    and u: "takeWhile (\<lambda>c. \<not> dur_char c) s2 \<noteq> []" and r: "r = dropWhile (\<lambda>c. \<not> dur_char c) s2"
    by (auto simp: duration_segment_def Let_def split: if_splits option.splits)
  have "length s2 = length (takeWhile (\<lambda>c. \<not> dur_char c) s2) + length r"
    unfolding r by (metis length_append takeWhile_dropWhile_id)
  with u duration_digits_length [OF d] show ?thesis by (cases "takeWhile (\<lambda>c. \<not> dur_char c) s2") simp_all
qed

fun duration_sum :: "(nat \<Rightarrow> nat \<Rightarrow> nat \<Rightarrow> nat) \<Rightarrow> nat \<Rightarrow> string \<Rightarrow> nat option" where
  "duration_sum fmul d s =
     (if s = [] then Some d
      else (case duration_segment fmul s of
          None \<Rightarrow> None
        | Some (v, rest) \<Rightarrow>
            let d = (d + v) mod 2 ^ 64 in if 2 ^ 63 < d then None else duration_sum fmul d rest))"

declare duration_sum.simps [simp del]

definition ParseDuration :: "(nat \<Rightarrow> nat \<Rightarrow> nat \<Rightarrow> nat) \<Rightarrow> string \<Rightarrow> int option" where
  "ParseDuration fmul s = (case split_sign s of (neg, s) \<Rightarrow>
     if s = ''0'' then Some 0
     else if s = [] then None
     else (case duration_sum fmul 0 s of
         None \<Rightarrow> None
       | Some d \<Rightarrow>
           if neg then Some (- int d) else if 2 ^ 63 - 1 < d then None else Some (int d)))"

section \<open>Conversion\<close>

record pb_Duration =
  Seconds :: int
  Nanos :: int

definition toDuration :: "int \<Rightarrow> pb_Duration option" where
  "toDuration d =
     (if d = 0 then None
      else Some \<lparr>Seconds = d sdiv 1000000000, Nanos = d smod 1000000000\<rparr>)"

lemma duration_sum_bound: "d \<le> 2 ^ 63 \<Longrightarrow> duration_sum fmul d s = Some e \<Longrightarrow> e \<le> 2 ^ 63"
proof (induction fmul d s rule: duration_sum.induct)
  case (1 fmul d s)
  from "1.prems"(2) show ?case
    by (subst (asm) duration_sum.simps)
       (use 1 in \<open>auto simp: Let_def split: if_splits option.splits\<close>)
qed

lemma ParseDuration_range:
  assumes "ParseDuration fmul s = Some d"
  shows "- (2 ^ 63) \<le> d \<and> d < 2 ^ 63"
  using assms duration_sum_bound [of 0 fmul]
  by (force simp: ParseDuration_def split: prod.splits if_splits option.splits)

lemma trunc_div:
  assumes "0 < (k :: int)"
  shows "k * (d sdiv k) + d smod k = d" "\<bar>d smod k\<bar> < k" "0 < d \<Longrightarrow> 0 \<le> d sdiv k \<and> 0 \<le> d smod k"
    "d < 0 \<Longrightarrow> d sdiv k \<le> 0 \<and> d smod k \<le> 0"
proof -
  have dv: "d sdiv k = (if 0 \<le> d then d div k else - ((- d) div k))"
    using assms by (simp add: signed_divide_int_def sgn_if)
  have md: "d smod k = (if 0 \<le> d then d mod k else - ((- d) mod k))"
    using assms by (simp add: signed_modulo_int_def signed_divide_int_def sgn_if minus_div_mult_eq_mod [symmetric] algebra_simps)
  have "k * (- d div k) = - d - - d mod k" by (metis eq_diff_eq mult_div_mod_eq)
  then show "k * (d sdiv k) + d smod k = d" by (simp add: dv md)
  show "\<bar>d smod k\<bar> < k" using assms by (simp add: md)
  show "0 < d \<Longrightarrow> 0 \<le> d sdiv k \<and> 0 \<le> d smod k" using assms by (simp add: dv md pos_imp_zdiv_nonneg_iff)
  show "d < 0 \<Longrightarrow> d sdiv k \<le> 0 \<and> d smod k \<le> 0" using assms by (simp add: dv md pos_imp_zdiv_nonneg_iff)
qed

text \<open>
  Durations: a text the parser accepts denotes a 64-bit number of nanoseconds, and its
  conversion to seconds and nanoseconds is exact, with less than a second in the
  nanoseconds, both parts of the same sign, and no message part out of its type's range.
\<close>

theorem toDuration_ParseDuration:
  assumes "ParseDuration fmul s = Some d" and "toDuration d = Some pd"
  shows "1000000000 * Seconds pd + Nanos pd = d \<and> \<bar>Nanos pd\<bar> < 1000000000 \<and>
    (if 0 < d then 0 \<le> Seconds pd \<and> 0 \<le> Nanos pd else Seconds pd \<le> 0 \<and> Nanos pd \<le> 0) \<and>
    \<bar>Seconds pd\<bar> \<le> 9223372036"
proof -
  from assms(2) have "d \<noteq> 0" and pd: "pd = \<lparr>Seconds = d sdiv 1000000000, Nanos = d smod 1000000000\<rparr>"
    by (auto simp: toDuration_def split: if_splits)
  note t = trunc_div [of 1000000000 d]
  have "\<bar>d sdiv 1000000000\<bar> \<le> 9223372036"
    using ParseDuration_range [OF assms(1)] t \<open>d \<noteq> 0\<close> by (cases "0 < d") auto
  with t \<open>d \<noteq> 0\<close> show ?thesis by (simp add: pd)
qed

theorem toDuration_ParseDuration_witness:
  "ParseDuration (\<lambda>f u s. f * u div s) ''1.5s'' = Some 1500000000 \<and>
   toDuration 1500000000 = Some \<lparr>Seconds = 1, Nanos = 500000000\<rparr> \<and>
   1000000000 * 1 + 500000000 = (1500000000 :: int)"
proof -
  have p: "ParseDuration (\<lambda>f u s. f * u div s) ''1.5s'' = Some 1500000000"
    by (simp add: ParseDuration_def split_sign_def duration_sum.simps duration_segment_def
        duration_digits_def dur_char_def is_digit_def duration_unit_def Let_def)
  have t: "toDuration 1500000000 = Some \<lparr>Seconds = 1, Nanos = 500000000\<rparr>"
    by (simp add: toDuration_def signed_divide_int_def signed_modulo_int_def)
  from toDuration_ParseDuration [OF p t] p t show ?thesis by simp
qed

end
