(* ===== verification/Server_Names.thy ===== *)
theory Server_Names
  imports Net_Addr Kube_Types "HOL-Library.Sublist"
begin

text \<open>
  Names in requests to the destination server (\<open>server.go\<close>): the authority of a request, the
  DNS name of a service, the identifier of a service profile, and the lookup of a service by
  its cluster IP, with the indexers of \<open>watcher/k8s.go\<close> that serve it. \<open>net.SplitHostPort\<close> is
  modelled from the standard library.
\<close>

section \<open>Model\<close>

definition SplitHostPort :: "string \<Rightarrow> (string \<times> string) option" where
  "SplitHostPort hostport = (case split_last_colon hostport of
     None \<Rightarrow> None
   | Some (before, port) \<Rightarrow>
       if hd hostport = CHR ''[''
       then (case index_of (CHR '']'') hostport of
           None \<Rightarrow> None
         | Some e \<Rightarrow>
             if e + 1 = length hostport then None
             else if e + 1 = length before
             then (if CHR ''['' \<in> set (drop 1 hostport) \<or> CHR '']'' \<in> set (drop (e + 1) hostport) then None
                   else Some (take (e - 1) (drop 1 hostport), port))
             else None)
       else if CHR '':'' \<in> set before \<or> CHR ''['' \<in> set hostport \<or> CHR '']'' \<in> set hostport then None
       else Some (before, port))"

datatype authority_error = InvalidDestination | InvalidPortText string | InvalidPortNumber int

definition getHostAndPort :: "string \<Rightarrow> authority_error + (string \<times> Port)" where
  "getHostAndPort authority =
     (if CHR '':'' \<notin> set authority then Inr (authority, 80)
      else (case SplitHostPort authority of
          None \<Rightarrow> Inl InvalidDestination
        | Some (host, sport) \<Rightarrow> (case atoi sport of
            None \<Rightarrow> Inl (InvalidPortText sport)
          | Some port \<Rightarrow>
              if port \<le> 0 \<or> 65535 < port then Inl (InvalidPortNumber port)
              else Inr (host, word_of_int port))))"

definition hasSuffix :: "string list \<Rightarrow> string list \<Rightarrow> bool" where
  "hasSuffix strs suff =
     (if length strs < length suff then False
      else list_all (\<lambda>i. drop (length strs - length suff) strs ! i = suff ! i) [0..<length suff])"

definition parseK8sServiceName :: "string \<Rightarrow> string \<Rightarrow> string + (ServiceID \<times> string)" where
  "parseK8sServiceName fqdn clusterDomain =
     (let labels = split_on (CHR ''.'') fqdn;
          suff = ''svc'' # split_on (CHR ''.'') clusterDomain;
          n = length labels
      in if \<not> hasSuffix labels suff then Inl fqdn
         else if n = 2 + length suff
         then Inr (\<lparr>Namespace = labels ! 1, Name = labels ! 0, IPFamily = []\<rparr>, [])
         else if n = 3 + length suff
         then Inr (\<lparr>Namespace = labels ! 2, Name = labels ! 1, IPFamily = []\<rparr>, labels ! 0)
         else Inl fqdn)"

record contextToken =
  tok_Ns :: string
  tok_NodeName :: string
  tok_Pod :: string

text \<open>\<open><name>.<namespace>.svc.<clusterDomain>\<close>, as \<open>getProfileByIP\<close> and \<open>profileID\<close> print it.\<close>

definition service_fqn :: "ServiceID \<Rightarrow> string \<Rightarrow> string" where
  "service_fqn service clusterDomain =
     Name service @ ''.'' @ Namespace service @ ''.svc.'' @ clusterDomain"

definition profileID :: "string \<Rightarrow> contextToken \<Rightarrow> string \<Rightarrow> string + ID" where
  "profileID authority ctxToken clusterDomain = (case getHostAndPort authority of
     Inl _ \<Rightarrow> Inl authority
   | Inr (host, _) \<Rightarrow> (case parseK8sServiceName host clusterDomain of
       Inl e \<Rightarrow> Inl e
     | Inr (service, _) \<Rightarrow>
         let i = \<lparr>Namespace = Namespace service, Name = service_fqn service clusterDomain, IPFamily = []\<rparr>
         in Inr (if tok_Ns ctxToken \<noteq> [] then i\<lparr>Namespace := tok_Ns ctxToken\<rparr> else i)))"

text \<open>
  The index functions registered by \<open>InitializeIndexers\<close>. An informer's indexer returns the
  cached objects whose index function lists the key.
\<close>

definition service_ip_index :: "Service \<Rightarrow> string list" where
  "service_ip_index svc =
     (if svc_ClusterIPs svc \<noteq> [] then svc_ClusterIPs svc
      else if svc_ClusterIP svc \<noteq> [] then [svc_ClusterIP svc] else [])"

definition pod_ip_index :: "Pod \<Rightarrow> string list" where
  "pod_ip_index pod =
     (if pod_HostNetwork pod then []
      else let ips = filter (\<lambda>ip. ip \<noteq> []) (pod_PodIPs pod)
           in if ips = [] \<and> pod_PodIP pod \<noteq> [] then [pod_PodIP pod] else ips)"

definition host_ip_index :: "Pod \<Rightarrow> string list" where
  "host_ip_index pod =
     (let ips = (if pod_HostIPs pod = [] \<and> pod_HostIP pod \<noteq> [] then [pod_HostIP pod] else pod_HostIPs pod)
      in if ips = [] then []
         else concat (map (\<lambda>c. concat (map (\<lambda>p.
             if cp_HostPort p = 0 then []
             else map (\<lambda>ip. join_host_port ip (itoa (sint (cp_HostPort p)))) ips)
           (c_Ports c))) (pod_Containers pod)))"

definition workload_ip_index :: "ExternalWorkload \<Rightarrow> string list" where
  "workload_ip_index ew =
     concat (map (\<lambda>ip. map (\<lambda>port. join_host_port ip (itoa (sint (ps_Port port)))) (ew_Ports ew))
       (ew_WorkloadIPs ew))"

definition by_index :: "('a \<Rightarrow> string list) \<Rightarrow> 'a list \<Rightarrow> string \<Rightarrow> 'a list" where
  "by_index index objs key = filter (\<lambda>obj. key \<in> set (index obj)) objs"

definition podNotTerminating :: "Pod \<Rightarrow> bool" where
  "podNotTerminating pod =
     (let phase = pod_Phase pod;
          podTerminated = (phase = ''Succeeded'' \<or> phase = ''Failed'');
          podTerminating = (pod_DeletionTimestamp pod \<noteq> None)
      in \<not> podTerminating \<and> \<not> podTerminated)"

definition getIndexedPods :: "(Pod \<Rightarrow> string list) \<Rightarrow> Pod list \<Rightarrow> string \<Rightarrow> Pod list" where
  "getIndexedPods index pods key = filter podNotTerminating (by_index index pods key)"

definition getIndexedExternalWorkloads :: "ExternalWorkload list \<Rightarrow> string \<Rightarrow> ExternalWorkload list" where
  "getIndexedExternalWorkloads workloads key = by_index workload_ip_index workloads key"

datatype status_code = InvalidArgument | StatusNotFound | FailedPrecondition | Internal | Unknown

definition getSvcID :: "Service list \<Rightarrow> string \<Rightarrow> status_code + ServiceID option" where
  "getSvcID services clusterIP = (case by_index service_ip_index services clusterIP of
     [] \<Rightarrow> Inr None
   | [svc] \<Rightarrow> Inr (Some (svc_ID svc))
   | _ \<Rightarrow> Inl FailedPrecondition)"

abbreviation RemoteDiscoveryLabel :: string where
  "RemoteDiscoveryLabel \<equiv> ''multicluster.linkerd.io/remote-discovery''"

abbreviation RemoteServiceLabel :: string where
  "RemoteServiceLabel \<equiv> ''multicluster.linkerd.io/remote-service''"

abbreviation RemoteDiscoveryAnnotation :: string where
  "RemoteDiscoveryAnnotation \<equiv> ''multicluster.linkerd.io/remote-discovery''"

abbreviation LocalDiscoveryAnnotation :: string where
  "LocalDiscoveryAnnotation \<equiv> ''multicluster.linkerd.io/local-discovery''"

definition isFederatedService :: "Service \<Rightarrow> bool" where
  "isFederatedService service \<longleftrightarrow>
     fmlookup (svc_Annotations service) LocalDiscoveryAnnotation \<noteq> None \<or>
     fmlookup (svc_Annotations service) RemoteDiscoveryAnnotation \<noteq> None"

section \<open>Service names\<close>

lemma hasSuffix_iff: "hasSuffix strs suff \<longleftrightarrow> suffix suff strs"
proof
  assume h: "hasSuffix strs suff"
  then have len: "length suff \<le> length strs" by (simp add: hasSuffix_def split: if_splits)
  have "drop (length strs - length suff) strs = suff"
    using h len by (intro nth_equalityI) (auto simp: hasSuffix_def list_all_iff split: if_splits)
  then show "suffix suff strs" by (metis suffix_drop)
next
  assume "suffix suff strs"
  then obtain pre where "strs = pre @ suff" by (auto simp: suffix_def)
  then show "hasSuffix strs suff" by (simp add: hasSuffix_def list_all_iff)
qed

lemma split_on_no_sep_mem: "x \<in> set (split_on c s) \<Longrightarrow> c \<notin> set x"
  by (induction s arbitrary: x) (auto split: if_splits list.splits)

lemma split_service_fqn:
  assumes "CHR ''.'' \<notin> set n" "CHR ''.'' \<notin> set ns"
  shows "split_on (CHR ''.'') (n @ ''.'' @ ns @ ''.svc.'' @ domain) =
    [n, ns] @ ''svc'' # split_on (CHR ''.'') domain"
  using assms split_on_sep [of "CHR ''.''" "''svc''" domain] by (simp add: split_on_sep)

lemma parse_service_fqn:
  assumes "IPFamily i = []" "CHR ''.'' \<notin> set (Name i)" "CHR ''.'' \<notin> set (Namespace i)"
  shows "parseK8sServiceName (service_fqn i domain) domain = Inr (i, [])"
    and "CHR ''.'' \<notin> set h \<Longrightarrow>
      parseK8sServiceName (h @ ''.'' @ service_fqn i domain) domain = Inr (i, h)"
proof -
  have i: "i = \<lparr>Namespace = Namespace i, Name = Name i, IPFamily = []\<rparr>" using assms(1) by simp
  note fqn = split_service_fqn [OF assms(2,3), of domain]
  show "parseK8sServiceName (service_fqn i domain) domain = Inr (i, [])"
    using fqn by (subst (2) i) (simp add: parseK8sServiceName_def hasSuffix_iff suffix_def service_fqn_def)
  assume h: "CHR ''.'' \<notin> set h"
  have "split_on (CHR ''.'') (h @ ''.'' @ service_fqn i domain) =
      h # [Name i, Namespace i] @ ''svc'' # split_on (CHR ''.'') domain"
    using fqn split_on_sep [OF h] by (simp add: service_fqn_def)
  then show "parseK8sServiceName (h @ ''.'' @ service_fqn i domain) domain = Inr (i, h)"
    by (subst (2) i) (simp add: parseK8sServiceName_def hasSuffix_iff suffix_def)
qed

text \<open>
  C32. Which names the server takes for services: \<open>name.namespace.svc.domain\<close>, and the same
  with the name of a pod before it. The parser accepts exactly these names, with labels that
  have no dots, and returns their parts.
\<close>

theorem parseK8sServiceName_iff:
  "parseK8sServiceName fqdn domain = Inr (i, instance_id) \<longleftrightarrow>
     IPFamily i = [] \<and> CHR ''.'' \<notin> set (Name i) \<and> CHR ''.'' \<notin> set (Namespace i) \<and>
     CHR ''.'' \<notin> set instance_id \<and>
     (instance_id = [] \<and> fqdn = service_fqn i domain \<or>
      fqdn = instance_id @ ''.'' @ service_fqn i domain)"
proof -
  let ?suff = "''svc'' # split_on (CHR ''.'') domain"
  let ?dot = "CHR ''.''"
  have unsplit: "join_with [?dot] (xs @ ?suff) = concat (map (\<lambda>x. x @ ''.'') xs) @ ''svc.'' @ domain" for xs
  proof (induction xs)
    case Nil
    obtain y ys where "split_on ?dot domain = y # ys" by (cases "split_on ?dot domain") auto
    then show ?case using join_split [of ?dot domain] by simp
  next
    case (Cons x xs)
    then show ?case by (cases "xs @ ?suff") auto
  qed
  show ?thesis
  proof
    assume r: "parseK8sServiceName fqdn domain = Inr (i, instance_id)"
    then obtain pre where pre: "split_on ?dot fqdn = pre @ ?suff"
      by (auto simp: parseK8sServiceName_def Let_def hasSuffix_iff suffix_def split: if_splits)
    have nodot: "?dot \<notin> set x" if "x \<in> set pre" for x
      using split_on_no_sep_mem [of x ?dot fqdn] that by (simp add: pre)
    have f: "fqdn = concat (map (\<lambda>x. x @ ''.'') pre) @ ''svc.'' @ domain"
      using join_split [of ?dot fqdn] unsplit [of pre] by (simp add: pre)
    from r consider n ns where "pre = [n, ns]" "i = \<lparr>Namespace = ns, Name = n, IPFamily = []\<rparr>" "instance_id = []"
      | h n ns where "pre = [h, n, ns]" "i = \<lparr>Namespace = ns, Name = n, IPFamily = []\<rparr>" "instance_id = h"
      by (auto simp: parseK8sServiceName_def Let_def pre length_Suc_conv numeral_eq_Suc split: if_splits)
    then show "IPFamily i = [] \<and> ?dot \<notin> set (Name i) \<and> ?dot \<notin> set (Namespace i) \<and>
        ?dot \<notin> set instance_id \<and>
        (instance_id = [] \<and> fqdn = service_fqn i domain \<or> fqdn = instance_id @ ''.'' @ service_fqn i domain)"
      using nodot f by cases (simp_all add: service_fqn_def)
  next
    assume "IPFamily i = [] \<and> ?dot \<notin> set (Name i) \<and> ?dot \<notin> set (Namespace i) \<and>
        ?dot \<notin> set instance_id \<and>
        (instance_id = [] \<and> fqdn = service_fqn i domain \<or> fqdn = instance_id @ ''.'' @ service_fqn i domain)"
    then have a: "IPFamily i = []" "?dot \<notin> set (Name i)" "?dot \<notin> set (Namespace i)" "?dot \<notin> set instance_id"
      and c: "instance_id = [] \<and> fqdn = service_fqn i domain \<or> fqdn = instance_id @ ''.'' @ service_fqn i domain"
      by auto
    from c parse_service_fqn [OF a(1-3)] a(4) show "parseK8sServiceName fqdn domain = Inr (i, instance_id)"
      by auto
  qed
qed

section \<open>Authorities\<close>

lemma takeWhile_rev_sep: "c \<notin> set b \<Longrightarrow> takeWhile (\<lambda>x. x \<noteq> c) (rev b @ c # rev a) = rev b"
  by (simp add: takeWhile_append)

lemma split_last_colon_append: "CHR '':'' \<notin> set b \<Longrightarrow> split_last_colon (a @ CHR '':'' # b) = Some (a, b)"
  by (simp add: split_last_colon_def takeWhile_append Let_def)

lemma index_of_append: "x \<notin> set a \<Longrightarrow> index_of x (a @ x # b) = Some (length a)"
  by (induction a) auto

lemma SplitHostPort_join:
  assumes "CHR ''['' \<notin> set h" "CHR '']'' \<notin> set h"
    and "CHR '':'' \<notin> set p" "CHR ''['' \<notin> set p" "CHR '']'' \<notin> set p"
  shows "SplitHostPort (join_host_port h p) = Some (h, p)"
proof (cases "CHR '':'' \<in> set h")
  case True
  let ?s = "''['' @ h @ '']:'' @ p"
  have s: "?s = (''['' @ h @ '']'') @ CHR '':'' # p" "?s = (''['' @ h) @ CHR '']'' # CHR '':'' # p" by simp_all
  have "split_last_colon ?s = Some (''['' @ h @ '']'', p)"
    unfolding s(1) using assms(3) by (rule split_last_colon_append)
  moreover have "index_of (CHR '']'') ?s = Some (length h + 1)"
    unfolding s(2) using assms(2) by (subst index_of_append) auto
  ultimately show ?thesis
    using assms True by (simp add: SplitHostPort_def join_host_port_def)
next
  case False
  then show ?thesis
    using assms split_last_colon_append [OF assms(3), of h]
    by (cases h) (auto simp: SplitHostPort_def join_host_port_def)
qed

lemma itoa_chars: "0 \<le> i \<Longrightarrow> c \<in> set (itoa i) \<Longrightarrow> is_digit c"
  using dec_of_nat_digits [of "nat i"] by (simp add: itoa_def list_all_iff)

lemma itoa_no_bracket:
  assumes "0 \<le> i"
  shows "CHR '':'' \<notin> set (itoa i)" "CHR ''['' \<notin> set (itoa i)" "CHR '']'' \<notin> set (itoa i)"
  using itoa_chars [OF assms, of "CHR '':''"] itoa_chars [OF assms, of "CHR ''[''"]
    itoa_chars [OF assms, of "CHR '']''"]
  by (auto simp: is_digit_def)

text \<open>
  The authority of a request: without a colon it is a host and the port is 80; a host and
  a port joined as \<open>net.JoinHostPort\<close> joins them are recovered, IPv6 hosts included; and the
  port of every authority the server accepts is between 1 and 65535.
\<close>

theorem getHostAndPort_spec:
  "(CHR '':'' \<notin> set authority \<longrightarrow> getHostAndPort authority = Inr (authority, 80)) \<and>
   (CHR ''['' \<notin> set h \<longrightarrow> CHR '']'' \<notin> set h \<longrightarrow> 1 \<le> p \<longrightarrow> p \<le> 65535 \<longrightarrow>
      getHostAndPort (join_host_port h (itoa p)) = Inr (h, word_of_int p)) \<and>
   (getHostAndPort authority = Inr (host, port) \<longrightarrow> 1 \<le> uint port \<and> uint port \<le> 65535)"
proof -
  have "getHostAndPort (join_host_port h (itoa p)) = Inr (h, word_of_int p)"
    if "CHR ''['' \<notin> set h" "CHR '']'' \<notin> set h" "1 \<le> p" "p \<le> 65535"
  proof -
    have "CHR '':'' \<in> set (join_host_port h (itoa p))" by (simp add: join_host_port_def)
    with that show ?thesis
      using SplitHostPort_join [OF that(1,2) itoa_no_bracket, of p] by (simp add: getHostAndPort_def)
  qed
  moreover have "1 \<le> uint port \<and> uint port \<le> 65535" if "getHostAndPort authority = Inr (host, port)"
    using that
    by (auto simp: getHostAndPort_def uint_word_of_int_eq take_bit_int_eq_self
        split: if_splits option.splits)
  ultimately show ?thesis by (simp add: getHostAndPort_def)
qed

theorem getHostAndPort_spec_witness:
  "getHostAndPort (join_host_port ''::1'' (itoa 8080)) = Inr (''::1'', 8080)"
  using getHostAndPort_spec [of "[]" "''::1''" 8080] by simp

text \<open>
  The profile of a service: a service's DNS name, with any port, gives the profile named
  by the DNS name, in the namespace of the client if its token has one and else in the
  namespace of the service.
\<close>

theorem profileID_service:
  assumes "IPFamily i = []" and "CHR ''.'' \<notin> set (Name i)" and "CHR ''.'' \<notin> set (Namespace i)"
    and "set (service_fqn i domain) \<inter> {CHR '':'', CHR ''['', CHR '']''} = {}" and "1 \<le> p" "p \<le> 65535"
  shows "profileID (service_fqn i domain) tok domain =
      Inr \<lparr>Namespace = (if tok_Ns tok = [] then Namespace i else tok_Ns tok),
           Name = service_fqn i domain, IPFamily = []\<rparr> \<and>
    profileID (join_host_port (service_fqn i domain) (itoa p)) tok domain =
      profileID (service_fqn i domain) tok domain"
proof -
  have "SplitHostPort (join_host_port (service_fqn i domain) (itoa p)) = Some (service_fqn i domain, itoa p)"
    using assms(4,5) itoa_no_bracket [of p] by (intro SplitHostPort_join) auto
  moreover have "CHR '':'' \<in> set (join_host_port (service_fqn i domain) (itoa p))"
    by (simp add: join_host_port_def)
  moreover have "CHR '':'' \<notin> set (service_fqn i domain)" using assms(4) by auto
  ultimately have h: "getHostAndPort (service_fqn i domain) = Inr (service_fqn i domain, 80)"
    "getHostAndPort (join_host_port (service_fqn i domain) (itoa p)) = Inr (service_fqn i domain, word_of_int p)"
    using assms(5,6) by (simp_all add: getHostAndPort_def)
  note r = parse_service_fqn(1) [OF assms(1-3), of domain]
  show ?thesis by (simp add: profileID_def h r Let_def)
qed

theorem profileID_service_witness:
  "profileID (join_host_port ''web.ns.svc.cluster.local'' (itoa 8080)) \<lparr>tok_Ns = ''client'', tok_NodeName = [], tok_Pod = []\<rparr> ''cluster.local'' =
     Inr \<lparr>Namespace = ''client'', Name = ''web.ns.svc.cluster.local'', IPFamily = []\<rparr>"
proof -
  let ?i = "\<lparr>Namespace = ''ns'', Name = ''web'', IPFamily = []\<rparr>"
  let ?t = "\<lparr>tok_Ns = ''client'', tok_NodeName = [], tok_Pod = []\<rparr>"
  have n: "service_fqn ?i ''cluster.local'' = ''web.ns.svc.cluster.local''" by (simp add: service_fqn_def)
  from profileID_service [of ?i "''cluster.local''" 8080 ?t] show ?thesis
    by (simp add: n)
qed

end
