(* ===== verification/Profile_Translator.thy ===== *)
theory Profile_Translator
  imports Profile_Matches Go_Time Server_Names Update_Queue Weighted_Addr
begin

text \<open>
  Service profiles (\<open>controller/gen/apis/serviceprofile/v1alpha2/types.go\<close>) and their
  translation to the proxy API (\<open>profile_translator.go\<close>).

  A \<open>float32\<close> is kept as its bits: the code only copies it. A weight of the resource is the
  value its \<open>MilliValue\<close> returns. \<open>methods\<close> is the table of registered methods of the proxy
  API, \<open>fmul\<close> the rounded product in \<open>time.ParseDuration\<close>.
\<close>

section \<open>Types\<close>

record ResponseClass =
  rc_Condition :: "ResponseMatch option"
  rc_IsFailure :: bool

record RouteSpec =
  route_Name :: string
  route_Condition :: "RequestMatch option"
  route_ResponseClasses :: "ResponseClass option list"
  route_IsRetryable :: bool
  route_Timeout :: string

record RetryBudget =
  RetryRatio :: "32 word"
  MinRetriesPerSecond :: uint32
  TTL :: string

record WeightedDst =
  dst_Authority :: string
  dst_MilliValue :: int

record ServiceProfile =
  prof_Kind :: string
  prof_Name :: string
  prof_Namespace :: string
  prof_Routes :: "RouteSpec option list"
  prof_RetryBudget :: "RetryBudget option"
  prof_DstOverrides :: "WeightedDst option list"
  prof_OpaquePorts :: "uint32 fset"

record meta_Resource =
  res_Group :: string
  res_Kind :: string
  res_Name :: string
  res_Namespace :: string
  res_Port :: uint32

record pb_ResponseClass =
  pbrc_Condition :: pb_ResponseMatch
  pbrc_IsFailure :: bool

record pb_Route =
  pbr_Condition :: pb_RequestMatch
  pbr_ResponseClasses :: "pb_ResponseClass list"
  pbr_MetricsLabels :: labels
  pbr_IsRetryable :: bool
  pbr_Timeout :: "pb_Duration option"

record pb_RetryBudget =
  pbb_MinRetriesPerSecond :: uint32
  pbb_RetryRatio :: "32 word"
  pbb_Ttl :: "pb_Duration option"

record pb_WeightedDst =
  pbd_Authority :: string
  pbd_Weight :: uint32

record DestinationProfile =
  dp_ParentRef :: "meta_Resource option"
  dp_ProfileRef :: "meta_Resource option"
  dp_Routes :: "pb_Route list"
  dp_RetryBudget :: pb_RetryBudget
  dp_DstOverrides :: "pb_WeightedDst list"
  dp_FullyQualifiedName :: string
  dp_OpaqueProtocol :: bool
  dp_Endpoint :: "WeightedAddr option"

record profileTranslator =
  fullyQualifiedName :: string
  pt_port :: uint32
  parentRef :: meta_Resource

section \<open>Translation\<close>

definition newProfileTranslator :: "ServiceID \<Rightarrow> string \<Rightarrow> uint32 \<Rightarrow> profileTranslator" where
  "newProfileTranslator serviceID fqn port =
     \<lparr>fullyQualifiedName = fqn, pt_port = port,
      parentRef = \<lparr>res_Group = ''core'', res_Kind = ''Service'', res_Name = Name serviceID,
                   res_Namespace = Namespace serviceID, res_Port = port\<rparr>\<rparr>"

text \<open>The ratio \<open>0.2\<close> has the bits \<open>0x3E4CCCCD\<close>.\<close>

definition defaultRetryBudget :: pb_RetryBudget where
  "defaultRetryBudget =
     \<lparr>pbb_MinRetriesPerSecond = 10, pbb_RetryRatio = 1045220557,
      pbb_Ttl = Some \<lparr>Seconds = 10, Nanos = 0\<rparr>\<rparr>"

definition defaultServiceProfile :: "profileTranslator \<Rightarrow> DestinationProfile" where
  "defaultServiceProfile pt =
     \<lparr>dp_ParentRef = None, dp_ProfileRef = None, dp_Routes = [], dp_RetryBudget = defaultRetryBudget,
      dp_DstOverrides = [], dp_FullyQualifiedName = fullyQualifiedName pt, dp_OpaqueProtocol = False,
      dp_Endpoint = None\<rparr>"

definition toResponseClass :: "ResponseClass option \<Rightarrow> (profile_error, pb_ResponseClass) go_result" where
  "toResponseClass rc = (case rc of
     None \<Rightarrow> None
   | Some rc \<Rightarrow> go_bind (toResponseMatch (rc_Condition rc)) (\<lambda>cond.
       go_ok \<lparr>pbrc_Condition = cond, pbrc_IsFailure = rc_IsFailure rc\<rparr>))"

text \<open>A loop that translates the entries of a slice one by one and stops at the first error.\<close>

fun go_each :: "('a \<Rightarrow> ('e, 'b) go_result) \<Rightarrow> 'a list \<Rightarrow> ('e, 'b list) go_result" where
  "go_each f [] = go_ok []"
| "go_each f (x # xs) = go_bind (f x) (\<lambda>y. go_bind (go_each f xs) (\<lambda>ys. go_ok (y # ys)))"

definition toRoute ::
  "(string \<Rightarrow> int option) \<Rightarrow> (nat \<Rightarrow> nat \<Rightarrow> nat \<Rightarrow> nat) \<Rightarrow> RouteSpec option \<Rightarrow> (profile_error, pb_Route) go_result" where
  "toRoute methods fmul route = (case route of
     None \<Rightarrow> None
   | Some route \<Rightarrow>
       go_bind (toRequestMatch methods (route_Condition route)) (\<lambda>cond.
       go_bind (go_each toResponseClass (route_ResponseClasses route)) (\<lambda>rcs.
       let timeout = (if route_Timeout route \<noteq> []
             then (case ParseDuration fmul (route_Timeout route) of None \<Rightarrow> 0 | Some d \<Rightarrow> d) else 0)
       in go_ok \<lparr>pbr_Condition = cond, pbr_ResponseClasses = rcs,
                 pbr_MetricsLabels = fmupd ''route'' (route_Name route) fmempty,
                 pbr_IsRetryable = route_IsRetryable route, pbr_Timeout = toDuration timeout\<rparr>)))"

definition millisPerDecimilli :: int where
  "millisPerDecimilli = 10"

definition toDstOverride :: "uint32 \<Rightarrow> WeightedDst \<Rightarrow> pb_WeightedDst" where
  "toDstOverride port dst =
     \<lparr>pbd_Authority = (if SplitHostPort (dst_Authority dst) = None
         then join_host_port (dst_Authority dst) (itoa (uint port)) else dst_Authority dst),
      pbd_Weight = word_of_int (dst_MilliValue dst * millisPerDecimilli)\<rparr>"

definition toDstOverrides :: "WeightedDst option list \<Rightarrow> uint32 \<Rightarrow> pb_WeightedDst list option" where
  "toDstOverrides dsts port =
     (if None \<in> set dsts then None else Some (map (toDstOverride port \<circ> the) dsts))"

definition retry_budget ::
  "(nat \<Rightarrow> nat \<Rightarrow> nat \<Rightarrow> nat) \<Rightarrow> RetryBudget option \<Rightarrow> (profile_error, pb_RetryBudget) go_result" where
  "retry_budget fmul rb = (case rb of
     None \<Rightarrow> go_ok defaultRetryBudget
   | Some rb \<Rightarrow> (case ParseDuration fmul (TTL rb) of
       None \<Rightarrow> go_err (InvalidDuration (TTL rb))
     | Some ttl \<Rightarrow> go_ok \<lparr>pbb_MinRetriesPerSecond = MinRetriesPerSecond rb,
         pbb_RetryRatio = RetryRatio rb, pbb_Ttl = toDuration ttl\<rparr>))"

definition profile_ref :: "ServiceProfile \<Rightarrow> meta_Resource" where
  "profile_ref profile =
     \<lparr>res_Group = ''linkerd.io'', res_Kind = prof_Kind profile, res_Name = prof_Name profile,
      res_Namespace = prof_Namespace profile, res_Port = 0\<rparr>"

definition createDestinationProfile ::
  "(string \<Rightarrow> int option) \<Rightarrow> (nat \<Rightarrow> nat \<Rightarrow> nat \<Rightarrow> nat) \<Rightarrow> profileTranslator \<Rightarrow> ServiceProfile option \<Rightarrow>
     (profile_error, DestinationProfile) go_result" where
  "createDestinationProfile methods fmul pt profile = (case profile of
     None \<Rightarrow> None
   | Some profile \<Rightarrow>
       go_bind (go_each (toRoute methods fmul) (prof_Routes profile)) (\<lambda>routes.
       go_bind (retry_budget fmul (prof_RetryBudget profile)) (\<lambda>budget.
       case toDstOverrides (prof_DstOverrides profile) (pt_port pt) of
         None \<Rightarrow> None
       | Some dsts \<Rightarrow>
           go_ok \<lparr>dp_ParentRef = Some (parentRef pt), dp_ProfileRef = Some (profile_ref profile),
                  dp_Routes = routes, dp_RetryBudget = budget, dp_DstOverrides = dsts,
                  dp_FullyQualifiedName = fullyQualifiedName pt,
                  dp_OpaqueProtocol = (pt_port pt |\<in>| prof_OpaquePorts profile),
                  dp_Endpoint = None\<rparr>)))"

text \<open>One update taken off the queue: the messages it sends, or a panic.\<close>

definition pt_update ::
  "(string \<Rightarrow> int option) \<Rightarrow> (nat \<Rightarrow> nat \<Rightarrow> nat \<Rightarrow> nat) \<Rightarrow> profileTranslator \<Rightarrow> ServiceProfile option \<Rightarrow>
     DestinationProfile list option" where
  "pt_update methods fmul pt profile =
     (if profile = None then Some [defaultServiceProfile pt]
      else (case createDestinationProfile methods fmul pt profile of
          None \<Rightarrow> None
        | Some (Inl _) \<Rightarrow> Some []
        | Some (Inr destinationProfile) \<Rightarrow> Some [destinationProfile]))"

section \<open>What a profile becomes\<close>

lemma go_each_ok_iff: "go_each f xs = go_ok ys \<longleftrightarrow> list_all2 (\<lambda>x y. f x = go_ok y) xs ys"
  by (induction xs arbitrary: ys) (auto simp: list_all2_Cons1)

text \<open>What the resource's schema and the validating webhook ensure of an accepted profile.\<close>

definition valid_class :: "ResponseClass option \<Rightarrow> bool" where
  "valid_class rc = (case rc of
     None \<Rightarrow> False
   | Some rc \<Rightarrow> (case rc_Condition rc of None \<Rightarrow> False | Some m \<Rightarrow> ValidateResponseMatch m = go_ok ()))"

definition valid_route :: "RouteSpec option \<Rightarrow> bool" where
  "valid_route route = (case route of
     None \<Rightarrow> False
   | Some route \<Rightarrow>
       (case route_Condition route of None \<Rightarrow> False | Some m \<Rightarrow> ValidateRequestMatch m = go_ok ()) \<and>
       list_all valid_class (route_ResponseClasses route))"

definition valid_profile :: "(nat \<Rightarrow> nat \<Rightarrow> nat \<Rightarrow> nat) \<Rightarrow> ServiceProfile \<Rightarrow> bool" where
  "valid_profile fmul profile \<longleftrightarrow>
     list_all valid_route (prof_Routes profile) \<and> None \<notin> set (prof_DstOverrides profile) \<and>
     (case prof_RetryBudget profile of None \<Rightarrow> True | Some rb \<Rightarrow> ParseDuration fmul (TTL rb) \<noteq> None)"

lemma go_each_total: "(\<And>x. x \<in> set xs \<Longrightarrow> \<exists>y. f x = go_ok y) \<Longrightarrow> \<exists>ys. go_each f xs = go_ok ys"
  by (induction xs) fastforce+

lemma toRoute_total:
  assumes "valid_route route"
  shows "\<exists>r. toRoute methods fmul route = go_ok r"
proof -
  from assms obtain rt m where rt: "route = Some rt" "route_Condition rt = Some m" "ValidateRequestMatch m = go_ok ()"
    by (auto simp: valid_route_def split: option.splits)
  obtain cond where cond: "toRequestMatch methods (Some m) = go_ok cond"
    using to_request_list_holds(1) [OF rt(3)] by blast
  have "\<exists>y. toResponseClass rc = go_ok y" if "rc \<in> set (route_ResponseClasses rt)" for rc
  proof -
    from assms that rt(1) have "valid_class rc" by (simp add: valid_route_def list_all_iff)
    then obtain c m where "rc = Some c" "rc_Condition c = Some m" "ValidateResponseMatch m = go_ok ()"
      by (auto simp: valid_class_def split: option.splits)
    with to_response_list_holds(1) [of m] show ?thesis by (auto simp: toResponseClass_def)
  qed
  then obtain rcs where "go_each toResponseClass (route_ResponseClasses rt) = go_ok rcs"
    using go_each_total by blast
  with cond show ?thesis by (simp add: toRoute_def rt Let_def)
qed

text \<open>
  C30. A valid profile is translated, and sent, never dropped: one route of the message per
  route of the profile, in order, each with its condition, response classes and metric
  label; and the connection is opaque exactly when the profile lists the requested port.
\<close>

theorem valid_profile_sent:
  assumes "valid_profile fmul profile"
  shows "\<exists>dp. pt_update methods fmul pt (Some profile) = Some [dp] \<and>
    list_all2 (\<lambda>route r. toRoute methods fmul route = go_ok r) (prof_Routes profile) (dp_Routes dp) \<and>
    (dp_OpaqueProtocol dp \<longleftrightarrow> pt_port pt |\<in>| prof_OpaquePorts profile) \<and>
    dp_DstOverrides dp = map (toDstOverride (pt_port pt) \<circ> the) (prof_DstOverrides profile) \<and>
    dp_FullyQualifiedName dp = fullyQualifiedName pt \<and> dp_ParentRef dp = Some (parentRef pt)"
proof -
  obtain routes where routes: "go_each (toRoute methods fmul) (prof_Routes profile) = go_ok routes"
    using assms toRoute_total by (metis go_each_total list_all_iff valid_profile_def)
  obtain budget where "retry_budget fmul (prof_RetryBudget profile) = go_ok budget"
    using assms by (auto simp: valid_profile_def retry_budget_def split: option.splits)
  with routes assms show ?thesis
    by (simp add: pt_update_def createDestinationProfile_def valid_profile_def toDstOverrides_def
        flip: go_each_ok_iff)
qed

definition sample_profile :: ServiceProfile where
  "sample_profile =
     \<lparr>prof_Kind = ''ServiceProfile'', prof_Name = ''web.ns.svc.cluster.local'', prof_Namespace = ''ns'',
      prof_Routes = [Some \<lparr>route_Name = ''get'',
        route_Condition = Some (RequestMatch None None None ''/a'' ''GET''),
        route_ResponseClasses = [Some \<lparr>rc_Condition =
          Some (ResponseMatch None None None (Some \<lparr>Min = 500, Max = 599\<rparr>)), rc_IsFailure = True\<rparr>],
        route_IsRetryable = True, route_Timeout = ''''\<rparr>],
      prof_RetryBudget = None, prof_DstOverrides = [], prof_OpaquePorts = {|3306|}\<rparr>"

theorem valid_profile_sent_witness:
  "valid_profile (\<lambda>f u s. f * u div s) sample_profile \<and>
   (\<exists>dp. pt_update (\<lambda>_. None) (\<lambda>f u s. f * u div s)
       (newProfileTranslator \<lparr>Namespace = ''ns'', Name = ''web'', IPFamily = []\<rparr> ''web.ns.svc.cluster.local'' 3306)
       (Some sample_profile) = Some [dp] \<and> dp_OpaqueProtocol dp)"
proof -
  have v: "valid_profile (\<lambda>f u s. f * u div s) sample_profile"
    by (simp add: valid_profile_def valid_route_def valid_class_def sample_profile_def validate_status_def minStatus_def maxStatus_def)
  from valid_profile_sent [OF v, of "\<lambda>_. None"
      "newProfileTranslator \<lparr>Namespace = ''ns'', Name = ''web'', IPFamily = []\<rparr> ''web.ns.svc.cluster.local'' 3306"]
  show ?thesis using v by (auto simp: newProfileTranslator_def sample_profile_def)
qed

end
