(* ===== verification/Profile_Listeners.thy ===== *)
theory Profile_Listeners
  imports Profile_Watcher Opaque_Ports Profile_Translator
begin

text \<open>
  The chain of listeners of a \<open>GetProfile\<close> request, from the two profile watches to the
  translator: \<open>fallback_profile_listener.go\<close>, \<open>default_profile_listener.go\<close>,
  \<open>dedup_profile_listener.go\<close> and \<open>opaque_ports_adaptor.go\<close>, composed as in
  \<open>subscribeToServiceProfile\<close> and \<open>subscribeToServicesWithContext\<close> of \<open>server.go\<close>.

  Pointers to profiles are addresses; \<open>heap\<close> gives the profile at an address (objects of the
  informer caches do not change). Every listener returns its new state and the calls it makes
  of its parent, in order.
\<close>

section \<open>The listeners\<close>

text \<open>The adaptor: profiles it passes on are copies, so they have no address.\<close>

record opaquePortsAdaptor =
  opa_profile :: profile_ptr
  opa_opaquePorts :: "uint32 fset"

definition newOpaquePortsAdaptor :: opaquePortsAdaptor where
  "newOpaquePortsAdaptor = \<lparr>opa_profile = None, opa_opaquePorts = {||}\<rparr>"

definition opa_publish :: "(nat \<Rightarrow> ServiceProfile) \<Rightarrow> opaquePortsAdaptor \<Rightarrow> ServiceProfile list" where
  "opa_publish heap opa = (case opa_profile opa of
     None \<Rightarrow> []
   | Some p \<Rightarrow> [(heap p)\<lparr>prof_OpaquePorts := opa_opaquePorts opa\<rparr>])"

definition opa_Update ::
  "(nat \<Rightarrow> ServiceProfile) \<Rightarrow> opaquePortsAdaptor \<Rightarrow> profile_ptr \<Rightarrow> opaquePortsAdaptor \<times> ServiceProfile list" where
  "opa_Update heap opa profile =
     (let opa = opa\<lparr>opa_profile := profile\<rparr> in (opa, opa_publish heap opa))"

definition opa_UpdateService ::
  "(nat \<Rightarrow> ServiceProfile) \<Rightarrow> opaquePortsAdaptor \<Rightarrow> uint32 fset \<Rightarrow> opaquePortsAdaptor \<times> ServiceProfile list" where
  "opa_UpdateService heap opa ports =
     (let opa = opa\<lparr>opa_opaquePorts := ports\<rparr> in (opa, opa_publish heap opa))"

record dedupProfileListener =
  dedup_state :: profile_ptr
  dedup_initialized :: bool

definition newDedupProfileListener :: dedupProfileListener where
  "newDedupProfileListener = \<lparr>dedup_state = None, dedup_initialized = False\<rparr>"

definition dedup_Update :: "dedupProfileListener \<Rightarrow> profile_ptr \<Rightarrow> dedupProfileListener \<times> profile_ptr list" where
  "dedup_Update p profile =
     (if dedup_initialized p \<and> profile = dedup_state p then (p, [])
      else (\<lparr>dedup_state = profile, dedup_initialized = True\<rparr>, [profile]))"

text \<open>The default listener has no state but the address of the default profile.\<close>

definition default_Update :: "nat \<Rightarrow> profile_ptr \<Rightarrow> profile_ptr list" where
  "default_Update d profile = [if profile = None then Some d else profile]"

record childListener =
  child_state :: profile_ptr
  child_initialized :: bool

record fallbackProfileListener =
  fb_primary :: childListener
  fb_backup :: childListener

definition newFallbackProfileListener :: fallbackProfileListener where
  "newFallbackProfileListener =
     \<lparr>fb_primary = \<lparr>child_state = None, child_initialized = False\<rparr>,
      fb_backup = \<lparr>child_state = None, child_initialized = False\<rparr>\<rparr>"

definition fallback_publish :: "fallbackProfileListener \<Rightarrow> profile_ptr list" where
  "fallback_publish f =
     (if \<not> child_initialized (fb_primary f) then []
      else if \<not> child_initialized (fb_backup f) then []
      else if child_state (fb_primary f) = None \<and> child_state (fb_backup f) \<noteq> None
      then [child_state (fb_backup f)]
      else [child_state (fb_primary f)])"

text \<open>\<open>childListener.Update\<close>, of the primary and of the backup child.\<close>

definition primary_Update ::
  "fallbackProfileListener \<Rightarrow> profile_ptr \<Rightarrow> fallbackProfileListener \<times> profile_ptr list" where
  "primary_Update f profile =
     (let f = f\<lparr>fb_primary := \<lparr>child_state = profile, child_initialized = True\<rparr>\<rparr>
      in (f, fallback_publish f))"

definition backup_Update ::
  "fallbackProfileListener \<Rightarrow> profile_ptr \<Rightarrow> fallbackProfileListener \<times> profile_ptr list" where
  "backup_Update f profile =
     (let f = f\<lparr>fb_backup := \<lparr>child_state = profile, child_initialized = True\<rparr>\<rparr>
      in (f, fallback_publish f))"

section \<open>The chain\<close>

record profile_chain =
  ch_fallback :: fallbackProfileListener
  ch_dedup :: dedupProfileListener
  ch_adaptor :: opaquePortsAdaptor
  ch_sent :: "ServiceProfile list"

definition new_chain :: profile_chain where
  "new_chain = \<lparr>ch_fallback = newFallbackProfileListener, ch_dedup = newDedupProfileListener,
     ch_adaptor = newOpaquePortsAdaptor, ch_sent = []\<rparr>"

text \<open>An update that reaches the default listener, and what follows from it.\<close>

definition chain_deliver :: "(nat \<Rightarrow> ServiceProfile) \<Rightarrow> nat \<Rightarrow> profile_chain \<Rightarrow> profile_ptr \<Rightarrow> profile_chain" where
  "chain_deliver heap d ch profile =
     fold (\<lambda>p ch. case dedup_Update (ch_dedup ch) p of (dd, ps) \<Rightarrow>
       fold (\<lambda>p ch. case opa_Update heap (ch_adaptor ch) p of (opa, out) \<Rightarrow>
           ch\<lparr>ch_adaptor := opa, ch_sent := ch_sent ch @ out\<rparr>) ps (ch\<lparr>ch_dedup := dd\<rparr>))
     (default_Update d profile) ch"

definition chain_primary :: "(nat \<Rightarrow> ServiceProfile) \<Rightarrow> nat \<Rightarrow> profile_chain \<Rightarrow> profile_ptr \<Rightarrow> profile_chain" where
  "chain_primary heap d ch profile = (case primary_Update (ch_fallback ch) profile of (f, ps) \<Rightarrow>
     foldl (chain_deliver heap d) (ch\<lparr>ch_fallback := f\<rparr>) ps)"

definition chain_backup :: "(nat \<Rightarrow> ServiceProfile) \<Rightarrow> nat \<Rightarrow> profile_chain \<Rightarrow> profile_ptr \<Rightarrow> profile_chain" where
  "chain_backup heap d ch profile = (case backup_Update (ch_fallback ch) profile of (f, ps) \<Rightarrow>
     foldl (chain_deliver heap d) (ch\<lparr>ch_fallback := f\<rparr>) ps)"

definition chain_ports :: "(nat \<Rightarrow> ServiceProfile) \<Rightarrow> profile_chain \<Rightarrow> uint32 fset \<Rightarrow> profile_chain" where
  "chain_ports heap ch ports = (case opa_UpdateService heap (ch_adaptor ch) ports of (opa, out) \<Rightarrow>
     ch\<lparr>ch_adaptor := opa, ch_sent := ch_sent ch @ out\<rparr>)"

datatype chain_event = ChPrimary profile_ptr | ChBackup profile_ptr | ChPorts "uint32 fset"

fun chain_step :: "(nat \<Rightarrow> ServiceProfile) \<Rightarrow> nat \<Rightarrow> profile_chain \<Rightarrow> chain_event \<Rightarrow> profile_chain" where
  "chain_step heap d ch (ChPrimary p) = chain_primary heap d ch p"
| "chain_step heap d ch (ChBackup p) = chain_backup heap d ch p"
| "chain_step heap d ch (ChPorts ports) = chain_ports heap ch ports"

section \<open>What the chain sends\<close>

text \<open>
  The profile that counts: the client's, else the service's, else the default; with the
  opaque ports of the service.
\<close>

definition effective_ptr :: "nat \<Rightarrow> profile_ptr \<Rightarrow> profile_ptr \<Rightarrow> nat" where
  "effective_ptr d primary backup =
     (case primary of Some p \<Rightarrow> p | None \<Rightarrow> (case backup of Some p \<Rightarrow> p | None \<Rightarrow> d))"

definition effective_profile ::
  "(nat \<Rightarrow> ServiceProfile) \<Rightarrow> nat \<Rightarrow> profile_ptr \<Rightarrow> profile_ptr \<Rightarrow> uint32 fset \<Rightarrow> ServiceProfile" where
  "effective_profile heap d primary backup ports =
     (heap (effective_ptr d primary backup))\<lparr>prof_OpaquePorts := ports\<rparr>"

definition chain_ready :: "profile_chain \<Rightarrow> bool" where
  "chain_ready ch \<longleftrightarrow>
     child_initialized (fb_primary (ch_fallback ch)) \<and> child_initialized (fb_backup (ch_fallback ch))"

text \<open>The listeners below the fallback: what was delivered last, if anything, was sent last.\<close>

definition down_ok :: "(nat \<Rightarrow> ServiceProfile) \<Rightarrow> profile_chain \<Rightarrow> nat option \<Rightarrow> bool" where
  "down_ok heap ch q \<longleftrightarrow>
     opa_profile (ch_adaptor ch) = q \<and> dedup_initialized (ch_dedup ch) = (q \<noteq> None) \<and>
     (q \<noteq> None \<longrightarrow> dedup_state (ch_dedup ch) = q) \<and> (ch_sent ch = [] \<longleftrightarrow> q = None) \<and>
     (\<forall>p. q = Some p \<longrightarrow> last (ch_sent ch) = (heap p)\<lparr>prof_OpaquePorts := opa_opaquePorts (ch_adaptor ch)\<rparr>)"

definition chain_ptr :: "nat \<Rightarrow> profile_chain \<Rightarrow> nat option" where
  "chain_ptr d ch =
     (if chain_ready ch
      then Some (effective_ptr d (child_state (fb_primary (ch_fallback ch))) (child_state (fb_backup (ch_fallback ch))))
      else None)"

definition chain_ok :: "(nat \<Rightarrow> ServiceProfile) \<Rightarrow> nat \<Rightarrow> profile_chain \<Rightarrow> bool" where
  "chain_ok heap d ch \<longleftrightarrow> down_ok heap ch (chain_ptr d ch)"

lemma chain_ok_new: "chain_ok heap d new_chain"
  by (simp add: chain_ok_def down_ok_def chain_ptr_def chain_ready_def new_chain_def newFallbackProfileListener_def
      newDedupProfileListener_def newOpaquePortsAdaptor_def)

lemmas chain_defs = chain_deliver_def dedup_Update_def default_Update_def opa_Update_def
  opa_UpdateService_def opa_publish_def fallback_publish_def Let_def

lemma chain_primary_fields [simp]:
  "fb_primary (ch_fallback (chain_primary heap d ch p)) = \<lparr>child_state = p, child_initialized = True\<rparr>"
  "fb_backup (ch_fallback (chain_primary heap d ch p)) = fb_backup (ch_fallback ch)"
  "opa_opaquePorts (ch_adaptor (chain_primary heap d ch p)) = opa_opaquePorts (ch_adaptor ch)"
  by (simp_all add: chain_primary_def primary_Update_def chain_defs)

lemma chain_backup_fields [simp]:
  "fb_backup (ch_fallback (chain_backup heap d ch p)) = \<lparr>child_state = p, child_initialized = True\<rparr>"
  "fb_primary (ch_fallback (chain_backup heap d ch p)) = fb_primary (ch_fallback ch)"
  "opa_opaquePorts (ch_adaptor (chain_backup heap d ch p)) = opa_opaquePorts (ch_adaptor ch)"
  by (simp_all add: chain_backup_def backup_Update_def chain_defs)

lemma chain_ports_fields [simp]:
  "ch_fallback (chain_ports heap ch ports) = ch_fallback ch"
  "opa_opaquePorts (ch_adaptor (chain_ports heap ch ports)) = ports"
  by (simp_all add: chain_ports_def chain_defs)

lemma chain_deliver_ok:
  assumes "down_ok heap ch q"
  shows "down_ok heap (chain_deliver heap d ch p) (Some (case p of None \<Rightarrow> d | Some p \<Rightarrow> p))"
    and "ch_fallback (chain_deliver heap d ch p) = ch_fallback ch"
  using assms by (auto simp: chain_defs down_ok_def split: option.splits)

lemma fallback_publish_ready:
  "fallback_publish f =
     (if child_initialized (fb_primary f) \<and> child_initialized (fb_backup f)
      then [case child_state (fb_primary f) of Some p \<Rightarrow> Some p | None \<Rightarrow> child_state (fb_backup f)] else [])"
  by (auto simp: fallback_publish_def split: option.splits)

lemma deliver_published:
  assumes "down_ok heap ch q" and "\<not> chain_ready ch \<longrightarrow> q = None"
  shows "chain_ok heap d (foldl (chain_deliver heap d) ch (fallback_publish (ch_fallback ch)))"
proof (cases "chain_ready ch")
  case True
  let ?f = "ch_fallback ch"
  let ?p = "case child_state (fb_primary ?f) of Some p \<Rightarrow> Some p | None \<Rightarrow> child_state (fb_backup ?f)"
  have "foldl (chain_deliver heap d) ch (fallback_publish ?f) = chain_deliver heap d ch ?p"
    using True by (simp add: fallback_publish_ready chain_ready_def)
  moreover have "chain_ptr d (chain_deliver heap d ch ?p) = Some (case ?p of None \<Rightarrow> d | Some p \<Rightarrow> p)"
    using True
    by (auto simp: chain_ptr_def chain_ready_def chain_deliver_ok(2) [OF assms(1)] effective_ptr_def
        split: option.splits)
  ultimately show ?thesis using chain_deliver_ok(1) [OF assms(1), of d ?p] by (simp only: chain_ok_def)
next
  case False
  with assms show ?thesis by (auto simp: chain_ok_def chain_ptr_def chain_ready_def fallback_publish_ready)
qed

lemma down_ok_fallback [simp]: "down_ok heap (ch\<lparr>ch_fallback := f\<rparr>) q = down_ok heap ch q"
  by (simp add: down_ok_def)

lemma chain_step_ok:
  assumes "chain_ok heap d ch"
  shows "chain_ok heap d (chain_step heap d ch ev)"
proof (cases ev)
  case (ChPrimary p)
  let ?f = "(ch_fallback ch)\<lparr>fb_primary := \<lparr>child_state = p, child_initialized = True\<rparr>\<rparr>"
  have "chain_ok heap d (foldl (chain_deliver heap d) (ch\<lparr>ch_fallback := ?f\<rparr>)
      (fallback_publish (ch_fallback (ch\<lparr>ch_fallback := ?f\<rparr>))))"
    using assms by (intro deliver_published [of _ _ "chain_ptr d ch"])
      (auto simp: chain_ok_def chain_ptr_def chain_ready_def)
  then show ?thesis by (simp add: ChPrimary chain_primary_def primary_Update_def Let_def)
next
  case (ChBackup p)
  let ?f = "(ch_fallback ch)\<lparr>fb_backup := \<lparr>child_state = p, child_initialized = True\<rparr>\<rparr>"
  have "chain_ok heap d (foldl (chain_deliver heap d) (ch\<lparr>ch_fallback := ?f\<rparr>)
      (fallback_publish (ch_fallback (ch\<lparr>ch_fallback := ?f\<rparr>))))"
    using assms by (intro deliver_published [of _ _ "chain_ptr d ch"])
      (auto simp: chain_ok_def chain_ptr_def chain_ready_def)
  then show ?thesis by (simp add: ChBackup chain_backup_def backup_Update_def Let_def)
next
  case (ChPorts ports)
  have "chain_ptr d (chain_ports heap ch ports) = chain_ptr d ch"
    by (simp add: chain_ptr_def chain_ready_def)
  with assms show ?thesis
    by (auto simp: ChPorts chain_ok_def down_ok_def chain_ports_def opa_UpdateService_def opa_publish_def
        Let_def split: option.splits)
qed

lemma chain_run_ok: "chain_ok heap d ch \<Longrightarrow> chain_ok heap d (foldl (chain_step heap d) ch evs)"
  by (induction evs arbitrary: ch) (simp_all add: chain_step_ok)

section \<open>The chain as a listener\<close>

interpretation primary_child: profile_listener "chain_primary heap d" "\<lambda>ch. child_state (fb_primary (ch_fallback ch))"
  for heap d
  by unfold_locales simp

interpretation backup_child: profile_listener "chain_backup heap d" "\<lambda>ch. child_state (fb_backup (ch_fallback ch))"
  for heap d
  by unfold_locales simp

interpretation adaptor: ports_listener "chain_ports heap" "\<lambda>ch. opa_opaquePorts (ch_adaptor ch)"
  for heap
  by unfold_locales simp

text \<open>The calls of one kind among the events of a chain.\<close>

definition primaries :: "chain_event list \<Rightarrow> profile_ptr list" where
  "primaries evs = List.map_filter (\<lambda>ev. case ev of ChPrimary p \<Rightarrow> Some p | _ \<Rightarrow> None) evs"

definition backups :: "chain_event list \<Rightarrow> profile_ptr list" where
  "backups evs = List.map_filter (\<lambda>ev. case ev of ChBackup p \<Rightarrow> Some p | _ \<Rightarrow> None) evs"

definition port_updates :: "chain_event list \<Rightarrow> uint32 fset list" where
  "port_updates evs = List.map_filter (\<lambda>ev. case ev of ChPorts ps \<Rightarrow> Some ps | _ \<Rightarrow> None) evs"

lemma chain_run_primary:
  "child_state (fb_primary (ch_fallback (foldl (chain_step heap d) ch evs))) =
     child_state (fb_primary (ch_fallback (foldl (chain_primary heap d) ch (primaries evs))))"
  "child_initialized (fb_primary (ch_fallback (foldl (chain_step heap d) ch evs))) =
     (child_initialized (fb_primary (ch_fallback ch)) \<or> primaries evs \<noteq> [])"
  unfolding primary_child.profile_of_foldl
proof (induction evs arbitrary: ch)
  case (Cons ev evs)
  case 1
  with Cons(1) show ?case by (cases ev) (simp_all add: primaries_def List.map_filter_simps)
next
  case (Cons ev evs)
  case 2
  with Cons(2) show ?case by (cases ev) (simp_all add: primaries_def List.map_filter_simps)
qed (simp_all add: primaries_def List.map_filter_simps)

lemma chain_run_backup:
  "child_state (fb_backup (ch_fallback (foldl (chain_step heap d) ch evs))) =
     child_state (fb_backup (ch_fallback (foldl (chain_backup heap d) ch (backups evs))))"
  "child_initialized (fb_backup (ch_fallback (foldl (chain_step heap d) ch evs))) =
     (child_initialized (fb_backup (ch_fallback ch)) \<or> backups evs \<noteq> [])"
  unfolding backup_child.profile_of_foldl
proof (induction evs arbitrary: ch)
  case (Cons ev evs)
  case 1
  with Cons(1) show ?case by (cases ev) (simp_all add: backups_def List.map_filter_simps)
next
  case (Cons ev evs)
  case 2
  with Cons(2) show ?case by (cases ev) (simp_all add: backups_def List.map_filter_simps)
qed (simp_all add: backups_def List.map_filter_simps)

lemma chain_run_ports:
  "opa_opaquePorts (ch_adaptor (foldl (chain_step heap d) ch evs)) =
     opa_opaquePorts (ch_adaptor (foldl (chain_ports heap) ch (port_updates evs)))"
  unfolding adaptor.ports_of_foldl
proof (induction evs arbitrary: ch)
  case (Cons ev evs)
  then show ?case by (cases ev) (simp_all add: port_updates_def List.map_filter_simps)
qed (simp_all add: port_updates_def List.map_filter_simps)

lemma chain_sent:
  assumes "primaries evs \<noteq> []" "backups evs \<noteq> []" and ch_def: "ch = foldl (chain_step heap d) new_chain evs"
  shows "ch_sent ch \<noteq> [] \<and> last (ch_sent ch) =
    effective_profile heap d (child_state (fb_primary (ch_fallback ch))) (child_state (fb_backup (ch_fallback ch)))
      (opa_opaquePorts (ch_adaptor ch))"
proof -
  have "chain_ready ch"
    using assms by (simp add: chain_ready_def chain_run_primary(2) chain_run_backup(2))
  moreover have "chain_ok heap d ch" unfolding ch_def by (rule chain_run_ok [OF chain_ok_new])
  ultimately show ?thesis by (simp add: chain_ok_def chain_ptr_def down_ok_def effective_profile_def)
qed

text \<open>
  The chain of listeners: nothing is sent before both watches have reported; from then on,
  whatever the interleaving of the two watches and the opaque ports, the last profile sent is
  the client's profile, else the service's, else the default, with the opaque ports last
  reported, although redundant updates are suppressed.
\<close>

theorem chain_sends_effective:
  "(ch_sent (foldl (chain_step heap d) new_chain evs) = [] \<longleftrightarrow> primaries evs = [] \<or> backups evs = []) \<and>
   (primaries evs \<noteq> [] \<longrightarrow> backups evs \<noteq> [] \<longrightarrow>
      last (ch_sent (foldl (chain_step heap d) new_chain evs)) =
        effective_profile heap d (last (primaries evs)) (last (backups evs)) (last ({||} # port_updates evs)))"
proof -
  let ?ch = "foldl (chain_step heap d) new_chain evs"
  have fold_last: "foldl (\<lambda>_ p. p) x ps = last (x # ps)" for x and ps :: "'a list"
    by (induction ps arbitrary: x) simp_all
  have "child_state (fb_primary (ch_fallback ?ch)) = last (None # primaries evs)"
    "child_state (fb_backup (ch_fallback ?ch)) = last (None # backups evs)"
    "opa_opaquePorts (ch_adaptor ?ch) = last ({||} # port_updates evs)"
    unfolding chain_run_primary chain_run_backup chain_run_ports
      primary_child.profile_of_foldl backup_child.profile_of_foldl adaptor.ports_of_foldl fold_last
    by (simp_all add: new_chain_def newFallbackProfileListener_def newOpaquePortsAdaptor_def)
  with chain_sent [of evs ?ch heap d] have "primaries evs \<noteq> [] \<longrightarrow> backups evs \<noteq> [] \<longrightarrow> ch_sent ?ch \<noteq> [] \<and>
      last (ch_sent ?ch) =
        effective_profile heap d (last (primaries evs)) (last (backups evs)) (last ({||} # port_updates evs))"
    by simp
  moreover have "ch_sent ?ch = []" if "primaries evs = [] \<or> backups evs = []"
  proof -
    have "\<not> chain_ready ?ch"
      using that by (auto simp: chain_ready_def chain_run_primary(2) chain_run_backup(2) new_chain_def
          newFallbackProfileListener_def)
    moreover have "chain_ok heap d ?ch" by (rule chain_run_ok [OF chain_ok_new])
    ultimately show ?thesis by (simp add: chain_ok_def chain_ptr_def down_ok_def)
  qed
  ultimately show ?thesis by blast
qed

theorem chain_sends_effective_witness:
  "last (ch_sent (foldl (chain_step (\<lambda>p. sample_profile\<lparr>prof_Name := if p = 0 then ''default'' else ''service''\<rparr>) 0) new_chain
      [ChBackup (Some 5), ChPorts {|25|}, ChPrimary None])) =
   sample_profile\<lparr>prof_Name := ''service'', prof_OpaquePorts := {|25|}\<rparr>"
  using chain_sends_effective [of "\<lambda>p. sample_profile\<lparr>prof_Name := if p = 0 then ''default'' else ''service''\<rparr>" 0
      "[ChBackup (Some 5), ChPorts {|25|}, ChPrimary None]"]
  by (simp add: primaries_def backups_def port_updates_def List.map_filter_simps effective_profile_def effective_ptr_def)

section \<open>A request for a profile\<close>


definition sample_opw :: OpaquePortsWatcher where
  "sample_opw = fst (opw_addService (NewOpaquePortsWatcher {|25|}) sample_service)"


text \<open>
  C33. When the last request for a service ends, the watcher forgets the service's opaque
  ports. The next request is told nothing, and further updates of a service without the
  annotation tell it nothing either: its profiles have no opaque ports, although the watcher
  records the default ones.
\<close>

theorem resubscribe_hears_no_ports:
  assumes "fmlookup (opw_subscriptions opw) i = Some ss" and "ss_listeners ss = [l]"
    and "opw_Subscribe api (opw_Unsubscribe opw i l) i l' = Inr (opw', calls)"
    and "svc_ID svc = i" and "getServiceOpaquePortsAnnotation svc = Inr None"
  shows "opw_addService opw' svc = (opw', []) \<and>
    (\<exists>ss'. fmlookup (opw_subscriptions opw') i = Some ss' \<and> opaquePorts ss' = opw_defaultOpaquePorts opw) \<and>
    opa_opaquePorts (ch_adaptor (foldl (chain_ports heap) new_chain
      (calls_for l' (calls @ snd (opw_addService opw' svc))))) = {||}"
proof -
  have "opw_Unsubscribe opw i l = opw_drop i opw"
    using assms(1,2) by (subst opw_Unsubscribe_distinct)
      (auto simp: opw_listeners_def remove_listener_def swap_remove_def)
  then have sub: "calls = []" "fmlookup (opw_subscriptions opw') i =
      Some \<lparr>opaquePorts = opw_defaultOpaquePorts opw, ss_listeners = [l']\<rparr>"
    "opw_defaultOpaquePorts opw' = opw_defaultOpaquePorts opw"
    using assms(3) by (auto simp: opw_Subscribe_def opw_drop_def opw_put_def opw_gauge_def split: if_splits)
  have "opw_addService opw' svc = (opw', [])"
    using sub(2,3) assms(4,5) by (simp add: opw_addService_def)
  with sub show ?thesis by (simp add: new_chain_def newOpaquePortsAdaptor_def)
qed

theorem resubscribe_hears_no_ports_witness:
  "\<exists>opw'. opw_Subscribe sample_api (opw_Unsubscribe (opw_put \<lparr>Namespace = ''ns'', Name = ''web'', IPFamily = []\<rparr>
       \<lparr>opaquePorts = {|25|}, ss_listeners = [7]\<rparr> (NewOpaquePortsWatcher {|25|}))
       \<lparr>Namespace = ''ns'', Name = ''web'', IPFamily = []\<rparr> 7)
       \<lparr>Namespace = ''ns'', Name = ''web'', IPFamily = []\<rparr> 8 = Inr (opw', []) \<and>
     opw_addService opw' sample_service = (opw', [])"
proof -
  let ?i = "\<lparr>Namespace = ''ns'', Name = ''web'', IPFamily = []\<rparr>"
  let ?opw = "opw_put ?i \<lparr>opaquePorts = {|25|}, ss_listeners = [7]\<rparr> (NewOpaquePortsWatcher {|25|})"
  have "opw_Unsubscribe ?opw ?i 7 = opw_drop ?i ?opw"
    by (subst opw_Unsubscribe_distinct) (auto simp: opw_listeners_def remove_listener_def swap_remove_def)
  then obtain opw' where sub: "opw_Subscribe sample_api (opw_Unsubscribe ?opw ?i 7) ?i 8 = Inr (opw', [])"
    by (simp add: opw_Subscribe_def sample_service_def)
  have "svc_ID sample_service = ?i" "getServiceOpaquePortsAnnotation sample_service = Inr None"
    by (simp_all add: svc_ID_def sample_service_def getServiceOpaquePortsAnnotation_def)
  from resubscribe_hears_no_ports [of ?opw ?i, OF _ _ sub this] sub show ?thesis by auto
qed

end
