(* ===== verification/Workload_Watcher.thy ===== *)
theory Workload_Watcher
  imports Server_Names Server_Selection Workloads "HOL-Library.Multiset"
begin

text \<open>
  The watcher of single workloads (\<open>watcher/workload_watcher.go\<close>): one publisher per IP and
  port, backed by a pod or an external workload, for requests of endpoint profiles.

  \<^item> A publisher is an object of the store \<open>ww_store\<close>: listeners are given a pointer to the
    publisher's address, not a copy, so a call is a pair of a listener and a reference, and
    what the listener reads is the address at the time it looks.
  \<^item> The handlers of informer events start goroutines. They are the tasks of a bag, run in any
    order.
  \<^item> \<open>pods\<close> and \<open>ews\<close> are the contents of the pod and workload caches, for the indexers.
  \<^item> A panic is \<open>None\<close>. The result of a listener's \<open>Update\<close> matters in \<open>subscribe\<close> only; there it
    is an argument.
\<close>

section \<open>Publishers\<close>

record workloadPublisher =
  wp_addr :: Address
  wp_listeners :: "nat list"
  wp_subscribers :: nat
  wp_updates :: nat

type_synonym IPPort = "string \<times> Port"

record WorkloadWatcher =
  ww_defaultOpaquePorts :: "uint32 fset"
  ww_enableEndpointSlices :: bool
  ww_publishers :: "(IPPort, nat) fmap"
  ww_store :: "(nat, workloadPublisher) fmap"
  ww_next :: nat

type_synonym ww_calls = "(nat \<times> nat) list"

definition NewWorkloadWatcher :: "bool \<Rightarrow> uint32 fset \<Rightarrow> WorkloadWatcher" where
  "NewWorkloadWatcher enableEndpointSlices defaultOpaquePorts =
     \<lparr>ww_defaultOpaquePorts = defaultOpaquePorts, ww_enableEndpointSlices = enableEndpointSlices,
      ww_publishers = fmempty, ww_store = fmempty, ww_next = 0\<rparr>"

text \<open>The operations of a publisher return it with the listeners they call, in order.\<close>

definition wp_notify :: "workloadPublisher \<Rightarrow> workloadPublisher \<times> nat list" where
  "wp_notify wp = (wp\<lparr>wp_updates := Suc (wp_updates wp)\<rparr>, wp_listeners wp)"

definition server_protocol :: "(api_error + Address) \<Rightarrow> Address \<Rightarrow> Address" where
  "server_protocol r address = (case r of Inl _ \<Rightarrow> address | Inr address' \<Rightarrow> address')"

definition fill_pod :: "k8s_api \<Rightarrow> Pod \<Rightarrow> Address \<Rightarrow> Address" where
  "fill_pod api pod address =
     (let a = address\<lparr>addr_Pod := Some pod\<rparr>;
          a = (case api_owner api pod of
                 Inl _ \<Rightarrow> a
               | Inr (ownerKind, ownerName) \<Rightarrow> a\<lparr>OwnerKind := ownerKind, OwnerName := ownerName\<rparr>)
      in server_protocol (SetToServerProtocol api a) a)"

definition wp_updatePod :: "k8s_api \<Rightarrow> workloadPublisher \<Rightarrow> Pod option \<Rightarrow> workloadPublisher \<times> nat list" where
  "wp_updatePod api wp pod =
     (if addr_Pod (wp_addr wp) = None
      then (case pod of
          None \<Rightarrow> (wp, [])
        | Some p \<Rightarrow>
            if \<not> isRunning pod then (wp, [])
            else wp_notify (wp\<lparr>wp_addr := fill_pod api p (wp_addr wp)\<rparr>))
      else if pod = None \<or> \<not> isRunning pod
      then wp_notify (wp\<lparr>wp_addr := (wp_addr wp)\<lparr>addr_Pod := None, OwnerKind := [], OwnerName := [],
             OpaqueProtocol := False\<rparr>\<rparr>)
      else (wp, []))"

text \<open>
  The error branch of \<open>updateExternalWorkload\<close> prints the name of the workload, which is nil
  when the workload was deleted.
\<close>

definition wp_updateExternalWorkload ::
  "k8s_api \<Rightarrow> workloadPublisher \<Rightarrow> ExternalWorkload option \<Rightarrow> (workloadPublisher \<times> nat list) option" where
  "wp_updateExternalWorkload api wp externalWorkload =
     (let a = (wp_addr wp)\<lparr>addr_ExternalWorkload := externalWorkload\<rparr>;
          a = (case externalWorkload of
                 None \<Rightarrow> a
               | Some ew \<Rightarrow> (case ew_OwnerReferences ew of
                   [ref] \<Rightarrow> a\<lparr>OwnerKind := or_Kind ref, OwnerName := or_Name ref\<rparr>
                 | _ \<Rightarrow> a))
      in case SetToServerProtocolExternalWorkload api a of
           Inl _ \<Rightarrow> if externalWorkload = None then None else Some (wp_notify (wp\<lparr>wp_addr := a\<rparr>))
         | Inr a \<Rightarrow> Some (wp_notify (wp\<lparr>wp_addr := a\<rparr>)))"

text \<open>The listener is added, then called; a failed call is an error but leaves the listener.\<close>

definition wp_subscribe :: "workloadPublisher \<Rightarrow> nat \<Rightarrow> bool \<Rightarrow> bool \<times> workloadPublisher" where
  "wp_subscribe wp l accepted =
     (let ls = wp_listeners wp @ [l];
          wp = wp\<lparr>wp_listeners := ls, wp_subscribers := length ls\<rparr>
      in if accepted then (True, wp\<lparr>wp_updates := Suc (wp_updates wp)\<rparr>) else (False, wp))"

definition wp_unsubscribe :: "workloadPublisher \<Rightarrow> nat \<Rightarrow> workloadPublisher" where
  "wp_unsubscribe wp l =
     (let ls = remove_listener l (wp_listeners wp)
      in wp\<lparr>wp_listeners := ls, wp_subscribers := length ls\<rparr>)"

section \<open>Finding the workload\<close>

datatype ww_error = StatusError status_code | ApiError api_error | UpdateError

definition unique_or_conflict :: "'a list \<Rightarrow> ww_error + 'a option" where
  "unique_or_conflict xs = (case xs of
     [] \<Rightarrow> Inr None | [x] \<Rightarrow> Inr (Some x) | _ \<Rightarrow> Inl (StatusError FailedPrecondition))"

definition getPodByPodIP :: "Pod list \<Rightarrow> string \<Rightarrow> ww_error + Pod option" where
  "getPodByPodIP pods podIP = unique_or_conflict (getIndexedPods pod_ip_index pods podIP)"

definition getPodByHostIP :: "Pod list \<Rightarrow> string \<Rightarrow> Port \<Rightarrow> ww_error + Pod option" where
  "getPodByHostIP pods hostIP port =
     unique_or_conflict (getIndexedPods host_ip_index pods (join_host_port hostIP (itoa (uint port))))"

definition getExternalWorkloadByIP :: "ExternalWorkload list \<Rightarrow> string \<Rightarrow> Port \<Rightarrow> ww_error + ExternalWorkload option" where
  "getExternalWorkloadByIP ews ip port =
     unique_or_conflict (getIndexedExternalWorkloads ews (join_host_port ip (itoa (uint port))))"

definition target_pod :: "k8s_api \<Rightarrow> ObjectReference option \<Rightarrow> ww_error + Pod option" where
  "target_pod api ref = (case ref of
     None \<Rightarrow> Inr None
   | Some r \<Rightarrow>
       if ref_Kind r = ''Pod''
       then (case api_pod api (ref_Namespace r) (ref_Name r) of
           Inl e \<Rightarrow> Inl (ApiError e) | Inr pod \<Rightarrow> Inr (Some pod))
       else Inr None)"

text \<open>The first endpoint with the host name decides.\<close>

definition getEndpointByHostname :: "k8s_api \<Rightarrow> bool \<Rightarrow> string \<Rightarrow> ServiceID \<Rightarrow> ww_error + Pod option" where
  "getEndpointByHostname api enableEndpointSlices hostname svcID =
     (if enableEndpointSlices
      then (case api_slices api (Namespace svcID) (fmupd LabelServiceName (Name svcID) fmempty) of
          Inl e \<Rightarrow> Inl (ApiError e)
        | Inr sliceList \<Rightarrow>
            (case filter (\<lambda>ep. ep_Hostname ep = Some hostname) (concat (map es_Endpoints sliceList)) of
               [] \<Rightarrow> Inl (StatusError StatusNotFound)
             | ep # _ \<Rightarrow> target_pod api (ep_TargetRef ep)))
      else (case api_endpoints api (Namespace svcID) (Name svcID) of
          Inl e \<Rightarrow> Inl (ApiError e)
        | Inr eps \<Rightarrow>
            (case filter (\<lambda>ad. ea_Hostname ad = hostname) (concat (map sub_Addresses (eps_Subsets eps))) of
               [] \<Rightarrow> Inl (StatusError StatusNotFound)
             | ad # _ \<Rightarrow> target_pod api (ea_TargetRef ad))))"

text \<open>
  The workload behind a request: its IP, and its pod or external workload if there is one.
  A host name that does not lead to a pod is a nil pointer dereferenced.
\<close>

definition find_workload ::
  "k8s_api \<Rightarrow> Pod list \<Rightarrow> ExternalWorkload list \<Rightarrow> bool \<Rightarrow> ServiceID option \<Rightarrow> string \<Rightarrow> string \<Rightarrow> Port \<Rightarrow>
     (ww_error + (string \<times> Pod option \<times> ExternalWorkload option)) option" where
  "find_workload api pods ews enableEndpointSlices service hostname ip port =
     (if hostname \<noteq> []
      then (case service of
          None \<Rightarrow> None
        | Some svcID \<Rightarrow> (case getEndpointByHostname api enableEndpointSlices hostname svcID of
            Inl e \<Rightarrow> Some (Inl e)
          | Inr None \<Rightarrow> None
          | Inr (Some pod) \<Rightarrow> Some (Inr (pod_PodIP pod, Some pod, None))))
      else (case getPodByPodIP pods ip of
          Inl e \<Rightarrow> Some (Inl e)
        | Inr (Some pod) \<Rightarrow> Some (Inr (ip, Some pod, None))
        | Inr None \<Rightarrow> (case getPodByHostIP pods ip port of
            Inl e \<Rightarrow> Some (Inl e)
          | Inr (Some pod) \<Rightarrow> Some (Inr (ip, Some pod, None))
          | Inr None \<Rightarrow> (case getExternalWorkloadByIP ews ip port of
              Inl e \<Rightarrow> Some (Inl e)
            | Inr ew \<Rightarrow> Some (Inr (ip, None, ew))))))"

section \<open>The watcher\<close>

definition getWorkloadPublisher :: "WorkloadWatcher \<Rightarrow> string \<Rightarrow> Port \<Rightarrow> nat option" where
  "getWorkloadPublisher ww ip port = fmlookup (ww_publishers ww) (ip, port)"

definition new_workload_publisher ::
  "k8s_api \<Rightarrow> string \<Rightarrow> Port \<Rightarrow> Pod option \<Rightarrow> ExternalWorkload option \<Rightarrow> workloadPublisher option" where
  "new_workload_publisher api ip port pod externalWorkload =
     (let wp = \<lparr>wp_addr = base_Address ip port, wp_listeners = [], wp_subscribers = 0, wp_updates = 0\<rparr>;
          wp = (if pod \<noteq> None then fst (wp_updatePod api wp pod) else wp)
      in if externalWorkload \<noteq> None
         then map_option fst (wp_updateExternalWorkload api wp externalWorkload) else Some wp)"

definition getOrNewWorkloadPublisher ::
  "k8s_api \<Rightarrow> Pod list \<Rightarrow> ExternalWorkload list \<Rightarrow> WorkloadWatcher \<Rightarrow> ServiceID option \<Rightarrow> string \<Rightarrow> string \<Rightarrow> Port \<Rightarrow>
     (ww_error + (WorkloadWatcher \<times> nat)) option" where
  "getOrNewWorkloadPublisher api pods ews ww service hostname ip port =
     (case find_workload api pods ews (ww_enableEndpointSlices ww) service hostname ip port of
        None \<Rightarrow> None
      | Some (Inl e) \<Rightarrow> Some (Inl e)
      | Some (Inr (ip, pod, externalWorkload)) \<Rightarrow>
          (case fmlookup (ww_publishers ww) (ip, port) of
             Some r \<Rightarrow> Some (Inr (ww, r))
           | None \<Rightarrow> (case new_workload_publisher api ip port pod externalWorkload of
               None \<Rightarrow> None
             | Some wp \<Rightarrow>
                 let r = ww_next ww
                 in Some (Inr (ww\<lparr>ww_publishers := fmupd (ip, port) r (ww_publishers ww),
                                 ww_store := fmupd r wp (ww_store ww), ww_next := Suc r\<rparr>, r)))))"

text \<open>The object behind a reference; references in use are always in the store.\<close>

definition ww_deref :: "WorkloadWatcher \<Rightarrow> nat \<Rightarrow> workloadPublisher option" where
  "ww_deref ww r = fmlookup (ww_store ww) r"

definition ww_write :: "WorkloadWatcher \<Rightarrow> nat \<Rightarrow> workloadPublisher \<Rightarrow> WorkloadWatcher" where
  "ww_write ww r wp = ww\<lparr>ww_store := fmupd r wp (ww_store ww)\<rparr>"

text \<open>\<open>accepted\<close> is whether the listener took the initial update.\<close>

definition ww_Subscribe ::
  "k8s_api \<Rightarrow> Pod list \<Rightarrow> ExternalWorkload list \<Rightarrow> WorkloadWatcher \<Rightarrow> ServiceID option \<Rightarrow> string \<Rightarrow> string \<Rightarrow> Port \<Rightarrow>
     nat \<Rightarrow> bool \<Rightarrow> (ww_error \<times> WorkloadWatcher \<times> ww_calls + string \<times> WorkloadWatcher \<times> ww_calls) option" where
  "ww_Subscribe api pods ews ww service hostname ip port l accepted =
     (case getOrNewWorkloadPublisher api pods ews ww service hostname ip port of
        None \<Rightarrow> None
      | Some (Inl e) \<Rightarrow> Some (Inl (e, ww, []))
      | Some (Inr (ww, r)) \<Rightarrow> (case ww_deref ww r of
          None \<Rightarrow> None
        | Some wp \<Rightarrow> (case wp_subscribe wp l accepted of
            (ok, wp) \<Rightarrow>
              if ok then Some (Inr (IP (wp_addr wp), ww_write ww r wp, [(l, r)]))
              else Some (Inl (UpdateError, ww_write ww r wp, [(l, r)])))))"

definition ww_Unsubscribe :: "WorkloadWatcher \<Rightarrow> string \<Rightarrow> Port \<Rightarrow> nat \<Rightarrow> WorkloadWatcher" where
  "ww_Unsubscribe ww ip port l = (case getWorkloadPublisher ww ip port of
     None \<Rightarrow> ww
   | Some r \<Rightarrow> (case ww_deref ww r of
       None \<Rightarrow> ww
     | Some wp \<Rightarrow>
         let wp = wp_unsubscribe wp l;
             ww = ww_write ww r wp
         in if wp_listeners wp = []
            then ww\<lparr>ww_publishers := fmdrop (IP (wp_addr wp), addr_Port (wp_addr wp)) (ww_publishers ww)\<rparr>
            else ww))"

text \<open>An update of one publisher through its key, if there is one.\<close>

definition ww_at_key ::
  "WorkloadWatcher \<Rightarrow> IPPort \<Rightarrow> (workloadPublisher \<Rightarrow> (workloadPublisher \<times> nat list) option) \<Rightarrow>
     (WorkloadWatcher \<times> ww_calls) option" where
  "ww_at_key ww key f = (case getWorkloadPublisher ww (fst key) (snd key) of
     None \<Rightarrow> Some (ww, [])
   | Some r \<Rightarrow> (case ww_deref ww r of
       None \<Rightarrow> Some (ww, [])
     | Some wp \<Rightarrow> (case f wp of
         None \<Rightarrow> None
       | Some (wp, ls) \<Rightarrow> Some (ww_write ww r wp, map (\<lambda>l. (l, r)) ls))))"

fun ww_at_keys ::
  "WorkloadWatcher \<Rightarrow> IPPort list \<Rightarrow> (workloadPublisher \<Rightarrow> (workloadPublisher \<times> nat list) option) \<Rightarrow>
     (WorkloadWatcher \<times> ww_calls) option" where
  "ww_at_keys ww [] f = Some (ww, [])"
| "ww_at_keys ww (key # keys) f = (case ww_at_key ww key f of
     None \<Rightarrow> None
   | Some (ww1, c1) \<Rightarrow> (case ww_at_keys ww1 keys f of
       None \<Rightarrow> None
     | Some (ww2, c2) \<Rightarrow> Some (ww2, c1 @ c2)))"

definition container_port_keys :: "Pod \<Rightarrow> ContainerPort \<Rightarrow> IPPort list" where
  "container_port_keys pod containerPort =
     (if cp_ContainerPort containerPort \<noteq> 0
      then map (\<lambda>ip. (ip, cp_ContainerPort containerPort)) (pod_PodIPs pod) @
        (if pod_PodIPs pod = [] \<and> pod_PodIP pod \<noteq> [] then [(pod_PodIP pod, cp_ContainerPort containerPort)] else [])
      else []) @
     (if cp_HostPort containerPort \<noteq> 0
      then map (\<lambda>ip. (ip, cp_HostPort containerPort)) (pod_HostIPs pod) @
        (if pod_HostIPs pod = [] \<and> pod_HostIP pod \<noteq> [] then [(pod_HostIP pod, cp_HostPort containerPort)] else [])
      else [])"

definition pod_keys :: "Pod \<Rightarrow> IPPort list" where
  "pod_keys pod = concat (map (\<lambda>c. concat (map (container_port_keys pod) (c_Ports c))) (pod_Containers pod))"

definition submitPodUpdate :: "k8s_api \<Rightarrow> WorkloadWatcher \<Rightarrow> Pod \<Rightarrow> bool \<Rightarrow> (WorkloadWatcher \<times> ww_calls) option" where
  "submitPodUpdate api ww pod remove =
     ww_at_keys ww (pod_keys pod) (\<lambda>wp. Some (wp_updatePod api wp (if remove then None else Some pod)))"

definition workload_keys :: "ExternalWorkload \<Rightarrow> IPPort list" where
  "workload_keys ew = concat (map (\<lambda>port. map (\<lambda>ip. (ip, ps_Port port)) (ew_WorkloadIPs ew)) (ew_Ports ew))"

definition submitExternalWorkloadUpdate ::
  "k8s_api \<Rightarrow> WorkloadWatcher \<Rightarrow> ExternalWorkload \<Rightarrow> bool \<Rightarrow> (WorkloadWatcher \<times> ww_calls) option" where
  "submitExternalWorkloadUpdate api ww ew remove =
     ww_at_keys ww (workload_keys ew)
       (\<lambda>wp. wp_updateExternalWorkload api wp (if remove then None else Some ew))"

fun selected_by_any ::
  "k8s_api \<Rightarrow> (Server \<Rightarrow> LabelSelector option) \<Rightarrow> labels \<Rightarrow> Server list \<Rightarrow> bool" where
  "selected_by_any api sel ls [] = False"
| "selected_by_any api sel ls (s # servers) = (case api_selector api (sel s) of
     Inl _ \<Rightarrow> selected_by_any api sel ls servers
   | Inr matches \<Rightarrow> if matches ls then True else selected_by_any api sel ls servers)"

definition isPodSelectedByAny :: "k8s_api \<Rightarrow> Pod \<Rightarrow> Server list \<Rightarrow> bool" where
  "isPodSelectedByAny api pod servers = selected_by_any api srv_PodSelector (pod_Labels pod) servers"

definition isExternalWorkloadSelectedByAny :: "k8s_api \<Rightarrow> ExternalWorkload \<Rightarrow> Server list \<Rightarrow> bool" where
  "isExternalWorkloadSelectedByAny api ew servers =
     selected_by_any api srv_ExternalWorkloadSelector (ew_Labels ew) servers"

text \<open>The body of the loop of \<open>updateServers\<close>: whether the publisher's listeners are to be told.\<close>

definition wp_updateServers ::
  "k8s_api \<Rightarrow> uint32 fset \<Rightarrow> Server list \<Rightarrow> workloadPublisher \<Rightarrow> workloadPublisher \<times> bool" where
  "wp_updateServers api defaults servers wp =
     (let a = wp_addr wp;
          ports = (case addr_Pod a of
              Some pod \<Rightarrow>
                if isPodSelectedByAny api pod servers
                then Some (GetAnnotatedOpaquePorts (Some pod) defaults) else None
            | None \<Rightarrow> (case addr_ExternalWorkload a of
                Some ew \<Rightarrow>
                  if isExternalWorkloadSelectedByAny api ew servers
                  then Some (GetAnnotatedOpaquePortsForExternalWorkload (Some ew) defaults) else None
              | None \<Rightarrow> None))
      in case ports of
           None \<Rightarrow> (wp, False)
         | Some opaquePorts \<Rightarrow>
             if addr_Port a |\<in>| opaquePorts then (wp, False)
             else
               let a' = server_protocol (SetToServerProtocol api a) a
               in (wp\<lparr>wp_addr := a'\<rparr>, OpaqueProtocol a' \<noteq> OpaqueProtocol a))"

text \<open>The loop over the publishers; the order does not matter, as each is on its own.\<close>

definition updateServers :: "k8s_api \<Rightarrow> WorkloadWatcher \<Rightarrow> Server list \<Rightarrow> WorkloadWatcher \<times> nat list" where
  "updateServers api ww servers =
     (let published = (\<lambda>r. r |\<in>| fmran (ww_publishers ww));
          upd = wp_updateServers api (ww_defaultOpaquePorts ww) servers
      in (ww\<lparr>ww_store := fmmap_keys (\<lambda>r wp. if published r then fst (upd wp) else wp) (ww_store ww)\<rparr>,
          filter (\<lambda>r. published r \<and> (case ww_deref ww r of None \<Rightarrow> False | Some wp \<Rightarrow> snd (upd wp)))
            [0..<ww_next ww]))"

section \<open>Informer events\<close>

text \<open>What a handler leaves to a goroutine, and what the goroutine does.\<close>

datatype ww_task = TaskPod Pod bool | TaskWorkload ExternalWorkload bool | TaskNotify nat

definition ww_addPod :: "Pod \<Rightarrow> ww_task list" where
  "ww_addPod pod = [TaskPod pod False]"

definition ww_deletePod :: "Pod informer_obj \<Rightarrow> ww_task list" where
  "ww_deletePod obj = (case informer_object obj of None \<Rightarrow> [] | Some pod \<Rightarrow> [TaskPod pod True])"

definition ww_updatePod :: "Pod \<Rightarrow> Pod \<Rightarrow> ww_task list" where
  "ww_updatePod oldPod newPod =
     (if pod_DeletionTimestamp oldPod = None \<and> pod_DeletionTimestamp newPod \<noteq> None then []
      else [TaskPod newPod False])"

definition ww_addExternalWorkload :: "ExternalWorkload \<Rightarrow> ww_task list" where
  "ww_addExternalWorkload ew = [TaskWorkload ew False]"

definition ww_deleteExternalWorkload :: "ExternalWorkload informer_obj \<Rightarrow> ww_task list" where
  "ww_deleteExternalWorkload obj = (case informer_object obj of None \<Rightarrow> [] | Some ew \<Rightarrow> [TaskWorkload ew True])"

definition ww_updateExternalWorkload :: "ExternalWorkload \<Rightarrow> ExternalWorkload \<Rightarrow> ww_task list" where
  "ww_updateExternalWorkload oldEw newEw =
     (if ew_DeletionTimestamp oldEw = None \<and> ew_DeletionTimestamp newEw \<noteq> None then []
      else [TaskWorkload newEw False])"

definition ww_updateServer :: "k8s_api \<Rightarrow> WorkloadWatcher \<Rightarrow> Server \<Rightarrow> Server \<Rightarrow> WorkloadWatcher \<times> nat list" where
  "ww_updateServer api ww oldServer newServer = updateServers api ww [oldServer, newServer]"

definition addOrDeleteServer :: "k8s_api \<Rightarrow> WorkloadWatcher \<Rightarrow> Server informer_obj \<Rightarrow> WorkloadWatcher \<times> nat list" where
  "addOrDeleteServer api ww obj = (case informer_object obj of
     None \<Rightarrow> (ww, []) | Some server \<Rightarrow> updateServers api ww [server])"

fun run_task :: "k8s_api \<Rightarrow> WorkloadWatcher \<Rightarrow> ww_task \<Rightarrow> (WorkloadWatcher \<times> ww_calls) option" where
  "run_task api ww (TaskPod pod remove) = submitPodUpdate api ww pod remove"
| "run_task api ww (TaskWorkload ew remove) = submitExternalWorkloadUpdate api ww ew remove"
| "run_task api ww (TaskNotify r) = (case ww_deref ww r of
     None \<Rightarrow> Some (ww, [])
   | Some wp \<Rightarrow> (case wp_notify wp of (wp, ls) \<Rightarrow> Some (ww_write ww r wp, map (\<lambda>l. (l, r)) ls)))"

section \<open>Publishers follow their workload\<close>

lemma server_protocol_only_opaque:
  "server_protocol (SetToServerProtocol api a) a \<in> {a, a\<lparr>OpaqueProtocol := True\<rparr>}"
  by (auto simp: server_protocol_def dest: SetToServerProtocol_only_opaque split: sum.splits)

lemma fill_pod_Pod [simp]: "addr_Pod (fill_pod api pod a) = Some pod"
proof -
  have "addr_Pod (server_protocol (SetToServerProtocol api b) b) = addr_Pod b" for b
    using server_protocol_only_opaque [of api b] by auto
  then show ?thesis by (auto simp: fill_pod_def Let_def split: sum.splits)
qed

lemma wp_updatePod_listeners [simp]:
  "wp_listeners (fst (wp_updatePod api wp pod)) = wp_listeners wp"
  "snd (wp_updatePod api wp pod) \<in> {[], wp_listeners wp}"
  "snd (wp_updatePod api wp pod) = [] \<Longrightarrow> wp_listeners wp \<noteq> [] \<Longrightarrow> wp_addr (fst (wp_updatePod api wp pod)) = wp_addr wp"
  by (auto simp: wp_updatePod_def wp_notify_def split: option.splits)

text \<open>
  A publisher has a pod exactly when the last event it was given was a running pod; it is
  given pods in order here, and the events of pods that are not running count as deletions.
\<close>

theorem publisher_has_running_pod:
  "addr_Pod (wp_addr (fst (foldl (\<lambda>(wp, _). wp_updatePod api wp) (wp, ls) (pods @ [pod])))) \<noteq> None \<longleftrightarrow> isRunning pod"
  by (cases pod) (auto simp: wp_updatePod_def wp_notify_def isRunning_def split: prod.splits)

text \<open>
  C38. Changes of \<open>Server\<close> resources only ever turn a workload opaque: an opaque address stays
  opaque when its last server is deleted or changed, and an address of an external workload
  is never touched. In both cases no listener is told.
\<close>

theorem server_updates_never_clear:
  assumes "OpaqueProtocol (wp_addr wp) \<or> addr_Pod (wp_addr wp) = None"
  shows "wp_updateServers api defaults servers wp = (wp, False)"
proof -
  let ?a = "wp_addr wp"
  have "server_protocol (SetToServerProtocol api ?a) ?a = ?a"
    using assms server_protocol_only_opaque [of api ?a]
    by (auto simp: server_protocol_def SetToServerProtocol_def)
  then show ?thesis by (auto simp: wp_updateServers_def Let_def split: option.splits)
qed

theorem server_updates_never_clear_witness:
  "let a = (base_Address ''10.0.0.1'' 8080)\<lparr>addr_Pod := Some sample_pod, OpaqueProtocol := True\<rparr>;
       wp = \<lparr>wp_addr = a, wp_listeners = [7], wp_subscribers = 1, wp_updates = 0\<rparr>
   in wp_updateServers (sample_api\<lparr>api_servers := Inr []\<rparr>) {||} [sample_server] wp = (wp, False)"
  unfolding Let_def by (rule server_updates_never_clear) simp

text \<open>
  A request for the host name of an endpoint that is not backed by a pod, such as the
  endpoint of an external workload, panics.
\<close>

theorem hostname_without_pod_panics:
  assumes "ww_enableEndpointSlices ww" and "hostname \<noteq> []"
    and "api_slices api (Namespace svcID) (fmupd LabelServiceName (Name svcID) fmempty) = Inr (es # slices)"
    and "es_Endpoints es = ep # eps" and "ep_Hostname ep = Some hostname"
    and "\<forall>ref. ep_TargetRef ep = Some ref \<longrightarrow> ref_Kind ref \<noteq> ''Pod''"
  shows "ww_Subscribe api pods ews ww (Some svcID) hostname ip port l accepted = None"
proof -
  have "getEndpointByHostname api True hostname svcID = Inr None"
    using assms(3-6) by (auto simp: getEndpointByHostname_def target_pod_def split: option.splits)
  with assms(1,2) show ?thesis
    by (simp add: ww_Subscribe_def getOrNewWorkloadPublisher_def find_workload_def)
qed

theorem hostname_without_pod_panics_witness:
  "let api = sample_api\<lparr>api_slices := \<lambda>_ _. Inr [sample_slice\<lparr>es_Endpoints := [sample_endpoint\<lparr>ep_Hostname := Some ''vm-0'',
         ep_TargetRef := Some \<lparr>ref_Kind = ''ExternalWorkload'', ref_Name = ''vm-0'', ref_Namespace = ''ns'',
           ref_UID = []\<rparr>\<rparr>]\<rparr>]\<rparr>
   in ww_Subscribe api [] [] (NewWorkloadWatcher True {||}) (Some \<lparr>Namespace = ''ns'', Name = ''web'', IPFamily = []\<rparr>)
        ''vm-0'' [] 8080 7 True = None"
  unfolding Let_def by (rule hostname_without_pod_panics) (auto simp: NewWorkloadWatcher_def)

lemma ww_at_keys_panics:
  assumes "\<And>wp. f wp = None"
  shows "ww_at_keys ww keys f = None \<longleftrightarrow>
    (\<exists>key \<in> set keys. \<exists>r wp. fmlookup (ww_publishers ww) key = Some r \<and> fmlookup (ww_store ww) r = Some wp)"
proof (induction keys)
  case (Cons key keys)
  have "ww_at_key ww key f = (if \<exists>r wp. fmlookup (ww_publishers ww) key = Some r \<and> fmlookup (ww_store ww) r = Some wp
      then None else Some (ww, []))"
    by (auto simp: ww_at_key_def getWorkloadPublisher_def ww_deref_def assms split: option.splits)
  with Cons show ?case by (auto split: option.splits)
qed simp

text \<open>
  The deletion of an external workload panics exactly when some request is watching one of
  its addresses.
\<close>

theorem workload_deletion_panics:
  "submitExternalWorkloadUpdate api ww ew True = None \<longleftrightarrow>
     (\<exists>ip port r wp. ip \<in> set (ew_WorkloadIPs ew) \<and> port \<in> set (ew_Ports ew) \<and>
        fmlookup (ww_publishers ww) (ip, ps_Port port) = Some r \<and> fmlookup (ww_store ww) r = Some wp)"
proof -
  have "wp_updateExternalWorkload api wp None = None" for wp
    by (simp add: wp_updateExternalWorkload_def SetToServerProtocolExternalWorkload_def)
  then show ?thesis
    by (auto simp: submitExternalWorkloadUpdate_def ww_at_keys_panics workload_keys_def)
qed

section \<open>Order of events\<close>

definition ww_pod :: "WorkloadWatcher \<Rightarrow> nat \<Rightarrow> Pod option" where
  "ww_pod ww r = (case ww_deref ww r of None \<Rightarrow> None | Some wp \<Rightarrow> addr_Pod (wp_addr wp))"

lemma ww_deref_write [simp]: "ww_deref (ww_write ww r wp) r' = (if r' = r then Some wp else ww_deref ww r')"
  by (simp add: ww_deref_def ww_write_def)

lemma ww_publishers_write [simp]: "ww_publishers (ww_write ww r wp) = ww_publishers ww"
  "ww_next (ww_write ww r wp) = ww_next ww" "ww_defaultOpaquePorts (ww_write ww r wp) = ww_defaultOpaquePorts ww"
  by (simp_all add: ww_write_def)

text \<open>
  The handlers of pod events start a goroutine per event. If the goroutine of a deletion
  runs before that of the update it follows, the deleted pod stays behind the publisher; in
  the order of the events it does not.
\<close>

theorem pod_events_race:
  assumes "fmlookup (ww_publishers ww) key = Some r" and "ww_deref ww r = Some wp"
    and "addr_Pod (wp_addr wp) = None" and "pod_keys pod = [key]" and "isRunning (Some pod)"
  shows "\<exists>w1 c1 w2 c2 v1 d1 v2 d2.
    run_task api ww (TaskPod pod False) = Some (w1, c1) \<and> run_task api w1 (TaskPod pod True) = Some (w2, c2) \<and>
    ww_pod w2 r = None \<and>
    run_task api ww (TaskPod pod True) = Some (v1, d1) \<and> run_task api v1 (TaskPod pod False) = Some (v2, d2) \<and>
    ww_pod v2 r = Some pod"
proof -
  have at: "submitPodUpdate api w pod rm =
      (case wp_updatePod api wq (if rm then None else Some pod) of (wp', ls) \<Rightarrow>
        Some (ww_write w r wp', map (\<lambda>l. (l, r)) ls))"
    if "fmlookup (ww_publishers w) key = Some r" "ww_deref w r = Some wq" for w wq rm
    using that by (cases key)
      (simp add: submitPodUpdate_def assms(4) ww_at_key_def getWorkloadPublisher_def split: prod.splits)
  have run: "wp_updatePod api wp (Some pod) = wp_notify (wp\<lparr>wp_addr := fill_pod api pod (wp_addr wp)\<rparr>)"
    and skip: "wp_updatePod api wp None = (wp, [])"
    using assms(3,5) by (simp_all add: wp_updatePod_def)
  show ?thesis
    using assms(1,2)
    by (simp add: at run skip wp_notify_def ww_pod_def) (simp add: wp_updatePod_def wp_notify_def)
qed

theorem pod_events_race_witness:
  "let ww = (NewWorkloadWatcher True {||})\<lparr>ww_publishers := fmupd (''10.0.0.1'', 8080) 3 fmempty,
         ww_store := fmupd 3 \<lparr>wp_addr = base_Address ''10.0.0.1'' 8080, wp_listeners = [7], wp_subscribers = 1,
           wp_updates = 0\<rparr> fmempty, ww_next := 4\<rparr>
   in \<exists>v1 d1 v2 d2. run_task sample_api ww (TaskPod sample_pod True) = Some (v1, d1) \<and>
        run_task sample_api v1 (TaskPod sample_pod False) = Some (v2, d2) \<and> ww_pod v2 3 = Some sample_pod"
proof -
  let ?wp = "\<lparr>wp_addr = base_Address ''10.0.0.1'' 8080, wp_listeners = [7], wp_subscribers = 1, wp_updates = 0\<rparr>"
  let ?ww = "(NewWorkloadWatcher True {||})\<lparr>ww_publishers := fmupd (''10.0.0.1'', 8080) 3 fmempty,
      ww_store := fmupd 3 ?wp fmempty, ww_next := 4\<rparr>"
  have "pod_keys sample_pod = [(''10.0.0.1'', 8080)]"
    by (simp add: pod_keys_def container_port_keys_def sample_pod_def sample_container_def sample_proxy_def)
  moreover have "isRunning (Some sample_pod)" by (simp add: isRunning_def sample_pod_def)
  ultimately show ?thesis
    using pod_events_race [of ?ww "(''10.0.0.1'', 8080)" 3 ?wp sample_pod sample_api]
    by (auto simp: ww_deref_def base_Address_def)
qed

end
