(* ===== verification/Workload_Profile.thy ===== *)
theory Workload_Profile
  imports Workload_Watcher Profile_Translator
begin

text \<open>
  Endpoint profiles (\<open>endpoint_profile_translator.go\<close>): the translation of a workload's address,
  the bounded queue of updates, and the system of the workload watcher and one translator.

  The queue holds pointers to the publisher's address. The goroutine reads the address when it
  takes a pointer from the queue, so it may see a later state than the one it was called for.
\<close>

section \<open>The translator\<close>

record endpointProfileTranslator =
  ept_enableH2Upgrade :: bool
  ept_controllerNS :: string
  ept_identityTrustDomain :: string
  ept_defaultOpaquePorts :: "uint32 fset"
  ept_meshedHttp2ClientParams :: "http2_params option"

record ept_state =
  ept_updates :: "nat list"
  ept_endStreamClosed :: bool
  ept_overflows :: nat
  ept_current :: "DestinationProfile option"
  ept_sent :: "DestinationProfile list"

definition newEndpointProfileTranslator :: ept_state where
  "newEndpointProfileTranslator =
     \<lparr>ept_updates = [], ept_endStreamClosed = False, ept_overflows = 0, ept_current = None, ept_sent = []\<rparr>"

text \<open>\<open>Update\<close>: the error it returns, if any, and the new state.\<close>

definition ept_Update :: "ept_state \<Rightarrow> nat \<Rightarrow> string option \<times> ept_state" where
  "ept_Update st address =
     (if length (ept_updates st) < updateQueueCapacity
      then (None, st\<lparr>ept_updates := ept_updates st @ [address]\<rparr>)
      else if ept_endStreamClosed st then (Some ''profile update stream closed'', st)
      else (Some ''profile update queue full; aborting stream'',
            st\<lparr>ept_overflows := Suc (ept_overflows st), ept_endStreamClosed := True\<rparr>))"

definition createEndpoint ::
  "endpointProfileTranslator \<Rightarrow> Address \<Rightarrow> uint32 fset \<Rightarrow> (translate_error + WeightedAddr) option" where
  "createEndpoint ept address opaquePorts =
     (case (if addr_ExternalWorkload address \<noteq> None
            then createWeightedAddrForExternalWorkload address opaquePorts (ept_meshedHttp2ClientParams ept)
            else Some (createWeightedAddr address opaquePorts (ept_enableH2Upgrade ept)
              (ept_identityTrustDomain ept) (ept_controllerNS ept) (ept_meshedHttp2ClientParams ept))) of
        None \<Rightarrow> None
      | Some (Inl err) \<Rightarrow> Some (Inl err)
      | Some (Inr wa) \<Rightarrow> Some (Inr (case addr_Pod address of
            Some pod \<Rightarrow> wa\<lparr>wa_MetricLabels := fmupd ''namespace'' (pod_Namespace pod) (wa_MetricLabels wa)\<rparr>
          | None \<Rightarrow> (case addr_ExternalWorkload address of
              Some ew \<Rightarrow> wa\<lparr>wa_MetricLabels := fmupd ''namespace'' (ew_Namespace ew) (wa_MetricLabels wa)\<rparr>
            | None \<Rightarrow> wa))))"

definition endpoint_opaque_ports :: "endpointProfileTranslator \<Rightarrow> Address \<Rightarrow> uint32 fset" where
  "endpoint_opaque_ports ept address =
     (if addr_Pod address \<noteq> None
      then GetAnnotatedOpaquePorts (addr_Pod address) (ept_defaultOpaquePorts ept)
      else GetAnnotatedOpaquePortsForExternalWorkload (addr_ExternalWorkload address) (ept_defaultOpaquePorts ept))"

definition endpoint_profile :: "endpointProfileTranslator \<Rightarrow> Address \<Rightarrow> (translate_error + DestinationProfile) option" where
  "endpoint_profile ept address =
     (let opaquePorts = endpoint_opaque_ports ept address
      in case createEndpoint ept address opaquePorts of
           None \<Rightarrow> None
         | Some (Inl err) \<Rightarrow> Some (Inl err)
         | Some (Inr endpoint) \<Rightarrow>
             Some (Inr \<lparr>dp_ParentRef = None, dp_ProfileRef = None, dp_Routes = [], dp_RetryBudget = defaultRetryBudget,
               dp_DstOverrides = [], dp_FullyQualifiedName = [],
               dp_OpaqueProtocol = (addr_Port address |\<in>| opaquePorts \<or> OpaqueProtocol address),
               dp_Endpoint = Some endpoint\<rparr>))"

text \<open>\<open>sendOK\<close> is whether \<open>stream.Send\<close> succeeds.\<close>

definition ept_update :: "endpointProfileTranslator \<Rightarrow> bool \<Rightarrow> ept_state \<Rightarrow> Address \<Rightarrow> ept_state option" where
  "ept_update ept sendOK st address = (case endpoint_profile ept address of
     None \<Rightarrow> None
   | Some (Inl _) \<Rightarrow> Some st
   | Some (Inr profile) \<Rightarrow>
       if ept_current st = Some profile then Some st
       else if \<not> sendOK then Some st
       else Some (st\<lparr>ept_current := Some profile, ept_sent := ept_sent st @ [profile]\<rparr>))"

section \<open>The system\<close>

text \<open>
  A state is the watcher, the bag of goroutines that have not run yet, and the translator of
  listener \<open>l\<close>; the caches may differ from step to step. Requests of other listeners are steps
  of the watcher.
\<close>

inductive ww_step :: "nat \<Rightarrow> WorkloadWatcher \<times> ww_task multiset \<Rightarrow> ww_calls \<Rightarrow> WorkloadWatcher \<times> ww_task multiset \<Rightarrow> bool"
  for l where
  st_addPod: "ww_step l (ww, B) [] (ww, B + mset (ww_addPod pod))"
| st_deletePod: "ww_step l (ww, B) [] (ww, B + mset (ww_deletePod obj))"
| st_updatePod: "ww_step l (ww, B) [] (ww, B + mset (ww_updatePod oldPod newPod))"
| st_addWorkload: "ww_step l (ww, B) [] (ww, B + mset (ww_addExternalWorkload ew))"
| st_deleteWorkload: "ww_step l (ww, B) [] (ww, B + mset (ww_deleteExternalWorkload eobj))"
| st_updateWorkload: "ww_step l (ww, B) [] (ww, B + mset (ww_updateExternalWorkload oldEw newEw))"
| st_updateServer: "ww_updateServer api ww oldServer newServer = (ww', rs) \<Longrightarrow>
    ww_step l (ww, B) [] (ww', B + mset (map TaskNotify rs))"
| st_server: "addOrDeleteServer api ww sobj = (ww', rs) \<Longrightarrow> ww_step l (ww, B) [] (ww', B + mset (map TaskNotify rs))"
| st_task: "t \<in># B \<Longrightarrow> run_task api ww t = Some (ww', calls) \<Longrightarrow> ww_step l (ww, B) calls (ww', B - {#t#})"
| st_subscribe: "k \<noteq> l \<Longrightarrow> ww_Subscribe api pods ews ww service hostname ip port k accepted = Some (Inr (ip', ww', calls)) \<Longrightarrow>
    ww_step l (ww, B) calls (ww', B)"
| st_subscribe_err: "k \<noteq> l \<Longrightarrow> ww_Subscribe api pods ews ww service hostname ip port k accepted = Some (Inl (e, ww', calls)) \<Longrightarrow>
    ww_step l (ww, B) calls (ww', B)"
| st_unsubscribe: "k \<noteq> l \<Longrightarrow> ww_step l (ww, B) [] (ww_Unsubscribe ww ip port k, B)"

definition ww_ok :: "WorkloadWatcher \<Rightarrow> bool" where
  "ww_ok ww \<longleftrightarrow> (\<forall>r wp. ww_deref ww r = Some wp \<longrightarrow> r < ww_next ww)"

definition ww_hears :: "WorkloadWatcher \<Rightarrow> nat \<Rightarrow> nat \<Rightarrow> bool" where
  "ww_hears ww l r \<longleftrightarrow> (\<exists>wp. ww_deref ww r = Some wp \<and> l \<in> set (wp_listeners wp))"

text \<open>
  What a step does for a listener that neither subscribes nor unsubscribes: it stays where it is,
  only publishers it listens to call it, and an address that changes comes with a call or with a
  goroutine that will call.
\<close>

definition ww_kept :: "nat \<Rightarrow> nat \<Rightarrow> WorkloadWatcher \<Rightarrow> ww_calls \<Rightarrow> bool \<Rightarrow> WorkloadWatcher \<Rightarrow> bool" where
  "ww_kept l r ww calls told ww' \<longleftrightarrow>
     ww_hears ww' l r = ww_hears ww l r \<and>
     ((l, r) \<in> set calls \<longrightarrow> ww_hears ww l r) \<and>
     (ww_hears ww l r \<longrightarrow> map_option wp_addr (ww_deref ww' r) = map_option wp_addr (ww_deref ww r) \<or>
        (l, r) \<in> set calls \<or> told)"

lemma ww_kept_refl: "ww_kept l r ww [] told ww"
  by (simp add: ww_kept_def)

lemma ww_kept_mono: "ww_kept l r ww calls told ww' \<Longrightarrow> (told \<Longrightarrow> told') \<Longrightarrow> ww_kept l r ww calls told' ww'"
  by (auto simp: ww_kept_def)

lemma ww_kept_trans:
  "ww_kept l r ww c1 False ww1 \<Longrightarrow> ww_kept l r ww1 c2 told ww2 \<Longrightarrow> ww_kept l r ww (c1 @ c2) told ww2"
  unfolding ww_kept_def by auto

lemma ww_kept_write:
  assumes "ww_deref ww r' = Some wp" and "l \<in> set (wp_listeners wp') \<longleftrightarrow> l \<in> set (wp_listeners wp)"
    and "wp_addr wp' = wp_addr wp \<or> set ls = set (wp_listeners wp)" and "l \<in> set ls \<Longrightarrow> l \<in> set (wp_listeners wp)"
  shows "ww_kept l r ww (map (\<lambda>l. (l, r')) ls) False (ww_write ww r' wp')"
  using assms by (auto simp: ww_kept_def ww_hears_def)

lemma ww_ok_write: "ww_ok ww \<Longrightarrow> ww_deref ww r = Some wp \<Longrightarrow> ww_ok (ww_write ww r wp')"
  by (auto simp: ww_ok_def)

definition tells_listeners :: "(workloadPublisher \<Rightarrow> (workloadPublisher \<times> nat list) option) \<Rightarrow> bool" where
  "tells_listeners f \<longleftrightarrow> (\<forall>wp wp' ls. f wp = Some (wp', ls) \<longrightarrow>
      wp_listeners wp' = wp_listeners wp \<and> (wp_addr wp' = wp_addr wp \<and> ls = [] \<or> ls = wp_listeners wp))"

lemma tells_listenersD:
  "tells_listeners f \<Longrightarrow> f wp = Some (wp', ls) \<Longrightarrow>
     wp_listeners wp' = wp_listeners wp \<and> (wp_addr wp' = wp_addr wp \<and> ls = [] \<or> ls = wp_listeners wp)"
  by (simp add: tells_listeners_def)

lemma ww_at_key_kept:
  assumes "tells_listeners f" and "ww_at_key ww key f = Some (ww', calls)"
  shows "ww_kept l r ww calls False ww' \<and> (ww_ok ww \<longrightarrow> ww_ok ww')"
proof (cases "getWorkloadPublisher ww (fst key) (snd key)")
  case (Some r')
  show ?thesis
  proof (cases "ww_deref ww r'")
    case wp: (Some wp)
    with Some assms(2) obtain wp' ls where f: "f wp = Some (wp', ls)" and ww': "ww' = ww_write ww r' wp'"
      and calls: "calls = map (\<lambda>l. (l, r')) ls"
      by (cases "f wp") (auto simp: ww_at_key_def)
    have "ww_kept l r ww calls False (ww_write ww r' wp')"
      unfolding calls using tells_listenersD [OF assms(1) f] by (intro ww_kept_write [OF wp]) auto
    with ww_ok_write [OF _ wp] ww' show ?thesis by simp
  qed (use Some assms(2) in \<open>simp add: ww_at_key_def ww_kept_refl\<close>)
qed (use assms(2) in \<open>simp add: ww_at_key_def ww_kept_refl\<close>)

lemma ww_at_keys_kept:
  assumes "tells_listeners f" and "ww_at_keys ww keys f = Some (ww', calls)"
  shows "ww_kept l r ww calls False ww' \<and> (ww_ok ww \<longrightarrow> ww_ok ww')"
  using assms(2)
proof (induction keys arbitrary: ww calls)
  case (Cons key keys)
  from Cons.prems obtain ww1 c1 c2 where first: "ww_at_key ww key f = Some (ww1, c1)"
    and rest: "ww_at_keys ww1 keys f = Some (ww', c2)" "calls = c1 @ c2"
    by (auto split: option.splits)
  from Cons.IH [OF rest(1)] ww_at_key_kept [OF assms(1) first, of l r] show ?case
    unfolding rest(2) by (blast intro: ww_kept_trans)
qed (simp add: ww_kept_refl)

lemma tells_updatePod: "tells_listeners (\<lambda>wp. Some (wp_updatePod api wp pod))"
  by (auto simp: tells_listeners_def wp_updatePod_def wp_notify_def split: option.splits if_splits)

lemma tells_updateExternalWorkload: "tells_listeners (\<lambda>wp. wp_updateExternalWorkload api wp w)"
  by (auto simp: tells_listeners_def wp_updateExternalWorkload_def wp_notify_def Let_def split: sum.splits if_splits)

lemma run_task_kept:
  assumes "run_task api ww t = Some (ww', calls)"
  shows "ww_kept l r ww calls False ww' \<and> (ww_ok ww \<longrightarrow> ww_ok ww')"
proof (cases t)
  case (TaskPod pod remove)
  with assms show ?thesis by (intro ww_at_keys_kept [OF tells_updatePod]) (simp add: submitPodUpdate_def)
next
  case (TaskWorkload ew remove)
  with assms show ?thesis
    by (intro ww_at_keys_kept [OF tells_updateExternalWorkload]) (simp add: submitExternalWorkloadUpdate_def)
next
  case (TaskNotify r')
  show ?thesis
  proof (cases "ww_deref ww r'")
    case (Some wp)
    with assms TaskNotify show ?thesis
      by (auto simp: wp_notify_def intro!: ww_kept_write [OF Some] ww_ok_write [OF _ Some])
  qed (use assms TaskNotify in \<open>simp add: ww_kept_refl\<close>)
qed

lemma wp_updateServers_kept:
  "wp_listeners (fst (wp_updateServers api d servers wp)) = wp_listeners wp"
  "\<not> snd (wp_updateServers api d servers wp) \<Longrightarrow> wp_addr (fst (wp_updateServers api d servers wp)) = wp_addr wp"
  using server_protocol_only_opaque [of api "wp_addr wp"]
  by (auto simp: wp_updateServers_def Let_def split: option.splits)

lemma updateServers_kept:
  assumes "updateServers api ww servers = (ww', rs)" and "ww_ok ww"
  shows "ww_kept l r ww [] (r \<in> set rs) ww' \<and> ww_ok ww'"
proof -
  let ?upd = "wp_updateServers api (ww_defaultOpaquePorts ww) servers"
  have d: "ww_deref ww' x = map_option (\<lambda>wp. if x |\<in>| fmran (ww_publishers ww) then fst (?upd wp) else wp) (ww_deref ww x)" for x
    using assms(1) by (auto simp: updateServers_def Let_def ww_deref_def)
  have n: "ww_next ww' = ww_next ww" using assms(1) by (auto simp: updateServers_def Let_def)
  have rs: "r \<in> set rs" if "ww_deref ww r = Some wp" "r |\<in>| fmran (ww_publishers ww)" "snd (?upd wp)" for wp
    using assms that by (auto simp: updateServers_def Let_def ww_ok_def)
  have "map_option wp_addr (ww_deref ww' r) = map_option wp_addr (ww_deref ww r) \<or> r \<in> set rs"
    using rs wp_updateServers_kept(2) by (cases "ww_deref ww r") (auto simp: d)
  moreover have "ww_hears ww' l r = ww_hears ww l r"
    by (cases "ww_deref ww r") (simp_all add: ww_hears_def d wp_updateServers_kept(1))
  ultimately have "ww_kept l r ww [] (r \<in> set rs) ww'" by (auto simp: ww_kept_def)
  moreover have "ww_ok ww'" using assms(2) by (auto simp: ww_ok_def d n)
  ultimately show ?thesis ..
qed

lemma new_workload_publisher_quiet:
  "new_workload_publisher api ip port pod ew = Some wp \<Longrightarrow> wp_listeners wp = []"
  using tells_listenersD [OF tells_updatePod] tells_listenersD [OF tells_updateExternalWorkload]
  by (fastforce simp: new_workload_publisher_def Let_def split: if_splits)

lemma getOrNew_kept:
  assumes "getOrNewWorkloadPublisher api pods ews ww service hostname ip port = Some (Inr (ww', r'))" and "ww_ok ww"
  shows "ww_kept l r ww [] False ww' \<and> ww_ok ww'"
proof (cases "ww' = ww")
  case False
  with assms(1) obtain ip' wp where wp: "wp_listeners wp = []"
    and ww': "ww' = ww\<lparr>ww_publishers := fmupd (ip', port) (ww_next ww) (ww_publishers ww),
                     ww_store := fmupd (ww_next ww) wp (ww_store ww), ww_next := Suc (ww_next ww)\<rparr>"
    by (auto simp: getOrNewWorkloadPublisher_def Let_def dest: new_workload_publisher_quiet
        split: option.splits sum.splits prod.splits)
  have "ww_deref ww' x = (if x = ww_next ww then Some wp else ww_deref ww x)" for x
    by (simp add: ww' ww_deref_def)
  moreover have "\<not> ww_hears ww l (ww_next ww)" using assms(2) by (auto simp: ww_hears_def ww_ok_def)
  ultimately show ?thesis using wp assms(2)
    by (auto simp: ww_kept_def ww_hears_def ww_ok_def ww' less_Suc_eq)
qed (use assms(2) in \<open>simp add: ww_kept_refl\<close>)

lemma ww_Unsubscribe_kept:
  assumes "k \<noteq> l" and "ww_ok ww"
  shows "ww_kept l r ww [] False (ww_Unsubscribe ww ip port k) \<and> ww_ok (ww_Unsubscribe ww ip port k)"
proof -
  have mem: "l \<in> set (remove_listener k ls) \<longleftrightarrow> l \<in> set ls" for ls
    using assms(1) mset_eq_setD [OF mset_remove_listener_remove1 [of k ls]] by simp
  show ?thesis
  proof (cases "getWorkloadPublisher ww ip port")
    case (Some r')
    show ?thesis
    proof (cases "ww_deref ww r'")
      case wp: (Some wp)
      have "ww_kept l r ww (map (\<lambda>l. (l, r')) []) False (ww_write ww r' (wp_unsubscribe wp k))"
        by (rule ww_kept_write [OF wp]) (simp_all add: wp_unsubscribe_def Let_def mem)
      with Some wp ww_ok_write [OF assms(2) wp, of "wp_unsubscribe wp k"] show ?thesis
        by (simp add: ww_Unsubscribe_def Let_def ww_kept_def ww_hears_def ww_ok_def ww_deref_def)
    qed (use Some assms(2) in \<open>simp add: ww_Unsubscribe_def ww_kept_refl\<close>)
  qed (use assms(2) in \<open>simp add: ww_Unsubscribe_def ww_kept_refl\<close>)
qed

lemma ww_Subscribe_kept:
  assumes "ww_Subscribe api pods ews ww service hostname ip port k accepted \<in>
      {Some (Inr (ip', ww', calls)), Some (Inl (e, ww', calls))}"
    and "k \<noteq> l" and "ww_ok ww"
  shows "ww_kept l r ww calls False ww' \<and> ww_ok ww'"
proof (cases "getOrNewWorkloadPublisher api pods ews ww service hostname ip port")
  case (Some res)
  show ?thesis
  proof (cases res)
    case (Inr p)
    obtain ww1 r1 where p: "p = (ww1, r1)" by (cases p)
    with Inr Some have new: "getOrNewWorkloadPublisher api pods ews ww service hostname ip port = Some (Inr (ww1, r1))"
      by simp
    show ?thesis
    proof (cases "ww_deref ww1 r1")
      case (Some wp)
      let ?wp' = "snd (wp_subscribe wp k accepted)"
      from assms(1) new Some have "ww' = ww_write ww1 r1 ?wp'" "calls = map (\<lambda>l. (l, r1)) [k]"
        by (auto simp: ww_Subscribe_def split: prod.splits if_splits)
      moreover have "ww_kept l r ww1 (map (\<lambda>l. (l, r1)) [k]) False (ww_write ww1 r1 ?wp')"
        by (rule ww_kept_write [OF Some]) (use assms(2) in \<open>auto simp: wp_subscribe_def Let_def\<close>)
      ultimately show ?thesis
        using getOrNew_kept [OF new assms(3), of l r] ww_ok_write [OF _ Some] ww_kept_trans [of l r ww "[]" ww1] by auto
    qed (use assms(1) new in \<open>simp add: ww_Subscribe_def\<close>)
  qed (use assms Some in \<open>simp add: ww_Subscribe_def ww_kept_refl\<close>)
qed (use assms(1) in \<open>simp add: ww_Subscribe_def\<close>)

text \<open>A step of the watcher; \<open>rs\<close> are the publishers whose goroutines it starts.\<close>

lemma ww_step_kept:
  assumes "ww_step l (ww, B) calls (ww', B')" and "ww_ok ww"
  shows "ww_ok ww'"
    and "ww_kept l r ww calls (TaskNotify r \<in># B') ww'"
    and "TaskNotify r \<in># B \<Longrightarrow> ww_hears ww l r \<Longrightarrow> TaskNotify r \<in># B' \<or> (l, r) \<in> set calls"
proof -
  have "ww_ok ww' \<and> ww_kept l r ww calls (TaskNotify r \<in># B') ww' \<and>
    (TaskNotify r \<in># B \<longrightarrow> ww_hears ww l r \<longrightarrow> TaskNotify r \<in># B' \<or> (l, r) \<in> set calls)"
    using assms(1)
  proof (cases rule: ww_step.cases)
    case (st_updateServer api oldServer newServer rs)
    from st_updateServer(3) have "updateServers api ww [oldServer, newServer] = (ww', rs)" by (simp add: ww_updateServer_def)
    from updateServers_kept [OF this assms(2), of l r] st_updateServer(1,2) show ?thesis by (auto elim!: ww_kept_mono)
  next
    case (st_server api sobj rs)
    have "ww_kept l r ww [] (r \<in> set rs) ww' \<and> ww_ok ww'"
      using st_server(3) assms(2) updateServers_kept [OF _ assms(2)]
      by (auto simp: addOrDeleteServer_def ww_kept_refl split: option.splits)
    with st_server(1,2) show ?thesis by (auto elim!: ww_kept_mono)
  next
    case (st_task t api)
    then have task: "run_task api ww t = Some (ww', calls)" "B' = B - {#t#}" by simp_all
    then have "(l, r) \<in> set calls" if "t = TaskNotify r" "ww_hears ww l r"
      using that by (auto simp: ww_hears_def wp_notify_def)
    moreover have "t \<noteq> TaskNotify r \<Longrightarrow> TaskNotify r \<in># B \<Longrightarrow> TaskNotify r \<in># B'"
      by (auto simp: task(2) in_diff_count)
    ultimately show ?thesis using run_task_kept [OF task(1), of l r] assms(2) by (auto elim!: ww_kept_mono)
  next
    case (st_subscribe k api pods ews service hostname ip port accepted ip')
    with ww_Subscribe_kept [OF _ _ assms(2), of api pods ews service hostname ip port k accepted ip' ww' calls _ l r]
    show ?thesis by (auto elim!: ww_kept_mono)
  next
    case (st_subscribe_err k api pods ews service hostname ip port accepted e)
    with ww_Subscribe_kept [OF _ _ assms(2), of api pods ews service hostname ip port k accepted _ ww' calls e l r]
    show ?thesis by (auto elim!: ww_kept_mono)
  next
    case (st_unsubscribe k ip port)
    with ww_Unsubscribe_kept [OF _ assms(2), of k l r ip port] show ?thesis by (auto elim!: ww_kept_mono)
  qed (use assms(2) in \<open>auto simp: ww_kept_refl\<close>)
  then show "ww_ok ww'"
    and "ww_kept l r ww calls (TaskNotify r \<in># B') ww'"
    and "TaskNotify r \<in># B \<Longrightarrow> ww_hears ww l r \<Longrightarrow> TaskNotify r \<in># B' \<or> (l, r) \<in> set calls" by blast+
qed

section \<open>The translator follows the publisher\<close>

text \<open>
  The watcher with the translator of listener \<open>l\<close>: a step of the watcher, whose calls to \<open>l\<close> are
  enqueued, or the translator's goroutine taking a pointer from the queue, on a stream that sends.
\<close>

inductive ept_step ::
  "endpointProfileTranslator \<Rightarrow> nat \<Rightarrow> WorkloadWatcher \<times> ww_task multiset \<times> ept_state \<Rightarrow>
     WorkloadWatcher \<times> ww_task multiset \<times> ept_state \<Rightarrow> bool"
  for ept l where
  es_watch: "ww_step l (ww, B) calls (ww', B') \<Longrightarrow>
    ept_step ept l (ww, B, st) (ww', B', foldl (\<lambda>st r. snd (ept_Update st r)) st (calls_for l calls))"
| es_take: "ept_updates st = r # rs \<Longrightarrow> ww_deref ww r = Some wp \<Longrightarrow>
    ept_update ept True (st\<lparr>ept_updates := rs\<rparr>) (wp_addr wp) = Some st' \<Longrightarrow>
    ept_step ept l (ww, B, st) (ww, B, st')"

definition profile_told :: "endpointProfileTranslator \<Rightarrow> WorkloadWatcher \<Rightarrow> nat \<Rightarrow> ept_state \<Rightarrow> bool" where
  "profile_told ept ww r st \<longleftrightarrow> (case ww_deref ww r of
     None \<Rightarrow> False
   | Some wp \<Rightarrow> (case endpoint_profile ept (wp_addr wp) of
       None \<Rightarrow> False
     | Some (Inl _) \<Rightarrow> True
     | Some (Inr profile) \<Rightarrow> ept_current st = Some profile))"

definition ept_inv ::
  "endpointProfileTranslator \<Rightarrow> nat \<Rightarrow> nat \<Rightarrow> WorkloadWatcher \<times> ww_task multiset \<times> ept_state \<Rightarrow> bool" where
  "ept_inv ept l r = (\<lambda>(ww, B, st).
     ww_ok ww \<and> (\<forall>r'. ww_hears ww l r' \<longleftrightarrow> r' = r) \<and> set (ept_updates st) \<subseteq> {r} \<and>
     ept_current st = (if ept_sent st = [] then None else Some (last (ept_sent st))) \<and>
     (ept_endStreamClosed st \<or> TaskNotify r \<in># B \<or> ept_updates st \<noteq> [] \<or> profile_told ept ww r st))"

lemma ept_Update_many:
  "let st' = foldl (\<lambda>st r. snd (ept_Update st r)) st rs
   in ept_current st' = ept_current st \<and> ept_sent st' = ept_sent st \<and>
      set (ept_updates st') \<subseteq> set (ept_updates st) \<union> set rs \<and>
      (ept_endStreamClosed st \<longrightarrow> ept_endStreamClosed st') \<and>
      (ept_updates st \<noteq> [] \<or> rs \<noteq> [] \<longrightarrow> ept_endStreamClosed st' \<or> ept_updates st' \<noteq> [])"
proof (induction rs arbitrary: st)
  case (Cons r rs)
  let ?st = "snd (ept_Update st r)"
  have "ept_current ?st = ept_current st \<and> ept_sent ?st = ept_sent st \<and>
      set (ept_updates ?st) \<subseteq> set (ept_updates st) \<union> {r} \<and>
      (ept_endStreamClosed st \<longrightarrow> ept_endStreamClosed ?st) \<and> ept_updates ?st \<noteq> []"
    by (auto simp: ept_Update_def updateQueueCapacity_def)
  with Cons.IH [of ?st] show ?case by (auto simp: Let_def)
qed simp

lemma ept_update_told:
  assumes "ept_update ept True st address = Some st'"
  shows "ept_updates st' = ept_updates st" and "ept_endStreamClosed st' = ept_endStreamClosed st"
    and "ww_deref ww r = Some wp \<Longrightarrow> wp_addr wp = address \<Longrightarrow> profile_told ept ww r st'"
    and "ept_current st = (if ept_sent st = [] then None else Some (last (ept_sent st))) \<Longrightarrow>
      ept_current st' = (if ept_sent st' = [] then None else Some (last (ept_sent st')))"
  using assms by (auto simp: ept_update_def profile_told_def split: option.splits sum.splits if_splits)

lemma ept_step_inv:
  assumes "ept_step ept l s s'" and "ept_inv ept l r s"
  shows "ept_inv ept l r s'"
  using assms
proof cases
  case (es_watch ww B calls ww' B' st)
  let ?st = "foldl (\<lambda>st r. snd (ept_Update st r)) st (calls_for l calls)"
  from assms(2) es_watch(1) have inv: "ww_ok ww" "\<And>r'. ww_hears ww l r' \<longleftrightarrow> r' = r" "set (ept_updates st) \<subseteq> {r}"
    "ept_current st = (if ept_sent st = [] then None else Some (last (ept_sent st)))"
    "ept_endStreamClosed st \<or> TaskNotify r \<in># B \<or> ept_updates st \<noteq> [] \<or> profile_told ept ww r st"
    by (auto simp: ept_inv_def)
  note step = ww_step_kept [OF es_watch(3) inv(1)] and many = ept_Update_many [of st "calls_for l calls", unfolded Let_def]
  have calls: "(l, r') \<in> set calls \<longleftrightarrow> r' \<in> set (calls_for l calls)" for r' by (force simp: calls_for_def)
  have hears: "ww_hears ww' l r' \<longleftrightarrow> r' = r" for r' using step(2) [of r'] inv(2) by (auto simp: ww_kept_def)
  have only: "set (calls_for l calls) \<subseteq> {r}" using step(2) inv(2) calls by (auto simp: ww_kept_def)
  have "ept_endStreamClosed ?st \<or> TaskNotify r \<in># B' \<or> ept_updates ?st \<noteq> [] \<or> profile_told ept ww' r ?st"
  proof (cases "calls_for l calls = []")
    case True
    then have quiet: "(l, r) \<notin> set calls" and st: "?st = st" using calls by auto
    have "TaskNotify r \<in># B' \<or> profile_told ept ww' r st" if "profile_told ept ww r st"
      using that step(2) [of r] inv(2) quiet by (auto simp: ww_kept_def profile_told_def split: option.splits)
    with inv(2,5) step(3) [of r] quiet st show ?thesis by auto
  qed (use many in blast)
  with es_watch(2) step(1) hears only many inv(3,4) show ?thesis by (auto simp: ept_inv_def)
next
  case (es_take st r' rs ww wp st' B)
  from assms(2) es_take(1,3) have "r' = r" "set rs \<subseteq> {r}" by (auto simp: ept_inv_def)
  with assms(2) es_take(1,2) ept_update_told [OF es_take(5)] es_take(4) show ?thesis
    by (auto simp: ept_inv_def)
qed

lemma ept_run_inv:
  assumes "(ept_step ept l)\<^sup>*\<^sup>* s s'" and "ept_inv ept l r s"
  shows "ept_inv ept l r s'"
  using assms by induction (blast intro: ept_step_inv)+

lemma ww_Subscribe_start:
  assumes "ww_Subscribe api pods ews ww0 service hostname ip port l True = Some (Inr (ip', ww, calls))"
    and "ww_ok ww0" and "\<forall>r. \<not> ww_hears ww0 l r"
  shows "\<exists>r. calls = [(l, r)] \<and> ept_inv ept l r (ww, B, snd (ept_Update newEndpointProfileTranslator r))"
proof -
  from assms(1) obtain ww1 r wp where new: "getOrNewWorkloadPublisher api pods ews ww0 service hostname ip port = Some (Inr (ww1, r))"
    and wp: "ww_deref ww1 r = Some wp" and ww: "ww = ww_write ww1 r (snd (wp_subscribe wp l True))" and calls: "calls = [(l, r)]"
    by (auto simp: ww_Subscribe_def wp_subscribe_def Let_def split: option.splits sum.splits prod.splits)
  from getOrNew_kept [OF new assms(2)] assms(3) have "ww_ok ww1" "\<forall>r. \<not> ww_hears ww1 l r"
    by (auto simp: ww_kept_def)
  then have "ww_ok ww" "\<forall>r'. ww_hears ww l r' \<longleftrightarrow> r' = r"
    using ww_ok_write [OF _ wp] by (auto simp: ww ww_hears_def wp_subscribe_def Let_def)
  with calls show ?thesis
    by (auto simp: ept_inv_def ept_Update_def newEndpointProfileTranslator_def updateQueueCapacity_def)
qed

text \<open>
  C23. Once an endpoint profile request has subscribed, whatever pods, external workloads,
  Servers and other requests do, in whatever order the goroutines run: when the queue of its
  translator is drained, no notification is outstanding and the stream was not aborted, the
  last message on the stream is the profile of the publisher's current address, unless that
  address cannot be translated.
\<close>

theorem endpoint_profile_follows:
  assumes "ww_Subscribe api pods ews ww0 service hostname ip port l True = Some (Inr (ip', ww1, calls))"
    and "ww_ok ww0" and "\<forall>r. \<not> ww_hears ww0 l r"
    and "(ept_step ept l)\<^sup>*\<^sup>*
      (ww1, B1, foldl (\<lambda>st r. snd (ept_Update st r)) newEndpointProfileTranslator (calls_for l calls)) (ww, B, st)"
    and "ept_updates st = []" and "\<forall>r. TaskNotify r \<notin># B" and "\<not> ept_endStreamClosed st"
  shows "\<exists>r wp. calls = [(l, r)] \<and> ww_deref ww r = Some wp \<and>
    (case endpoint_profile ept (wp_addr wp) of
       None \<Rightarrow> False
     | Some (Inl _) \<Rightarrow> True
     | Some (Inr profile) \<Rightarrow> ept_sent st \<noteq> [] \<and> last (ept_sent st) = profile)"
proof -
  from ww_Subscribe_start [OF assms(1-3)] obtain r where r: "calls = [(l, r)]"
    and "ept_inv ept l r (ww1, B1, snd (ept_Update newEndpointProfileTranslator r))" by blast
  with ept_run_inv [OF assms(4), of r] have "ept_inv ept l r (ww, B, st)" by simp
  with assms(5-7) have told: "profile_told ept ww r st"
    and cur: "ept_current st = (if ept_sent st = [] then None else Some (last (ept_sent st)))"
    by (auto simp: ept_inv_def)
  then obtain wp where "ww_deref ww r = Some wp" by (auto simp: profile_told_def split: option.splits)
  with told cur r show ?thesis
    by (auto simp: profile_told_def split: option.splits sum.splits if_splits)
qed

theorem endpoint_profile_follows_witness:
  "let ept = \<lparr>ept_enableH2Upgrade = True, ept_controllerNS = ''linkerd'', ept_identityTrustDomain = ''cluster.local'',
         ept_defaultOpaquePorts = {|8080|}, ept_meshedHttp2ClientParams = None\<rparr>
   in \<exists>ww1 st. (ept_step ept 7)\<^sup>*\<^sup>* (ww1, {#}, snd (ept_Update newEndpointProfileTranslator 0)) (ww1, {#}, st) \<and>
        (\<exists>wp profile. ww_deref ww1 0 = Some wp \<and> endpoint_profile ept (wp_addr wp) = Some (Inr profile) \<and>
           dp_OpaqueProtocol profile \<and> last (ept_sent st) = profile)"
proof -
  let ?ept = "\<lparr>ept_enableH2Upgrade = True, ept_controllerNS = ''linkerd'', ept_identityTrustDomain = ''cluster.local'',
      ept_defaultOpaquePorts = {|8080|}, ept_meshedHttp2ClientParams = None\<rparr>"
  let ?a = "base_Address ''10.0.0.1'' 8080"
  let ?wp = "\<lparr>wp_addr = ?a, wp_listeners = [7], wp_subscribers = 1, wp_updates = 1\<rparr>"
  let ?none = "NewWorkloadWatcher True {||}"
  let ?ww = "?none\<lparr>ww_publishers := fmupd (''10.0.0.1'', 8080) 0 fmempty, ww_store := fmupd 0 ?wp fmempty, ww_next := 1\<rparr>"
  let ?st = "snd (ept_Update newEndpointProfileTranslator 0)"
  have ip: "ParseProxyIP ''10.0.0.1'' = Inr (Ipv4 0x0A000001)" by (simp add: ip_eval)
  obtain profile where profile: "endpoint_profile ?ept ?a = Some (Inr profile)" "dp_OpaqueProtocol profile"
    by (simp add: endpoint_profile_def createEndpoint_def createWeightedAddr_def toAddr_def base_Address_def ip
        endpoint_opaque_ports_def GetAnnotatedOpaquePortsForExternalWorkload_def)
  have sub: "ww_Subscribe sample_api [] [] ?none None [] ''10.0.0.1'' 8080 7 True = Some (Inr (''10.0.0.1'', ?ww, [(7, 0)]))"
    by (simp add: ww_Subscribe_def getOrNewWorkloadPublisher_def find_workload_def new_workload_publisher_def
        getPodByPodIP_def getPodByHostIP_def getExternalWorkloadByIP_def unique_or_conflict_def
        getIndexedPods_def getIndexedExternalWorkloads_def by_index_def base_Address_def
        NewWorkloadWatcher_def wp_subscribe_def ww_deref_def ww_write_def)
  let ?st' = "(?st\<lparr>ept_updates := []\<rparr>)\<lparr>ept_current := Some profile, ept_sent := [profile]\<rparr>"
  have "ept_step ?ept 7 (?ww, {#}, ?st) (?ww, {#}, ?st')"
    by (rule es_take [where r = 0 and rs = "[]" and wp = ?wp])
      (simp_all add: ept_update_def profile ww_deref_def ept_Update_def newEndpointProfileTranslator_def updateQueueCapacity_def)
  then have run: "(ept_step ?ept 7)\<^sup>*\<^sup>* (?ww, {#}, ?st) (?ww, {#}, ?st')" by blast
  have ok: "ww_ok ?none" "\<forall>r. \<not> ww_hears ?none 7 r"
    by (simp_all add: ww_ok_def ww_hears_def ww_deref_def NewWorkloadWatcher_def)
  have drained: "ept_updates ?st' = []" "\<not> ept_endStreamClosed ?st'"
    by (simp_all add: ept_Update_def newEndpointProfileTranslator_def updateQueueCapacity_def)
  have store: "ww_deref ?ww 0 = Some ?wp" by (simp add: ww_deref_def)
  have "last (ept_sent ?st') = profile"
    using endpoint_profile_follows [OF sub ok, of ?ept "{#}" ?ww "{#}" ?st'] run drained
    by (simp add: store profile)
  with run store profile show ?thesis unfolding Let_def by (metis workloadPublisher.select_convs(1))
qed

end
