(* ===== verification/Slice_Reconciler.thy ===== *)
theory Slice_Reconciler
  imports Sample_Cluster "HOL-Library.Multiset"
begin

text \<open>
  The reconciler of endpoint slices for external workloads
  (\<open>external-workload/endpoints_reconciler.go\<close>): which endpoints a service should have, how
  they are spread over slices, and the writes that lead from the slices there are to the
  slices there should be.

  The package \<open>k8s.io/endpointslice/util\<close> is a parameter, the record \<open>slice_util\<close>: its
  \<open>EndpointSet\<close> keeps endpoints by a hash, \<open>PopAny\<close> takes any of them, \<open>NewPortMapKey\<close> is a
  hash of ports and \<open>EndpointsEqualBeyondHash\<close> compares what the hash leaves out. So are the
  IPv6 test of \<open>k8s.io/utils/net\<close> and the order in which Go ranges over a map. \<open>slice_util_ok\<close>
  says what the code relies on.
\<close>

section \<open>Parameters\<close>

record ('h, 'k) slice_util =
  su_hash :: "Endpoint \<Rightarrow> 'h"
  su_equal :: "Endpoint \<Rightarrow> Endpoint \<Rightarrow> bool"
  su_pop :: "('h, Endpoint) fmap \<Rightarrow> 'h"
  su_portkey :: "EndpointPort list \<Rightarrow> 'k"
  su_names :: "string fset \<Rightarrow> string list"
  su_keys :: "'k fset \<Rightarrow> 'k list"
  su_isIPv6 :: "string \<Rightarrow> bool"

definition slice_util_ok :: "('h, 'k) slice_util \<Rightarrow> bool" where
  "slice_util_ok u \<longleftrightarrow>
     (\<forall>eps. eps \<noteq> fmempty \<longrightarrow> su_pop u eps |\<in>| fmdom eps) \<and>
     (\<forall>ns. distinct (su_names u ns) \<and> set (su_names u ns) = fset ns) \<and>
     (\<forall>ks. distinct (su_keys u ks) \<and> set (su_keys u ks) = fset ks)"

type_synonym 'h EndpointSet = "('h, Endpoint) fmap"

section \<open>Endpoints and slices\<close>

definition IsEwReady :: "ExternalWorkload \<Rightarrow> bool" where
  "IsEwReady ew = list_ex (\<lambda>(t, s). t = ''Ready'' \<and> s = ''True'') (ew_Conditions ew)"

definition ownedBy :: "EndpointSlice \<Rightarrow> Service \<Rightarrow> bool" where
  "ownedBy es svc = list_ex (\<lambda>r. or_UID r = svc_UID svc \<and> or_Kind r = ''Service'' \<and> or_APIVersion r = ''v1'')
     (es_OwnerReferences es)"

text \<open>\<open>None\<close> is the error that no suitable port was found.\<close>

definition findWorkloadPort :: "ExternalWorkload \<Rightarrow> ServicePort \<Rightarrow> int32 option" where
  "findWorkloadPort ew svcPort = (case sp_TargetPort svcPort of
     StrVal name \<Rightarrow> map_option ps_Port
       (find (\<lambda>p. ps_Name p = name \<and> ps_Protocol p = sp_Protocol svcPort) (ew_Ports ew))
   | IntVal port \<Rightarrow> map_option (\<lambda>_. port)
       (find (\<lambda>p. ps_Port p = port \<and> ps_Protocol p = sp_Protocol svcPort) (ew_Ports ew)))"

definition findEndpointPorts :: "Service \<Rightarrow> ExternalWorkload \<Rightarrow> EndpointPort list" where
  "findEndpointPorts svc ew =
     (if svc_Ports svc = [] \<and> svc_ClusterIP svc = ClusterIPNone then []
      else List.map_filter (\<lambda>svcPort. map_option (\<lambda>portNum.
          \<lparr>port_Name = (if sp_Name svcPort = [] then None else Some (sp_Name svcPort)),
           port_Port = Some portNum,
           port_Protocol = (if sp_Protocol svcPort = [] then None else Some (sp_Protocol svcPort))\<rparr>)
        (findWorkloadPort ew svcPort)) (svc_Ports svc))"

definition getSupportedAddressTypes :: "Service \<Rightarrow> string fset" where
  "getSupportedAddressTypes svc =
     (let afs = fset_of_list (filter (\<lambda>af. af \<in> {IPv4Protocol, IPv6Protocol}) (svc_IPFamilies svc))
      in if afs \<noteq> {||} then afs else {|''IPv4'', ''IPv6''|})"

definition externalWorkloadToEndpoint ::
  "('h, 'k) slice_util \<Rightarrow> string \<Rightarrow> ExternalWorkload \<Rightarrow> Service \<Rightarrow> Endpoint" where
  "externalWorkloadToEndpoint u addrType ew svc =
     (let serving = IsEwReady ew;
          addresses = filter (\<lambda>ip. if su_isIPv6 u ip then addrType = ''IPv6'' else addrType = ''IPv4'') (ew_WorkloadIPs ew)
      in \<lparr>ep_Addresses = addresses,
          ep_Conditions = \<lparr>cond_Ready = Some serving, cond_Serving = Some serving, cond_Terminating = Some False\<rparr>,
          ep_Hostname = (if svc_ClusterIP svc = ClusterIPNone \<and> ew_Namespace ew = svc_Namespace svc
            then Some (ew_Name ew) else None),
          ep_TargetRef = Some \<lparr>ref_Kind = ''ExternalWorkload'', ref_Name = ew_Name ew,
            ref_Namespace = ew_Namespace ew, ref_UID = ew_UID ew\<rparr>,
          ep_Zone = fmlookup (ew_Labels ew) LabelTopologyZone, ep_Hints = None\<rparr>)"

definition isReserved :: "string \<Rightarrow> bool" where
  "isReserved label \<longleftrightarrow> label = LabelServiceName \<or> label = LabelManagedBy \<or> label = IsHeadlessService"

definition setEndpointSliceLabels :: "EndpointSlice \<Rightarrow> Service \<Rightarrow> string \<Rightarrow> labels \<times> bool" where
  "setEndpointSliceLabels es service controllerName =
     (let epLabels = fmfilter (\<lambda>key. \<not> isReserved key) (es_Labels es);
          svcLabels = fmfilter (\<lambda>key. \<not> isReserved key) (svc_Labels service);
          updated = fBex (fmdom svcLabels) (\<lambda>key. fmlookup epLabels key \<noteq> fmlookup svcLabels key);
          svcLabels = (if svc_ClusterIP service = ClusterIPNone then fmupd IsHeadlessService [] svcLabels
            else fmdrop IsHeadlessService svcLabels);
          svcLabels = fmupd LabelServiceName (svc_Name service) svcLabels;
          svcLabels = fmupd LabelManagedBy controllerName svcLabels
      in (svcLabels, updated))"

record endpointMeta =
  meta_ports :: "EndpointPort list"
  meta_addressType :: string

definition newEndpointSlice :: "Service \<Rightarrow> endpointMeta \<Rightarrow> string \<Rightarrow> EndpointSlice" where
  "newEndpointSlice svc meta controllerName =
     (let es = \<lparr>es_Name = [], es_GenerateName = ''linkerd-external-'' @ svc_Name svc @ ''-'',
            es_Namespace = svc_Namespace svc, es_Labels = fmempty, es_Annotations = fmempty,
            es_OwnerReferences = [\<lparr>or_APIVersion = ''v1'', or_Kind = ''Service'', or_Name = svc_Name svc,
              or_UID = svc_UID svc\<rparr>],
            es_DeletionTimestamp = None, es_AddressType = meta_addressType meta,
            es_Ports = Some (meta_ports meta), es_Endpoints = []\<rparr>
      in es\<lparr>es_Labels := fst (setEndpointSliceLabels es svc controllerName)\<rparr>)"

text \<open>The loop of \<open>getSliceToFill\<close>, with the closest slice so far.\<close>

fun slice_to_fill :: "EndpointSlice list \<Rightarrow> int \<Rightarrow> int \<Rightarrow> int \<Rightarrow> EndpointSlice option \<Rightarrow> EndpointSlice option" where
  "slice_to_fill [] numEndpoints maxEndpoints closestDiff closestSlice = closestSlice"
| "slice_to_fill (es # slices) numEndpoints maxEndpoints closestDiff closestSlice =
     (let diff = maxEndpoints - (numEndpoints + int (length (es_Endpoints es)))
      in if diff \<ge> 0 \<and> diff < closestDiff
         then if diff = 0 then Some es else slice_to_fill slices numEndpoints maxEndpoints diff (Some es)
         else slice_to_fill slices numEndpoints maxEndpoints closestDiff closestSlice)"

definition getSliceToFill :: "EndpointSlice list \<Rightarrow> int \<Rightarrow> int \<Rightarrow> EndpointSlice option" where
  "getSliceToFill slices numEndpoints maxEndpoints = slice_to_fill slices numEndpoints maxEndpoints maxEndpoints None"

section \<open>One group of ports\<close>

record endpointsReconciler =
  controllerName :: string
  maxEndpoints :: nat

text \<open>
  The local variables of \<open>reconcileEndpointsByPortMap\<close>. A slice the loop copies before it
  changes it is the slice \<open>slicesByName\<close> has for the name from then on.
\<close>

record 'h port_group =
  slicesByName :: "(string, EndpointSlice) fmap"
  sliceNamesUnchanged :: "string fset"
  sliceNamesToUpdate :: "string fset"
  sliceNamesToDelete :: "string fset"
  desiredEps :: "'h EndpointSet"

text \<open>The endpoints of one slice: those to keep, whether one of them changed, what is still to be placed.\<close>

fun keep_endpoints ::
  "('h, 'k) slice_util \<Rightarrow> 'h EndpointSet \<Rightarrow> Endpoint list \<Rightarrow> Endpoint list \<times> bool \<times> 'h EndpointSet" where
  "keep_endpoints u desired [] = ([], False, desired)"
| "keep_endpoints u desired (ep # eps) = (case fmlookup desired (su_hash u ep) of
     None \<Rightarrow> keep_endpoints u desired eps
   | Some found \<Rightarrow> (case keep_endpoints u (fmdrop (su_hash u ep) desired) eps of
       (keep, epUpdated, desired') \<Rightarrow> (found # keep, \<not> su_equal u found ep \<or> epUpdated, desired')))"

definition check_slice ::
  "('h, 'k) slice_util \<Rightarrow> endpointsReconciler \<Rightarrow> Service \<Rightarrow> 'h port_group \<Rightarrow> EndpointSlice \<Rightarrow> 'h port_group" where
  "check_slice u r svc g existingSlice =
     (let name = es_Name existingSlice;
          (keepEndpoints, epUpdated, desired) = keep_endpoints u (desiredEps g) (es_Endpoints existingSlice);
          (labels, labelsChanged) = setEndpointSliceLabels existingSlice svc (controllerName r);
          g = g\<lparr>slicesByName := fmupd name existingSlice (slicesByName g), desiredEps := desired\<rparr>
      in if epUpdated \<or> length (es_Endpoints existingSlice) \<noteq> length keepEndpoints
         then if keepEndpoints = []
              then g\<lparr>sliceNamesToDelete := finsert name (sliceNamesToDelete g)\<rparr>
              else g\<lparr>sliceNamesToUpdate := finsert name (sliceNamesToUpdate g),
                     slicesByName := fmupd name (existingSlice\<lparr>es_Labels := labels, es_Endpoints := keepEndpoints\<rparr>) (slicesByName g)\<rparr>
         else if labelsChanged
         then g\<lparr>sliceNamesToUpdate := finsert name (sliceNamesToUpdate g),
                slicesByName := fmupd name (existingSlice\<lparr>es_Labels := labels\<rparr>) (slicesByName g)\<rparr>
         else g\<lparr>sliceNamesUnchanged := finsert name (sliceNamesUnchanged g)\<rparr>)"

text \<open>Filling a slice: \<open>for desiredEps.Len() > 0 && len(slice.Endpoints) < r.maxEndpoints\<close>.\<close>

function fill_endpoints ::
  "('h, 'k) slice_util \<Rightarrow> nat \<Rightarrow> Endpoint list \<Rightarrow> 'h EndpointSet \<Rightarrow> Endpoint list \<times> 'h EndpointSet" where
  "fill_endpoints u maxE eps desired =
     (if desired \<noteq> fmempty \<and> length eps < maxE
      then (case fmlookup desired (su_pop u desired) of
          None \<Rightarrow> (eps, desired)
        | Some ep \<Rightarrow> fill_endpoints u maxE (eps @ [ep]) (fmdrop (su_pop u desired) desired))
      else (eps, desired))"
  by pat_completeness auto
termination
  by (relation "measure (\<lambda>(u, maxE, eps, desired). maxE - length eps)") auto

declare fill_endpoints.simps [simp del]

definition fill_named :: "('h, 'k) slice_util \<Rightarrow> nat \<Rightarrow> 'h port_group \<Rightarrow> string \<Rightarrow> 'h port_group" where
  "fill_named u maxE g name = (case fmlookup (slicesByName g) name of
     None \<Rightarrow> g
   | Some es \<Rightarrow> (case fill_endpoints u maxE (es_Endpoints es) (desiredEps g) of
       (eps, desired) \<Rightarrow> g\<lparr>slicesByName := fmupd name (es\<lparr>es_Endpoints := eps\<rparr>) (slicesByName g), desiredEps := desired\<rparr>))"

text \<open>
  The slices to be updated anyway, fullest first. \<open>sort.Slice\<close> is not stable, but the order
  of the slices before it is that of a range over a map, any order.
\<close>

definition slice_len :: "'h port_group \<Rightarrow> string \<Rightarrow> int" where
  "slice_len g name = (case fmlookup (slicesByName g) name of None \<Rightarrow> 0 | Some es \<Rightarrow> int (length (es_Endpoints es)))"

definition fill_updated :: "('h, 'k) slice_util \<Rightarrow> nat \<Rightarrow> 'h port_group \<Rightarrow> 'h port_group" where
  "fill_updated u maxE g =
     (if desiredEps g \<noteq> fmempty \<and> sliceNamesToUpdate g \<noteq> {||}
      then foldl (fill_named u maxE) g (sort_key (\<lambda>name. - slice_len g name) (su_names u (sliceNamesToUpdate g)))
      else g)"

definition slices_named :: "'h port_group \<Rightarrow> string list \<Rightarrow> EndpointSlice list" where
  "slices_named g names = List.map_filter (fmlookup (slicesByName g)) names"

text \<open>An unchanged slice that all remaining endpoints fit into, if there is one.\<close>

definition unchanged_to_fill :: "('h, 'k) slice_util \<Rightarrow> endpointsReconciler \<Rightarrow> 'h port_group \<Rightarrow> EndpointSlice option" where
  "unchanged_to_fill u r g =
     (let n = fm_size (desiredEps g)
      in if n < maxEndpoints r \<and> sliceNamesUnchanged g \<noteq> {||}
         then getSliceToFill (slices_named g (su_names u (sliceNamesUnchanged g))) (int n) (int (maxEndpoints r))
         else None)"

text \<open>One round of the last loop: that slice or a new one is filled. New slices have no name yet.\<close>

definition fill_round ::
  "('h, 'k) slice_util \<Rightarrow> endpointsReconciler \<Rightarrow> Service \<Rightarrow> endpointMeta \<Rightarrow>
     'h port_group \<times> EndpointSlice list \<Rightarrow> 'h port_group \<times> EndpointSlice list" where
  "fill_round u r svc desiredMeta = (\<lambda>(g, slicesToCreate).
     case unchanged_to_fill u r g of
       None \<Rightarrow>
         let es = newEndpointSlice svc desiredMeta (controllerName r);
             (eps, desired) = fill_endpoints u (maxEndpoints r) (es_Endpoints es) (desiredEps g)
         in (g\<lparr>desiredEps := desired\<rparr>, slicesToCreate @ [es\<lparr>es_Endpoints := eps\<rparr>])
     | Some es \<Rightarrow>
         let (eps, desired) = fill_endpoints u (maxEndpoints r) (es_Endpoints es) (desiredEps g);
             es = es\<lparr>es_Endpoints := eps\<rparr>;
             g = g\<lparr>desiredEps := desired, slicesByName := fmupd (es_Name es) es (slicesByName g)\<rparr>
         in if es_Name es \<noteq> []
            then (g\<lparr>sliceNamesToUpdate := finsert (es_Name es) (sliceNamesToUpdate g),
                    sliceNamesUnchanged := sliceNamesUnchanged g |-| {|es_Name es|}\<rparr>, slicesToCreate)
            else (g, slicesToCreate @ [es]))"

partial_function (option) fill_rest ::
  "('h, 'k) slice_util \<Rightarrow> endpointsReconciler \<Rightarrow> Service \<Rightarrow> endpointMeta \<Rightarrow>
     'h port_group \<times> EndpointSlice list \<Rightarrow> ('h port_group \<times> EndpointSlice list) option" where
  "fill_rest u r svc desiredMeta st =
     (if desiredEps (fst st) = fmempty then Some st
      else fill_rest u r svc desiredMeta (fill_round u r svc desiredMeta st))"

definition empty_group :: "'h EndpointSet \<Rightarrow> 'h port_group" where
  "empty_group desired =
     \<lparr>slicesByName = fmempty, sliceNamesUnchanged = {||}, sliceNamesToUpdate = {||}, sliceNamesToDelete = {||},
      desiredEps = desired\<rparr>"

text \<open>The slices to create, to update and to delete; \<open>None\<close> if the loop does not end.\<close>

type_synonym slice_plan = "EndpointSlice list \<times> EndpointSlice list \<times> EndpointSlice list"

definition reconcileEndpointsByPortMap ::
  "('h, 'k) slice_util \<Rightarrow> endpointsReconciler \<Rightarrow> Service \<Rightarrow> EndpointSlice list \<Rightarrow> 'h EndpointSet \<Rightarrow> endpointMeta \<Rightarrow>
     slice_plan option" where
  "reconcileEndpointsByPortMap u r svc existingSlices desired desiredMeta =
     (let g = foldl (check_slice u r svc) (empty_group desired) existingSlices;
          g = fill_updated u (maxEndpoints r) g
      in case fill_rest u r svc desiredMeta (g, []) of
           None \<Rightarrow> None
         | Some (g, slicesToCreate) \<Rightarrow>
             Some (slicesToCreate, slices_named g (su_names u (sliceNamesToUpdate g)),
                   slices_named g (su_names u (sliceNamesToDelete g))))"

section \<open>Bags of endpoints\<close>

text \<open>What the hash of an endpoint distinguishes is counted, with repetitions.\<close>

definition hash_bag :: "('h, 'k) slice_util \<Rightarrow> Endpoint list \<Rightarrow> 'h multiset" where
  "hash_bag u eps = image_mset (su_hash u) (mset eps)"

definition dom_bag :: "('h, 'v) fmap \<Rightarrow> 'h multiset" where
  "dom_bag m = mset_set (fset (fmdom m))"

definition eps_at :: "(string, EndpointSlice) fmap \<Rightarrow> string \<Rightarrow> Endpoint list" where
  "eps_at m name = (case fmlookup m name of None \<Rightarrow> [] | Some es \<Rightarrow> es_Endpoints es)"

definition names_bag :: "('h, 'k) slice_util \<Rightarrow> (string, EndpointSlice) fmap \<Rightarrow> string set \<Rightarrow> 'h multiset" where
  "names_bag u m N = (\<Sum>name\<in>N. hash_bag u (eps_at m name))"

definition slices_bag :: "('h, 'k) slice_util \<Rightarrow> EndpointSlice list \<Rightarrow> 'h multiset" where
  "slices_bag u ess = hash_bag u (concat (map es_Endpoints ess))"

definition keyed :: "('h, 'k) slice_util \<Rightarrow> 'h EndpointSet \<Rightarrow> bool" where
  "keyed u desired \<longleftrightarrow> (\<forall>h ep. fmlookup desired h = Some ep \<longrightarrow> su_hash u ep = h)"

lemma hash_bag_simps [simp]:
  "hash_bag u [] = {#}" "hash_bag u (ep # eps) = add_mset (su_hash u ep) (hash_bag u eps)"
  "hash_bag u (eps @ eps') = hash_bag u eps + hash_bag u eps'"
  by (simp_all add: hash_bag_def)

lemma slices_bag_simps [simp]:
  "slices_bag u [] = {#}" "slices_bag u (es # ess) = hash_bag u (es_Endpoints es) + slices_bag u ess"
  "slices_bag u (ess @ ess') = slices_bag u ess + slices_bag u ess'"
  by (simp_all add: slices_bag_def)

lemma dom_bag_drop: "fmlookup m h = Some v \<Longrightarrow> add_mset h (dom_bag (fmdrop h m)) = dom_bag m"
  using mset_set.remove [of "fset (fmdom m)" h] by (simp add: dom_bag_def fmdomI)

lemma dom_bag_empty [simp]: "dom_bag fmempty = {#}"
  by (simp add: dom_bag_def)

lemma eps_at_upd [simp]: "eps_at (fmupd name es m) n = (if n = name then es_Endpoints es else eps_at m n)"
  by (simp add: eps_at_def)

lemma names_bag_empty [simp]: "names_bag u m {} = {#}"
  by (simp add: names_bag_def)

lemma names_bag_insert:
  "finite N \<Longrightarrow> n \<notin> N \<Longrightarrow> names_bag u m (insert n N) = hash_bag u (eps_at m n) + names_bag u m N"
  by (simp add: names_bag_def)

lemma names_bag_frame: "n \<notin> N \<Longrightarrow> names_bag u (fmupd n es m) N = names_bag u m N"
  unfolding names_bag_def by (rule sum.cong) auto

lemma names_bag_at:
  "finite N \<Longrightarrow> n \<in> N \<Longrightarrow> names_bag u m N = hash_bag u (eps_at m n) + names_bag u m (N - {n})"
  by (simp add: names_bag_def sum.remove)

lemma names_bag_upd:
  "finite N \<Longrightarrow> n \<in> N \<Longrightarrow> names_bag u (fmupd n es m) N = hash_bag u (es_Endpoints es) + names_bag u m (N - {n})"
  using names_bag_at [of N n u "fmupd n es m"] by (simp add: names_bag_frame)

lemma keyed_drop: "keyed u desired \<Longrightarrow> keyed u (fmdrop h desired)"
  by (simp add: keyed_def)

lemma keyed_sub: "keyed u desired \<Longrightarrow> desired' \<subseteq>\<^sub>f desired \<Longrightarrow> keyed u desired'"
  by (auto simp: keyed_def fmsubset_alt_def fmpred_iff)

lemma fm_size_drop: "fmlookup m h = Some v \<Longrightarrow> Suc (fm_size (fmdrop h m)) = fm_size m"
  by (metis fmdomI fm_size_def fmdom_drop fcard_Suc_fminus1)

lemma fmsubsetD: "m \<subseteq>\<^sub>f n \<Longrightarrow> fmlookup m k = Some v \<Longrightarrow> fmlookup n k = Some v"
  by (simp add: fmsubset_alt_def fmpred_iff)

lemma fm_size_sub: "m \<subseteq>\<^sub>f n \<Longrightarrow> fm_size m \<le> fm_size n"
  unfolding fm_size_def by (rule fcard_mono) (meson fmdomE fmdomI fmsubsetD fsubsetI)

lemma fmsubset_drop: "fmdrop h m \<subseteq>\<^sub>f m"
  by (auto simp: fmsubset_alt_def fmpred_iff)

lemma fmdrop_SomeD: "fmlookup (fmdrop h m) k = Some v \<Longrightarrow> fmlookup m k = Some v"
  by (simp split: if_splits)

lemma fmsubset_trans: "m \<subseteq>\<^sub>f n \<Longrightarrow> n \<subseteq>\<^sub>f p \<Longrightarrow> m \<subseteq>\<^sub>f (p :: ('k, 'v) fmap)"
  by (auto simp: fmsubset_alt_def fmpred_iff)

section \<open>The phases of a group\<close>

lemma keep_endpoints_spec:
  assumes "keep_endpoints u desired eps = (keep, upd, desired')" and "keyed u desired"
  shows "hash_bag u keep + dom_bag desired' = dom_bag desired" and "desired' \<subseteq>\<^sub>f desired"
    and "\<And>ep. ep \<in> set keep \<Longrightarrow> fmlookup desired (su_hash u ep) = Some ep"
    and "length keep \<le> length eps"
    and "\<not> upd \<Longrightarrow> length keep = length eps \<Longrightarrow> list_all2 (\<lambda>d ep. su_hash u d = su_hash u ep \<and> su_equal u d ep) keep eps"
proof -
  have "hash_bag u keep + dom_bag desired' = dom_bag desired \<and> desired' \<subseteq>\<^sub>f desired \<and>
    (\<forall>ep\<in>set keep. fmlookup desired (su_hash u ep) = Some ep) \<and> length keep \<le> length eps \<and>
    (\<not> upd \<longrightarrow> length keep = length eps \<longrightarrow> list_all2 (\<lambda>d ep. su_hash u d = su_hash u ep \<and> su_equal u d ep) keep eps)"
    using assms
  proof (induction eps arbitrary: desired keep upd)
    case (Cons ep eps)
    show ?case
    proof (cases "fmlookup desired (su_hash u ep)")
      case None
      with Cons.IH [of desired keep upd] Cons.prems show ?thesis by auto
    next
      case (Some found)
      let ?d = "fmdrop (su_hash u ep) desired"
      from Some Cons.prems(1) obtain keep1 upd1 where rest: "keep_endpoints u ?d eps = (keep1, upd1, desired')"
        and keep: "keep = found # keep1" and upd: "upd = (\<not> su_equal u found ep \<or> upd1)"
        by (auto split: prod.splits)
      have h: "su_hash u found = su_hash u ep" using Some Cons.prems(2) by (simp add: keyed_def)
      note IH = Cons.IH [OF rest keyed_drop [OF Cons.prems(2)]]
      then have "\<forall>ep\<in>set keep1. fmlookup desired (su_hash u ep) = Some ep" by (blast intro: fmdrop_SomeD)
      moreover from IH have "desired' \<subseteq>\<^sub>f desired" by (blast intro: fmsubset_trans fmsubset_drop)
      ultimately show ?thesis using IH keep upd h Some by (simp flip: dom_bag_drop [OF Some])
    qed
  qed (auto simp: fmsubset_alt_def fmpred_iff)
  then show "hash_bag u keep + dom_bag desired' = dom_bag desired" and "desired' \<subseteq>\<^sub>f desired"
    and "\<And>ep. ep \<in> set keep \<Longrightarrow> fmlookup desired (su_hash u ep) = Some ep"
    and "length keep \<le> length eps"
    and "\<not> upd \<Longrightarrow> length keep = length eps \<Longrightarrow> list_all2 (\<lambda>d ep. su_hash u d = su_hash u ep \<and> su_equal u d ep) keep eps"
    by auto
qed

lemma fill_endpoints_spec:
  assumes "slice_util_ok u" and "fill_endpoints u maxE eps desired = (eps', desired')" and "keyed u desired"
  shows "\<exists>added. eps' = eps @ added \<and> hash_bag u added + dom_bag desired' = dom_bag desired \<and> desired' \<subseteq>\<^sub>f desired \<and>
    (\<forall>ep\<in>set added. fmlookup desired (su_hash u ep) = Some ep) \<and> length eps' \<le> max maxE (length eps) \<and>
    (desired \<noteq> fmempty \<and> length eps < maxE \<longrightarrow> fm_size desired' < fm_size desired)"
  using assms(2,3)
proof (induction "maxE - length eps" arbitrary: eps desired rule: less_induct)
  case less
  show ?case
  proof (cases "desired \<noteq> fmempty \<and> length eps < maxE")
    case True
    then have "su_pop u desired |\<in>| fmdom desired" using assms(1) by (simp add: slice_util_ok_def)
    then obtain ep where ep: "fmlookup desired (su_pop u desired) = Some ep" by (auto simp: fmlookup_dom_iff)
    let ?d = "fmdrop (su_pop u desired) desired"
    have h: "su_hash u ep = su_pop u desired" using ep less.prems(2) by (simp add: keyed_def)
    have "fill_endpoints u maxE (eps @ [ep]) ?d = (eps', desired')"
      using less.prems(1) True ep by (simp add: fill_endpoints.simps [of u maxE eps desired])
    moreover have "maxE - length (eps @ [ep]) < maxE - length eps" using True by auto
    ultimately obtain added where
      added: "eps' = (eps @ [ep]) @ added" "hash_bag u added + dom_bag desired' = dom_bag ?d" "desired' \<subseteq>\<^sub>f ?d"
        "\<forall>ep\<in>set added. fmlookup ?d (su_hash u ep) = Some ep" "length eps' \<le> max maxE (length (eps @ [ep]))"
        "?d \<noteq> fmempty \<and> length (eps @ [ep]) < maxE \<longrightarrow> fm_size desired' < fm_size ?d"
      using less.hyps keyed_drop [OF less.prems(2)] by blast
    have "fm_size desired' \<le> fm_size ?d" by (rule fm_size_sub [OF added(3)])
    moreover from added(4) have "\<forall>ep\<in>set added. fmlookup desired (su_hash u ep) = Some ep" by (blast intro: fmdrop_SomeD)
    ultimately show ?thesis
      using fm_size_drop [OF ep] added True h ep fmsubset_trans [OF added(3) fmsubset_drop]
      by (intro exI [of _ "ep # added"]) (simp flip: dom_bag_drop [OF ep])
  next
    case False
    with less.prems show ?thesis
      by (intro exI [of _ "[]"]) (auto simp: fill_endpoints.simps [of u maxE eps desired] fmsubset_alt_def fmpred_iff)
  qed
qed

text \<open>
  The invariant of the three phases: \<open>D\<close> are the desired endpoints, \<open>P\<close> the slices seen so far,
  \<open>created\<close> the new slices. Every desired endpoint is either still to be placed or in exactly one
  slice that will exist.
\<close>

definition good_endpoint :: "('h, 'k) slice_util \<Rightarrow> 'h EndpointSet \<Rightarrow> Endpoint \<Rightarrow> bool" where
  "good_endpoint u D ep \<longleftrightarrow> (\<exists>d. fmlookup D (su_hash u ep) = Some d \<and> (ep = d \<or> su_equal u d ep))"

definition live :: "'h port_group \<Rightarrow> string set" where
  "live g = fset (sliceNamesUnchanged g) \<union> fset (sliceNamesToUpdate g)"

definition group_names :: "EndpointSlice list \<Rightarrow> 'h port_group \<Rightarrow> bool" where
  "group_names P g \<longleftrightarrow>
     live g \<union> fset (sliceNamesToDelete g) = es_Name ` set P \<and> live g \<inter> fset (sliceNamesToDelete g) = {} \<and>
     fset (sliceNamesUnchanged g) \<inter> fset (sliceNamesToUpdate g) = {} \<and> fset (fmdom (slicesByName g)) = es_Name ` set P \<and>
     (\<forall>n es. fmlookup (slicesByName g) n = Some es \<longrightarrow> es_Name es = n \<and> (n \<notin> fset (sliceNamesToUpdate g) \<longrightarrow> es \<in> set P))"

text \<open>The labels of a slice need no update.\<close>

definition labels_ok :: "endpointsReconciler \<Rightarrow> Service \<Rightarrow> EndpointSlice \<Rightarrow> bool" where
  "labels_ok r svc es \<longleftrightarrow> \<not> snd (setEndpointSliceLabels es svc (controllerName r))"

definition group_inv ::
  "('h, 'k) slice_util \<Rightarrow> endpointsReconciler \<Rightarrow> Service \<Rightarrow> 'h EndpointSet \<Rightarrow> EndpointSlice list \<Rightarrow>
     'h port_group \<times> EndpointSlice list \<Rightarrow> bool" where
  "group_inv u r svc D P = (\<lambda>(g, created).
     group_names P g \<and> desiredEps g \<subseteq>\<^sub>f D \<and>
     names_bag u (slicesByName g) (live g) + slices_bag u created + dom_bag (desiredEps g) = dom_bag D \<and>
     (\<forall>n \<in> live g. \<forall>ep \<in> set (eps_at (slicesByName g) n). good_endpoint u D ep) \<and>
     (\<forall>es \<in> set created. es_Name es = [] \<and> (\<forall>ep \<in> set (es_Endpoints es). good_endpoint u D ep) \<and>
        length (es_Endpoints es) \<le> maxEndpoints r \<and> labels_ok r svc es) \<and>
     ((\<forall>es \<in> set P. length (es_Endpoints es) \<le> maxEndpoints r) \<longrightarrow>
        (\<forall>n \<in> live g. length (eps_at (slicesByName g) n) \<le> maxEndpoints r)) \<and>
     (\<forall>n \<in> live g. \<forall>es. fmlookup (slicesByName g) n = Some es \<longrightarrow> labels_ok r svc es))"

lemma labels_ok_endpoints [simp]: "labels_ok r svc (es\<lparr>es_Endpoints := eps\<rparr>) = labels_ok r svc es"
  by (simp add: labels_ok_def setEndpointSliceLabels_def Let_def)

lemma labels_ok_set:
  "labels_ok r svc (es\<lparr>es_Labels := fst (setEndpointSliceLabels es' svc (controllerName r))\<rparr>)"
proof -
  have "fmlookup (fst (setEndpointSliceLabels es' svc (controllerName r))) k = fmlookup (svc_Labels svc) k"
    if "\<not> isReserved k" for k
    using that by (auto simp: setEndpointSliceLabels_def Let_def isReserved_def)
  then show ?thesis by (simp add: labels_ok_def setEndpointSliceLabels_def [of "es\<lparr>es_Labels := _\<rparr>"] Let_def)
qed

lemma finite_live [simp]: "finite (live g)"
  by (simp add: live_def)

lemma group_inv_init: "group_inv u r svc D [] (empty_group D, [])"
  by (auto simp: group_inv_def group_names_def empty_group_def live_def fmsubset_alt_def fmpred_iff)

lemma list_all2_hash_bag:
  "list_all2 (\<lambda>d ep. su_hash u d = su_hash u ep \<and> su_equal u d ep) keep eps \<Longrightarrow> hash_bag u keep = hash_bag u eps"
  by (induction rule: list_all2_induct) auto

text \<open>Adding a slice to the live ones: \<open>es\<close> as it will be, \<open>taken\<close> the endpoints it took from the desired ones.\<close>

lemma check_slice_inv:
  assumes "group_inv u r svc D P (g, [])" and "keyed u D" and "es_Name s \<notin> es_Name ` set P"
  shows "group_inv u r svc D (P @ [s]) (check_slice u r svc g s, [])"
proof -
  let ?n = "es_Name s" and ?g' = "check_slice u r svc g s"
  obtain keep upd d where k: "keep_endpoints u (desiredEps g) (es_Endpoints s) = (keep, upd, d)" by (metis prod_cases3)
  obtain ls lc where l: "setEndpointSliceLabels s svc (controllerName r) = (ls, lc)" by fastforce
  from assms(1) have names: "group_names P g" and sub: "desiredEps g \<subseteq>\<^sub>f D"
    and bag: "names_bag u (slicesByName g) (live g) + dom_bag (desiredEps g) = dom_bag D"
    by (simp_all add: group_inv_def)
  note keep = keep_endpoints_spec [OF k keyed_sub [OF assms(2) sub]]
  have lab: "labels_ok r svc (s\<lparr>es_Labels := ls\<rparr>)" "labels_ok r svc (s\<lparr>es_Labels := ls, es_Endpoints := keep\<rparr>)"
    "lc \<or> labels_ok r svc s"
    using labels_ok_set [of r svc s s] l by (simp_all add: labels_ok_def [of r svc s])
  have n: "?n \<notin> live g" "?n \<notin> fset (sliceNamesToDelete g)" using names assms(3) by (auto simp: group_names_def)
  have d: "d \<subseteq>\<^sub>f D" by (rule fmsubset_trans [OF keep(2) sub])
  have kept: "good_endpoint u D ep" if "ep \<in> set keep" for ep
    using keep(3) [OF that] fmsubsetD [OF sub] by (auto simp: good_endpoint_def)
  show ?thesis
  proof (cases "(upd \<or> length (es_Endpoints s) \<noteq> length keep) \<and> keep = []")
    case True
    then have g': "?g' = g\<lparr>slicesByName := fmupd ?n s (slicesByName g), desiredEps := d,
        sliceNamesToDelete := finsert ?n (sliceNamesToDelete g)\<rparr>"
      by (auto simp: check_slice_def Let_def k l)
    have "group_names (P @ [s]) ?g'" using names n by (auto simp: g' group_names_def live_def)
    moreover have "live ?g' = live g" by (simp add: g' live_def)
    ultimately show ?thesis using assms(1) n d keep(1) True
      by (auto simp: group_inv_def g' names_bag_frame)
  next
    case False
    then obtain s' where s': "slicesByName ?g' = fmupd ?n s' (slicesByName g)" "es_Name s' = ?n"
      "es_Endpoints s' = keep \<or> es_Endpoints s' = es_Endpoints s \<and> \<not> upd \<and> length keep = length (es_Endpoints s)"
      "sliceNamesToDelete ?g' = sliceNamesToDelete g" "desiredEps ?g' = d"
      "sliceNamesToUpdate ?g' = finsert ?n (sliceNamesToUpdate g) \<and> sliceNamesUnchanged ?g' = sliceNamesUnchanged g \<or>
       sliceNamesToUpdate ?g' = sliceNamesToUpdate g \<and> sliceNamesUnchanged ?g' = finsert ?n (sliceNamesUnchanged g) \<and> s' = s"
      "labels_ok r svc s'"
      using lab by (cases "upd \<or> length (es_Endpoints s) \<noteq> length keep"; cases lc) (auto simp: check_slice_def Let_def k l)
    have live: "live ?g' = insert ?n (live g)" using s'(6) by (auto simp: live_def)
    have "group_names (P @ [s]) ?g'"
      using s'(6)
    proof
      assume "sliceNamesToUpdate ?g' = finsert ?n (sliceNamesToUpdate g) \<and> sliceNamesUnchanged ?g' = sliceNamesUnchanged g"
      with names n s'(1,2,4) live show ?thesis by (auto simp: group_names_def live_def)
    next
      assume "sliceNamesToUpdate ?g' = sliceNamesToUpdate g \<and> sliceNamesUnchanged ?g' = finsert ?n (sliceNamesUnchanged g) \<and> s' = s"
      with names n s'(1,2,4) live show ?thesis by (auto simp: group_names_def live_def)
    qed
    moreover have "names_bag u (slicesByName ?g') (live ?g') + dom_bag d = dom_bag D"
    proof -
      have "hash_bag u (es_Endpoints s') = hash_bag u keep" using s'(3) list_all2_hash_bag [OF keep(5)] by auto
      then show ?thesis unfolding bag [symmetric] keep(1) [symmetric]
        by (simp add: live s'(1) names_bag_insert names_bag_frame n ac_simps)
    qed
    moreover have "good_endpoint u D ep" if "ep \<in> set (es_Endpoints s')" for ep
      using s'(3)
    proof
      assume "es_Endpoints s' = es_Endpoints s \<and> \<not> upd \<and> length keep = length (es_Endpoints s)"
      with that keep(5) obtain d where "d \<in> set keep" "su_hash u d = su_hash u ep" "su_equal u d ep"
        by (auto simp: list_all2_conv_all_nth in_set_conv_nth)
      with keep(3) fmsubsetD [OF sub] show ?thesis by (metis good_endpoint_def)
    qed (use that kept in simp)
    moreover have "length (es_Endpoints s') \<le> length (es_Endpoints s)" using s'(3) keep(4) by auto
    ultimately show ?thesis using assms(1) n d live s'(1,5,7) by (auto simp: group_inv_def)
  qed
qed

definition refill :: "string \<Rightarrow> EndpointSlice \<Rightarrow> 'h EndpointSet \<Rightarrow> 'h port_group \<Rightarrow> 'h port_group" where
  "refill n es d g = g\<lparr>desiredEps := d, slicesByName := fmupd n es (slicesByName g),
     sliceNamesToUpdate := finsert n (sliceNamesToUpdate g), sliceNamesUnchanged := sliceNamesUnchanged g |-| {|n|}\<rparr>"

lemma refill_inv:
  assumes "group_inv u r svc D P (g, created)" and "slice_util_ok u" and "keyed u D" and "n \<in> live g"
    and "fmlookup (slicesByName g) n = Some s" and "fill_endpoints u (maxEndpoints r) (es_Endpoints s) (desiredEps g) = (eps, d)"
  shows "group_inv u r svc D P (refill n (s\<lparr>es_Endpoints := eps\<rparr>) d g, created)"
proof -
  let ?g' = "refill n (s\<lparr>es_Endpoints := eps\<rparr>) d g"
  from assms(1) have names: "group_names P g" and sub: "desiredEps g \<subseteq>\<^sub>f D"
    and bag: "names_bag u (slicesByName g) (live g) + slices_bag u created + dom_bag (desiredEps g) = dom_bag D"
    by (simp_all add: group_inv_def)
  from fill_endpoints_spec [OF assms(2,6) keyed_sub [OF assms(3) sub]] obtain added where
    added: "eps = es_Endpoints s @ added" "hash_bag u added + dom_bag d = dom_bag (desiredEps g)" "d \<subseteq>\<^sub>f desiredEps g"
      "\<forall>ep\<in>set added. fmlookup (desiredEps g) (su_hash u ep) = Some ep" "length eps \<le> max (maxEndpoints r) (length (es_Endpoints s))"
    by blast
  have s: "eps_at (slicesByName g) n = es_Endpoints s" "es_Name s = n"
    using assms(5) names by (auto simp: eps_at_def group_names_def)
  have live: "live ?g' = live g" using assms(4) by (auto simp: live_def refill_def)
  have "group_names P ?g'" using names assms(4,5) s by (auto simp: group_names_def live_def refill_def)
  moreover have "names_bag u (slicesByName ?g') (live g) + slices_bag u created + dom_bag d = dom_bag D"
    unfolding bag [symmetric] added(2) [symmetric]
    by (simp add: refill_def names_bag_upd [OF _ assms(4)] names_bag_at [OF _ assms(4), of u "slicesByName g"] s added(1) ac_simps)
  moreover have "d \<subseteq>\<^sub>f D" by (rule fmsubset_trans [OF added(3) sub])
  moreover have "good_endpoint u D ep" if "m \<in> live g" "ep \<in> set (eps_at (slicesByName ?g') m)" for m ep
  proof (cases "ep \<in> set added")
    case True
    with added(4) fmsubsetD [OF sub] show ?thesis by (auto simp: good_endpoint_def)
  next
    case False
    with that assms(1) s(1) added(1) show ?thesis by (auto simp: group_inv_def refill_def split: if_splits)
  qed
  moreover have "length (eps_at (slicesByName ?g') m) \<le> maxEndpoints r"
    if "\<forall>es \<in> set P. length (es_Endpoints es) \<le> maxEndpoints r" "m \<in> live g" for m
  proof -
    from that assms(1) have "\<forall>m \<in> live g. length (eps_at (slicesByName g) m) \<le> maxEndpoints r" by (simp add: group_inv_def)
    with that(2) assms(4) s(1) added(5) show ?thesis by (auto simp: refill_def)
  qed
  moreover have "labels_ok r svc es" if "m \<in> live g" "fmlookup (slicesByName ?g') m = Some es" for m es
    using that assms(1,4,5) by (auto simp: group_inv_def refill_def split: if_splits)
  ultimately show ?thesis using assms(1) unfolding group_inv_def case_prod_conv live
    by (simp add: refill_def)
qed

lemma fill_named_inv:
  assumes "group_inv u r svc D P (g, created)" and "slice_util_ok u" and "keyed u D" and "n \<in> fset (sliceNamesToUpdate g)"
  shows "group_inv u r svc D P (fill_named u (maxEndpoints r) g n, created)"
    and "sliceNamesToUpdate (fill_named u (maxEndpoints r) g n) = sliceNamesToUpdate g"
proof -
  from assms(1,4) have names: "group_names P g" and n: "n \<in> live g" by (auto simp: group_inv_def live_def)
  then have "n \<in> fset (fmdom (slicesByName g))" by (auto simp: group_names_def live_def)
  then obtain s where s: "fmlookup (slicesByName g) n = Some s" by (meson fmdomE)
  obtain eps d where f: "fill_endpoints u (maxEndpoints r) (es_Endpoints s) (desiredEps g) = (eps, d)" by fastforce
  have same: "finsert n (sliceNamesToUpdate g) = sliceNamesToUpdate g"
    "sliceNamesUnchanged g |-| {|n|} = sliceNamesUnchanged g"
    using assms(4) names by (auto simp: group_names_def)
  have eq: "fill_named u (maxEndpoints r) g n = refill n (s\<lparr>es_Endpoints := eps\<rparr>) d g"
    by (rule port_group.equality) (simp_all add: fill_named_def s f refill_def same)
  from refill_inv [OF assms(1-3) n s f] show "group_inv u r svc D P (fill_named u (maxEndpoints r) g n, created)" by (simp add: eq)
  show "sliceNamesToUpdate (fill_named u (maxEndpoints r) g n) = sliceNamesToUpdate g" by (simp add: eq refill_def same)
qed

lemma fill_updated_inv:
  assumes "group_inv u r svc D P (g, created)" and "slice_util_ok u" and "keyed u D"
  shows "group_inv u r svc D P (fill_updated u (maxEndpoints r) g, created)"
proof -
  have "group_inv u r svc D P (foldl (fill_named u (maxEndpoints r)) g ns, created)" if "set ns \<subseteq> fset (sliceNamesToUpdate g)" for ns
    using that assms(1)
  proof (induction ns arbitrary: g)
    case (Cons n ns)
    from fill_named_inv [OF Cons.prems(2) assms(2,3), of n] Cons.prems(1) Cons.IH [of "fill_named u (maxEndpoints r) g n"]
    show ?case by simp
  qed simp
  moreover have "set (su_names u ns) = fset ns" for ns using assms(2) by (simp add: slice_util_ok_def)
  ultimately show ?thesis using assms(1) by (simp add: fill_updated_def)
qed

lemma slice_to_fill_Some:
  assumes "slice_to_fill ess n m c cs = Some es"
  shows "cs = Some es \<or> es \<in> set ess \<and> n + int (length (es_Endpoints es)) \<le> m"
  using assms by (induction ess n m c cs rule: slice_to_fill.induct) (auto simp: Let_def split: if_splits)

lemma fill_round_inv:
  assumes "group_inv u r svc D P (g, created)" and "slice_util_ok u" and "keyed u D"
    and "[] \<notin> es_Name ` set P" and "0 < maxEndpoints r" and "desiredEps g \<noteq> fmempty"
  shows "group_inv u r svc D P (fill_round u r svc meta (g, created))"
    and "fm_size (desiredEps (fst (fill_round u r svc meta (g, created)))) < fm_size (desiredEps g)"
proof -
  let ?n = "fm_size (desiredEps g)" and ?m = "maxEndpoints r"
  define es where "es = (case unchanged_to_fill u r g of None \<Rightarrow> newEndpointSlice svc meta (controllerName r) | Some s \<Rightarrow> s)"
  obtain eps d where f: "fill_endpoints u ?m (es_Endpoints es) (desiredEps g) = (eps, d)" by fastforce
  from assms(1) have names: "group_names P g" and sub: "desiredEps g \<subseteq>\<^sub>f D"
    and bag: "names_bag u (slicesByName g) (live g) + slices_bag u created + dom_bag (desiredEps g) = dom_bag D"
    by (simp_all add: group_inv_def)
  note spec = fill_endpoints_spec [OF assms(2) f keyed_sub [OF assms(3) sub]]
  have "group_inv u r svc D P (fill_round u r svc meta (g, created)) \<and>
    fm_size (desiredEps (fst (fill_round u r svc meta (g, created)))) < fm_size (desiredEps g)"
  proof (cases "unchanged_to_fill u r g")
    case None
    then have es: "es_Endpoints es = []" "es_Name es = []" "es = newEndpointSlice svc meta (controllerName r)"
      by (simp_all add: es_def newEndpointSlice_def Let_def)
    have eq: "fill_round u r svc meta (g, created) = (g\<lparr>desiredEps := d\<rparr>, created @ [es\<lparr>es_Endpoints := eps\<rparr>])"
      using None f by (simp add: fill_round_def Let_def flip: es(3))
    from spec es(1) obtain added where
      added: "eps = added" "hash_bag u added + dom_bag d = dom_bag (desiredEps g)" "d \<subseteq>\<^sub>f desiredEps g"
        "\<forall>ep\<in>set added. fmlookup (desiredEps g) (su_hash u ep) = Some ep" "length eps \<le> ?m" "fm_size d < fm_size (desiredEps g)"
      using assms(5,6) by auto
    have "labels_ok r svc es"
      unfolding es(3) newEndpointSlice_def Let_def by (rule labels_ok_set)
    moreover have "group_names P (g\<lparr>desiredEps := d\<rparr>)" and "live (g\<lparr>desiredEps := d\<rparr>) = live g"
      using names by (simp_all add: group_names_def live_def)
    moreover have "good_endpoint u D ep" if "ep \<in> set eps" for ep
      using added(1,4) that fmsubsetD [OF sub] by (auto simp: good_endpoint_def)
    moreover have "names_bag u (slicesByName g) (live g) + (slices_bag u created + hash_bag u eps) + dom_bag d = dom_bag D"
      unfolding bag [symmetric] added(2) [symmetric] by (simp add: added(1) ac_simps)
    ultimately show ?thesis
      unfolding eq using assms(1) es(2) added fmsubset_trans [OF added(3) sub] by (auto simp: group_inv_def)
  next
    case (Some s)
    have "set (su_names u ns) = fset ns" for ns using assms(2) by (simp add: slice_util_ok_def)
    note names_set = this
    from Some have "getSliceToFill (slices_named g (su_names u (sliceNamesUnchanged g))) (int ?n) (int ?m) = Some s"
      by (simp add: unchanged_to_fill_def Let_def split: if_splits)
    then have "s \<in> set (slices_named g (su_names u (sliceNamesUnchanged g)))"
      and fits: "int ?n + int (length (es_Endpoints s)) \<le> int ?m"
      unfolding getSliceToFill_def by (auto dest!: slice_to_fill_Some)
    then obtain n where n: "n \<in> fset (sliceNamesUnchanged g)" "fmlookup (slicesByName g) n = Some s"
      by (auto simp: slices_named_def in_set_map_filter names_set)
    have ne: "es_Name s = n" "n \<noteq> []" using n names assms(4) by (auto simp: group_names_def live_def)
    have es: "es = s" using Some by (simp add: es_def)
    have eq: "fill_round u r svc meta (g, created) = (refill n (s\<lparr>es_Endpoints := eps\<rparr>) d g, created)"
      using Some f ne by (simp add: fill_round_def Let_def es refill_def)
    have "0 < fm_size (desiredEps g)" using assms(6) by (metis fm_size_0_iff gr0I)
    then have "fm_size d < fm_size (desiredEps g)" using spec fits assms(6) es by auto
    with refill_inv [OF assms(1-3) _ n(2) f [unfolded es]] n(1) show ?thesis by (simp add: eq live_def refill_def)
  qed
  then show "group_inv u r svc D P (fill_round u r svc meta (g, created))"
    and "fm_size (desiredEps (fst (fill_round u r svc meta (g, created)))) < fm_size (desiredEps g)" by auto
qed

lemma fill_rest_inv:
  assumes "group_inv u r svc D P st" and "slice_util_ok u" and "keyed u D"
    and "[] \<notin> es_Name ` set P" and "0 < maxEndpoints r"
  shows "\<exists>g created. fill_rest u r svc meta st = Some (g, created) \<and> desiredEps g = fmempty \<and>
    group_inv u r svc D P (g, created)"
  using assms(1)
proof (induction "fm_size (desiredEps (fst st))" arbitrary: st rule: less_induct)
  case less
  obtain g created where st: "st = (g, created)" by fastforce
  show ?case
  proof (cases "desiredEps g = fmempty")
    case False
    note round = fill_round_inv [OF less.prems [unfolded st] assms(2-5) False, of meta]
    have "fill_rest u r svc meta st = fill_rest u r svc meta (fill_round u r svc meta st)"
      using False st by (subst fill_rest.simps) simp
    with less.hyps [OF _ round(1)] round(2) st show ?thesis by simp
  qed (use less.prems st in \<open>simp add: fill_rest.simps\<close>)
qed

section \<open>The plan of a group\<close>

text \<open>The slices there are once a plan has been carried out.\<close>

definition slices_after :: "EndpointSlice list \<Rightarrow> slice_plan \<Rightarrow> EndpointSlice list" where
  "slices_after existing = (\<lambda>(create, update, delete).
     filter (\<lambda>es. es_Name es \<notin> es_Name ` set (update @ delete)) existing @ update @ create)"

lemma slices_bag_named:
  "distinct ns \<Longrightarrow> slices_bag u (slices_named g ns) = names_bag u (slicesByName g) (set ns)"
  by (induction ns) (auto simp: slices_named_def List.map_filter_simps names_bag_insert eps_at_def split: option.splits)

lemma slices_bag_filter:
  assumes "distinct (map es_Name ess)" and "\<And>es. es \<in> set ess \<Longrightarrow> es_Name es \<in> N \<Longrightarrow> eps_at m (es_Name es) = es_Endpoints es"
  shows "slices_bag u (filter (\<lambda>es. es_Name es \<in> N) ess) = names_bag u m (es_Name ` set ess \<inter> N)"
  using assms
proof (induction ess)
  case (Cons es ess)
  from Cons.prems have "es_Name es \<notin> es_Name ` set ess \<inter> N" by auto
  with Cons show ?case by (cases "es_Name es \<in> N") (simp_all add: names_bag_insert)
qed simp

lemma group_plan_after:
  assumes "group_names P g" and "slice_util_ok u" and "distinct (map es_Name P)"
  defines "S \<equiv> filter (\<lambda>es. es_Name es \<in> fset (sliceNamesUnchanged g)) P"
  shows "slices_after P (created, slices_named g (su_names u (sliceNamesToUpdate g)), slices_named g (su_names u (sliceNamesToDelete g))) =
      S @ slices_named g (su_names u (sliceNamesToUpdate g)) @ created"
    and "\<And>es. es \<in> set S \<Longrightarrow> fmlookup (slicesByName g) (es_Name es) = Some es"
    and "\<And>es ns. es \<in> set (slices_named g (su_names u ns)) \<Longrightarrow>
      fmlookup (slicesByName g) (es_Name es) = Some es \<and> es_Name es |\<in>| ns"
proof -
  have names: "set (su_names u ns) = fset ns" for ns using assms(2) by (simp add: slice_util_ok_def)
  show named: "fmlookup (slicesByName g) (es_Name es) = Some es \<and> es_Name es |\<in>| ns"
    if "es \<in> set (slices_named g (su_names u ns))" for es ns
    using that assms(1) by (auto simp: slices_named_def in_set_map_filter names group_names_def)
  have img: "es_Name ` set (slices_named g (su_names u ns)) = fset ns" if "fset ns \<subseteq> fset (fmdom (slicesByName g))" for ns
  proof (intro equalityI subsetI)
    fix n assume "n \<in> fset ns"
    with that obtain es where "fmlookup (slicesByName g) n = Some es" by (meson fmdomE subsetD)
    with \<open>n \<in> fset ns\<close> assms(1) show "n \<in> es_Name ` set (slices_named g (su_names u ns))"
      by (force simp: slices_named_def in_set_map_filter names group_names_def)
  qed (use named in auto)
  have sub: "fset (sliceNamesToUpdate g) \<subseteq> fset (fmdom (slicesByName g))" "fset (sliceNamesToDelete g) \<subseteq> fset (fmdom (slicesByName g))"
    using assms(1) by (auto simp: group_names_def live_def)
  have "es_Name es \<notin> fset (sliceNamesToUpdate g) \<union> fset (sliceNamesToDelete g) \<longleftrightarrow> es_Name es \<in> fset (sliceNamesUnchanged g)"
    if "es \<in> set P" for es
    using assms(1) that by (auto simp: group_names_def live_def)
  then show "slices_after P (created, slices_named g (su_names u (sliceNamesToUpdate g)), slices_named g (su_names u (sliceNamesToDelete g))) =
      S @ slices_named g (su_names u (sliceNamesToUpdate g)) @ created"
    by (auto simp: slices_after_def S_def image_Un img sub intro: filter_cong)
  show "fmlookup (slicesByName g) (es_Name es) = Some es" if "es \<in> set S" for es
  proof -
    from that have es: "es \<in> set P" "es_Name es \<in> fset (sliceNamesUnchanged g)" by (auto simp: S_def)
    then have "es_Name es |\<in>| fmdom (slicesByName g)" using assms(1) by (auto simp: group_names_def)
    then obtain es' where "fmlookup (slicesByName g) (es_Name es) = Some es'" by (rule fmdomE)
    moreover from this have "es' \<in> set P" "es_Name es' = es_Name es"
      using assms(1) es(2) unfolding group_names_def by blast+
    ultimately show ?thesis using es(1) assms(3) by (auto simp: distinct_map dest: inj_onD)
  qed
qed

lemma checked_inv:
  assumes "keyed u D" and "distinct (map es_Name existing)"
  shows "group_inv u r svc D existing (foldl (check_slice u r svc) (empty_group D) existing, [])"
proof -
  have "group_inv u r svc D (P @ Q) (foldl (check_slice u r svc) g Q, [])"
    if "group_inv u r svc D P (g, [])" "distinct (map es_Name (P @ Q))" for P Q g
    using that
  proof (induction Q arbitrary: P g)
    case (Cons s Q)
    from check_slice_inv [OF Cons.prems(1) assms(1)] Cons.prems(2) Cons.IH [of "P @ [s]"] show ?case by simp
  qed simp
  from this [OF group_inv_init, of existing] assms(2) show ?thesis by simp
qed

text \<open>What a finished group leaves; the last fact is what a second reconciliation will find.\<close>

lemma group_result:
  assumes inv: "group_inv u r svc D P (g, created)" and d: "desiredEps g = fmempty"
    and u: "slice_util_ok u" and names: "distinct (map es_Name P)"
  defines "up \<equiv> slices_named g (su_names u (sliceNamesToUpdate g))" and "del \<equiv> slices_named g (su_names u (sliceNamesToDelete g))"
  defines "S \<equiv> slices_after P (created, up, del)"
  shows "slices_bag u S = dom_bag D" and "es_Name ` set up \<subseteq> es_Name ` set P" and "set del \<subseteq> set P"
    and "\<And>es. es \<in> set S \<Longrightarrow> (\<forall>ep \<in> set (es_Endpoints es). good_endpoint u D ep) \<and> labels_ok r svc es \<and>
      ((\<forall>es \<in> set P. length (es_Endpoints es) \<le> maxEndpoints r) \<longrightarrow> length (es_Endpoints es) \<le> maxEndpoints r)"
proof -
  let ?S = "filter (\<lambda>es. es_Name es \<in> fset (sliceNamesUnchanged g)) P"
  from inv have gn: "group_names P g"
    and bag: "names_bag u (slicesByName g) (live g) + slices_bag u created = dom_bag D"
    and new: "\<And>es. es \<in> set created \<Longrightarrow> (\<forall>ep \<in> set (es_Endpoints es). good_endpoint u D ep) \<and>
      length (es_Endpoints es) \<le> maxEndpoints r \<and> labels_ok r svc es"
    by (simp_all add: group_inv_def d)
  note after = group_plan_after [OF gn u names, folded up_def del_def]
  have S: "S = ?S @ up @ created" unfolding S_def by (rule after(1))
  have disj: "fset (sliceNamesUnchanged g) \<inter> fset (sliceNamesToUpdate g) = {}"
    and sub: "fset (sliceNamesUnchanged g) \<subseteq> es_Name ` set P" "fset (sliceNamesToUpdate g) \<subseteq> es_Name ` set P"
    and del: "\<And>n es. fmlookup (slicesByName g) n = Some es \<Longrightarrow> n |\<in>| sliceNamesToDelete g \<Longrightarrow> es \<in> set P"
    using gn unfolding group_names_def live_def by blast+
  have "slices_bag u ?S = names_bag u (slicesByName g) (fset (sliceNamesUnchanged g))"
    using slices_bag_filter [OF names, of "fset (sliceNamesUnchanged g)" "slicesByName g" u] after(2) sub
    by (simp add: Int_absorb1 eps_at_def)
  moreover have "slices_bag u up = names_bag u (slicesByName g) (fset (sliceNamesToUpdate g))"
    unfolding up_def using slices_bag_named u by (metis slice_util_ok_def)
  moreover have "names_bag u (slicesByName g) (live g) = names_bag u (slicesByName g) (fset (sliceNamesUnchanged g)) +
      names_bag u (slicesByName g) (fset (sliceNamesToUpdate g))"
    unfolding live_def names_bag_def using disj by (intro sum.union_disjoint) auto
  ultimately show "slices_bag u S = dom_bag D" using bag by (simp add: S ac_simps)
  show "es_Name ` set up \<subseteq> es_Name ` set P" using after(3) sub(2) unfolding up_def by blast
  show "set del \<subseteq> set P" using after(3) del unfolding del_def by blast
  fix es assume "es \<in> set S"
  then consider "es \<in> set created" | "es_Name es \<in> live g" "fmlookup (slicesByName g) (es_Name es) = Some es"
    unfolding S using after(2,3) by (auto simp: up_def live_def)
  then show "(\<forall>ep \<in> set (es_Endpoints es). good_endpoint u D ep) \<and> labels_ok r svc es \<and>
      ((\<forall>es \<in> set P. length (es_Endpoints es) \<le> maxEndpoints r) \<longrightarrow> length (es_Endpoints es) \<le> maxEndpoints r)"
  proof cases
    case 2
    then have "eps_at (slicesByName g) (es_Name es) = es_Endpoints es" by (simp add: eps_at_def)
    with 2 inv show ?thesis by (force simp: group_inv_def)
  qed (use new in simp)
qed

lemma reconcile_group_run:
  assumes "slice_util_ok u" and "keyed u D" and "0 < maxEndpoints r"
    and "distinct (map es_Name existing)" and "[] \<notin> es_Name ` set existing"
  shows "\<exists>g created. reconcileEndpointsByPortMap u r svc existing D meta = Some (created,
      slices_named g (su_names u (sliceNamesToUpdate g)), slices_named g (su_names u (sliceNamesToDelete g))) \<and>
    desiredEps g = fmempty \<and> group_inv u r svc D existing (g, created)"
  using fill_rest_inv [OF fill_updated_inv [OF checked_inv [OF assms(2,4)] assms(1,2)] assms(1,2,5,3), of svc meta]
  by (fastforce simp: reconcileEndpointsByPortMap_def Let_def)

text \<open>An instance of the parameters: endpoints are told apart by their addresses.\<close>

definition sample_util :: "(string list, int list) slice_util" where
  "sample_util =
     \<lparr>su_hash = ep_Addresses, su_equal = (=), su_pop = (\<lambda>m. hd (sorted_list_of_fset (fmdom m))),
      su_portkey = map (\<lambda>p. case port_Port p of None \<Rightarrow> 0 | Some n \<Rightarrow> sint n),
      su_names = sorted_list_of_fset, su_keys = sorted_list_of_fset, su_isIPv6 = (\<lambda>ip. CHR '':'' \<in> set ip)\<rparr>"

lemma sample_util_ok: "slice_util_ok sample_util"
proof -
  have "hd (sorted_list_of_fset (fmdom m)) |\<in>| fmdom m" if "m \<noteq> fmempty" for m :: "string list EndpointSet"
  proof -
    have "fmdom m \<noteq> {||}" using that by (metis fcard_fempty fm_size_0_iff fm_size_def)
    then have "sorted_list_of_fset (fmdom m) \<noteq> []" by (metis bot_fset.rep_eq fset_inject set_empty sorted_list_of_fset_simps(1))
    then have "hd (sorted_list_of_fset (fmdom m)) \<in> set (sorted_list_of_fset (fmdom m))" by (rule hd_in_set)
    then show ?thesis by simp
  qed
  then show ?thesis by (simp add: slice_util_ok_def sample_util_def sorted_list_of_fset.rep_eq)
qed

definition sample_reconciler :: endpointsReconciler where
  "sample_reconciler = \<lparr>controllerName = ''linkerd-external-workloads-controller'', maxEndpoints = 2\<rparr>"

definition sample_desired :: "string list EndpointSet" where
  "sample_desired =
     fmupd [''10.0.0.1''] (sample_endpoint\<lparr>ep_Zone := Some ''east''\<rparr>)
    (fmupd [''10.0.0.2''] (sample_endpoint\<lparr>ep_Addresses := [''10.0.0.2'']\<rparr>)
    (fmupd [''10.0.0.3''] (sample_endpoint\<lparr>ep_Addresses := [''10.0.0.3'']\<rparr>) fmempty))"

lemma sample_desired_keyed: "keyed sample_util sample_desired"
  by (simp add: keyed_def sample_util_def sample_desired_def sample_endpoint_def)

text \<open>
  C25. The reconciler of one group of ports returns, and the slices its plan leaves hold every
  desired endpoint exactly once and no other, each as desired or equal to it beyond its hash.
  No slice outgrows the limit unless it was over it before, and the slices to update and to
  delete are among the existing ones.
\<close>

theorem reconcile_group_exact:
  assumes "slice_util_ok u" and "keyed u D" and "0 < maxEndpoints r"
    and "distinct (map es_Name existing)" and "[] \<notin> es_Name ` set existing"
  shows "\<exists>create update delete. reconcileEndpointsByPortMap u r svc existing D meta = Some (create, update, delete) \<and>
    (let S = slices_after existing (create, update, delete)
     in slices_bag u S = dom_bag D \<and>
        (\<forall>es \<in> set S. \<forall>ep \<in> set (es_Endpoints es). good_endpoint u D ep) \<and>
        ((\<forall>es \<in> set existing. length (es_Endpoints es) \<le> maxEndpoints r) \<longrightarrow>
           (\<forall>es \<in> set S. length (es_Endpoints es) \<le> maxEndpoints r)) \<and>
        es_Name ` set update \<subseteq> es_Name ` set existing \<and> set delete \<subseteq> set existing)"
proof -
  from reconcile_group_run [OF assms, of svc meta] obtain g created where
    run: "reconcileEndpointsByPortMap u r svc existing D meta = Some (created,
      slices_named g (su_names u (sliceNamesToUpdate g)), slices_named g (su_names u (sliceNamesToDelete g)))"
    and "desiredEps g = fmempty" "group_inv u r svc D existing (g, created)" by blast
  note res = group_result [OF this(3,2) assms(1,4)]
  show ?thesis unfolding Let_def
    by (intro exI conjI ballI impI) (rule run res(1-3) | use res(4) in blast)+
qed

theorem reconcile_group_exact_witness:
  "\<exists>create update delete.
     reconcileEndpointsByPortMap sample_util sample_reconciler sample_service [sample_slice] sample_desired
       \<lparr>meta_ports = [], meta_addressType = ''IPv4''\<rparr> = Some (create, update, delete) \<and>
     slices_bag sample_util (slices_after [sample_slice] (create, update, delete)) = dom_bag sample_desired"
  using reconcile_group_exact [OF sample_util_ok sample_desired_keyed, of sample_reconciler "[sample_slice]" sample_service
      "\<lparr>meta_ports = [], meta_addressType = ''IPv4''\<rparr>"]
  by (fastforce simp: sample_reconciler_def sample_slice_def Let_def)

text \<open>A group that needs no writes.\<close>

definition settled :: "('h, 'k) slice_util \<Rightarrow> 'h EndpointSet \<Rightarrow> Endpoint \<Rightarrow> bool" where
  "settled u D ep \<longleftrightarrow> (\<exists>d. fmlookup D (su_hash u ep) = Some d \<and> su_equal u d ep)"

lemma keep_settled:
  assumes "hash_bag u eps \<subseteq># dom_bag desired" and "desired \<subseteq>\<^sub>f D" and "\<forall>ep\<in>set eps. settled u D ep"
  shows "\<exists>keep desired'. keep_endpoints u desired eps = (keep, False, desired') \<and> length keep = length eps \<and>
    hash_bag u eps + dom_bag desired' = dom_bag desired \<and> desired' \<subseteq>\<^sub>f desired"
  using assms
proof (induction eps arbitrary: desired)
  case (Cons ep eps)
  let ?h = "su_hash u ep"
  from Cons.prems(1) have "?h \<in># dom_bag desired" by (auto dest: mset_subset_eq_insertD)
  then obtain found where found: "fmlookup desired ?h = Some found" by (auto simp: dom_bag_def fmlookup_dom_iff)
  have "su_equal u found ep" using Cons.prems(2,3) fmsubsetD [OF Cons.prems(2) found] by (auto simp: settled_def)
  moreover have "hash_bag u eps \<subseteq># dom_bag (fmdrop ?h desired)"
    using Cons.prems(1) by (simp flip: dom_bag_drop [OF found])
  ultimately show ?case
    using Cons.IH [of "fmdrop ?h desired"] Cons.prems(2,3) found fmsubset_trans [OF fmsubset_drop [of ?h desired]]
    by (auto simp flip: dom_bag_drop [OF found] intro: fmsubset_trans [OF _ fmsubset_drop])
qed (auto simp: fmsubset_alt_def fmpred_iff)

lemma settled_fold:
  assumes "slices_bag u S = dom_bag (desiredEps g)" and "desiredEps g \<subseteq>\<^sub>f D"
    and "\<forall>es\<in>set S. labels_ok r svc es \<and> (\<forall>ep\<in>set (es_Endpoints es). settled u D ep)"
    and "sliceNamesToUpdate g = {||}" and "sliceNamesToDelete g = {||}"
  shows "let g' = foldl (check_slice u r svc) g S
    in sliceNamesToUpdate g' = {||} \<and> sliceNamesToDelete g' = {||} \<and> desiredEps g' = fmempty"
  using assms
proof (induction S arbitrary: g)
  case Nil
  then have "fset (fmdom (desiredEps g)) = {}" by (simp add: dom_bag_def mset_set_empty_iff)
  then have "fm_size (desiredEps g) = 0" by (simp add: fm_size_def fcard.rep_eq)
  with Nil show ?case by simp
next
  case (Cons es S)
  obtain ls lc where l: "setEndpointSliceLabels es svc (controllerName r) = (ls, lc)" by fastforce
  from Cons.prems(1) have "hash_bag u (es_Endpoints es) \<subseteq># dom_bag (desiredEps g)"
    by (metis mset_subset_eq_add_left slices_bag_simps(2))
  from keep_settled [OF this Cons.prems(2)] Cons.prems(3) obtain keep d where
    k: "keep_endpoints u (desiredEps g) (es_Endpoints es) = (keep, False, d)" "length keep = length (es_Endpoints es)"
      "hash_bag u (es_Endpoints es) + dom_bag d = dom_bag (desiredEps g)" "d \<subseteq>\<^sub>f desiredEps g" by auto
  let ?g' = "check_slice u r svc g es"
  have "sliceNamesToUpdate ?g' = {||}" "sliceNamesToDelete ?g' = {||}" "desiredEps ?g' = d"
    using Cons.prems(3-5) k(1,2) l by (simp_all add: check_slice_def Let_def labels_ok_def)
  moreover have "slices_bag u S = dom_bag d" using Cons.prems(1) k(3) by (metis add_left_cancel slices_bag_simps(2))
  ultimately show ?case
    using Cons.IH [of ?g'] Cons.prems(2,3) fmsubset_trans [OF k(4)] by simp
qed

lemma settled_group:
  assumes "slices_bag u S = dom_bag D" and "slice_util_ok u"
    and "\<forall>es\<in>set S. labels_ok r svc es \<and> (\<forall>ep\<in>set (es_Endpoints es). settled u D ep)"
  shows "reconcileEndpointsByPortMap u r svc S D meta = Some ([], [], [])"
proof -
  have "su_names u {||} = []" using assms(2) by (metis bot_fset.rep_eq set_empty slice_util_ok_def)
  moreover have "D \<subseteq>\<^sub>f D" by (auto simp: fmsubset_alt_def fmpred_iff)
  ultimately show ?thesis
    using settled_fold [of u S "empty_group D" D r svc] assms(1,3)
    by (auto simp: reconcileEndpointsByPortMap_def Let_def empty_group_def fill_updated_def fill_rest.simps slices_named_def
        List.map_filter_simps)
qed

text \<open>
  C26. Reconciliation settles: once the plan of a group has been carried out and the API server
  has named the new slices, reconciling the same desired endpoints again writes nothing.
\<close>

theorem reconcile_settles:
  assumes "slice_util_ok u" and "\<forall>ep. su_equal u ep ep" and "keyed u D" and "0 < maxEndpoints r"
    and "distinct (map es_Name existing)" and "[] \<notin> es_Name ` set existing"
    and "reconcileEndpointsByPortMap u r svc existing D meta = Some (create, update, delete)"
    and "list_all2 (\<lambda>es es'. es' = es\<lparr>es_Name := es_Name es'\<rparr>) create created"
  shows "reconcileEndpointsByPortMap u r svc (slices_after existing (created, update, delete)) D meta = Some ([], [], [])"
proof -
  from reconcile_group_run [OF assms(1,3-6), of svc meta] assms(7) obtain g where
    g: "desiredEps g = fmempty" "group_inv u r svc D existing (g, create)"
    and up: "update = slices_named g (su_names u (sliceNamesToUpdate g))"
    and del: "delete = slices_named g (su_names u (sliceNamesToDelete g))" by auto
  note res = group_result [OF g(2,1) assms(1,5), folded up del]
  have lab: "labels_ok r svc (es\<lparr>es_Name := n\<rparr>) = labels_ok r svc es" for es n
    by (simp add: labels_ok_def setEndpointSliceLabels_def Let_def)
  have same: "map es_Endpoints created = map es_Endpoints create \<and>
      (\<forall>es'\<in>set created. \<exists>es\<in>set create. es_Endpoints es' = es_Endpoints es \<and> labels_ok r svc es' = labels_ok r svc es)"
    using assms(8)
  proof (induction rule: list_all2_induct)
    case (Cons es ess es' ess')
    from arg_cong [OF Cons(1), of es_Endpoints] arg_cong [OF Cons(1), of "labels_ok r svc"]
    have "es_Endpoints es' = es_Endpoints es" "labels_ok r svc es' = labels_ok r svc es" by (simp_all add: lab)
    with Cons.IH show ?case by auto
  qed simp
  show ?thesis
  proof (rule settled_group [OF _ assms(1)])
    show "slices_bag u (slices_after existing (created, update, delete)) = dom_bag D"
      using res(1) same by (simp add: slices_after_def slices_bag_def)
    show "\<forall>es\<in>set (slices_after existing (created, update, delete)).
        labels_ok r svc es \<and> (\<forall>ep\<in>set (es_Endpoints es). settled u D ep)"
    proof
      fix es' assume "es' \<in> set (slices_after existing (created, update, delete))"
      then obtain es where "es \<in> set (slices_after existing (create, update, delete))"
        "es_Endpoints es' = es_Endpoints es" "labels_ok r svc es' = labels_ok r svc es"
        using same by (auto simp: slices_after_def)
      with res(4) [of es] assms(2) show "labels_ok r svc es' \<and> (\<forall>ep\<in>set (es_Endpoints es'). settled u D ep)"
        by (auto simp: good_endpoint_def settled_def)
    qed
  qed
qed

theorem reconcile_settles_witness:
  "\<exists>create update delete.
     reconcileEndpointsByPortMap sample_util sample_reconciler sample_service [sample_slice] sample_desired
       \<lparr>meta_ports = [], meta_addressType = ''IPv4''\<rparr> = Some (create, update, delete) \<and>
     reconcileEndpointsByPortMap sample_util sample_reconciler sample_service
       (slices_after [sample_slice] (map (\<lambda>es. es\<lparr>es_Name := ''web-new''\<rparr>) create, update, delete)) sample_desired
       \<lparr>meta_ports = [], meta_addressType = ''IPv4''\<rparr> = Some ([], [], [])"
proof -
  let ?meta = "\<lparr>meta_ports = [], meta_addressType = ''IPv4''\<rparr>"
  have names: "0 < maxEndpoints sample_reconciler" "distinct (map es_Name [sample_slice])" "[] \<notin> es_Name ` set [sample_slice]"
    by (simp_all add: sample_reconciler_def sample_slice_def)
  from reconcile_group_run [OF sample_util_ok sample_desired_keyed names, of sample_service ?meta]
  obtain create update delete where
    run: "reconcileEndpointsByPortMap sample_util sample_reconciler sample_service [sample_slice] sample_desired ?meta =
      Some (create, update, delete)" by blast
  have "list_all2 (\<lambda>es es'. es' = es\<lparr>es_Name := es_Name es'\<rparr>) create (map (\<lambda>es. es\<lparr>es_Name := ''web-new''\<rparr>) create)"
    by (simp add: list_all2_conv_all_nth)
  from reconcile_settles [OF sample_util_ok _ sample_desired_keyed names run this] run show ?thesis
    by (auto simp: sample_util_def)
qed

end
