(* ===== verification/Slice_Writes.thy ===== *)
theory Slice_Writes
  imports Slice_Reconciler
begin

text \<open>
  From the plans of the groups of ports to the writes
  (\<open>external-workload/endpoints_reconciler.go\<close>: \<open>reconcileByAddressType\<close>, \<open>finalize\<close>, \<open>reconcile\<close>).

  The API server is the parameter \<open>respond\<close>: its answer to a request, given the requests
  before it. Calls to the \<open>EndpointSliceTracker\<close> are recorded in the log.
\<close>

section \<open>One address type\<close>

definition slice_ports :: "EndpointSlice \<Rightarrow> EndpointPort list" where
  "slice_ports es = (case es_Ports es of None \<Rightarrow> [] | Some ports \<Rightarrow> ports)"

definition slice_key :: "('h, 'k) slice_util \<Rightarrow> EndpointSlice \<Rightarrow> 'k" where
  "slice_key u es = su_portkey u (slice_ports es)"

text \<open>\<open>m[k] = append(m[k], v)\<close>.\<close>

definition fm_append :: "'k \<Rightarrow> 'v \<Rightarrow> ('k, 'v list) fmap \<Rightarrow> ('k, 'v list) fmap" where
  "fm_append k v m = fmupd k ((case fmlookup m k of None \<Rightarrow> [] | Some vs \<Rightarrow> vs) @ [v]) m"

definition fm_list :: "('k, 'v list) fmap \<Rightarrow> 'k \<Rightarrow> 'v list" where
  "fm_list m k = (case fmlookup m k of None \<Rightarrow> [] | Some vs \<Rightarrow> vs)"

definition slices_by_ports ::
  "('h, 'k) slice_util \<Rightarrow> Service \<Rightarrow> EndpointSlice list \<Rightarrow> ('k, EndpointSlice list) fmap" where
  "slices_by_ports u svc existing =
     foldl (\<lambda>m es. if ownedBy es svc then fm_append (slice_key u es) es m else m) fmempty existing"

record ('h, 'k) desired_groups =
  desiredEndpointsByPortMap :: "('k, 'h EndpointSet) fmap"
  desiredMetaByPortMap :: "('k, endpointMeta) fmap"

definition add_workload ::
  "('h, 'k) slice_util \<Rightarrow> Service \<Rightarrow> string \<Rightarrow> ('h, 'k) desired_groups \<Rightarrow> ExternalWorkload \<Rightarrow> ('h, 'k) desired_groups" where
  "add_workload u svc addrType st ew =
     (if ew_WorkloadIPs ew = [] then st
      else
        let ports = findEndpointPorts svc ew;
            portHash = su_portkey u ports;
            meta = (if portHash |\<in>| fmdom (desiredMetaByPortMap st) then desiredMetaByPortMap st
              else fmupd portHash \<lparr>meta_ports = ports, meta_addressType = addrType\<rparr> (desiredMetaByPortMap st));
            eps = (if portHash |\<in>| fmdom (desiredEndpointsByPortMap st) then desiredEndpointsByPortMap st
              else fmupd portHash fmempty (desiredEndpointsByPortMap st));
            ep = externalWorkloadToEndpoint u addrType ew svc;
            eps = (if ep_Addresses ep \<noteq> []
              then (case fmlookup eps portHash of None \<Rightarrow> eps | Some s \<Rightarrow> fmupd portHash (fmupd (su_hash u ep) ep s) eps)
              else eps)
        in \<lparr>desiredEndpointsByPortMap = eps, desiredMetaByPortMap = meta\<rparr>)"

definition desired_workloads ::
  "('h, 'k) slice_util \<Rightarrow> Service \<Rightarrow> string \<Rightarrow> ExternalWorkload list \<Rightarrow> ('h, 'k) desired_groups" where
  "desired_workloads u svc addrType ews =
     foldl (add_workload u svc addrType) \<lparr>desiredEndpointsByPortMap = fmempty, desiredMetaByPortMap = fmempty\<rparr> ews"

text \<open>The plans of the desired groups, put together; \<open>None\<close> if one of them does not end.\<close>

fun plan_groups ::
  "('h, 'k) slice_util \<Rightarrow> endpointsReconciler \<Rightarrow> Service \<Rightarrow> ('k, EndpointSlice list) fmap \<Rightarrow> ('h, 'k) desired_groups \<Rightarrow>
     'k list \<Rightarrow> slice_plan option" where
  "plan_groups u r svc byPorts st [] = Some ([], [], [])"
| "plan_groups u r svc byPorts st (k # ks) =
     (case (fmlookup (desiredEndpointsByPortMap st) k, fmlookup (desiredMetaByPortMap st) k) of
        (Some desired, Some meta) \<Rightarrow>
          (case reconcileEndpointsByPortMap u r svc (fm_list byPorts k) desired meta of
             None \<Rightarrow> None
           | Some (c, up, d) \<Rightarrow> (case plan_groups u r svc byPorts st ks of
               None \<Rightarrow> None
             | Some (c', up', d') \<Rightarrow> Some (c @ c', up @ up', d @ d')))
      | _ \<Rightarrow> plan_groups u r svc byPorts st ks)"

definition planByAddressType ::
  "('h, 'k) slice_util \<Rightarrow> endpointsReconciler \<Rightarrow> Service \<Rightarrow> ExternalWorkload list \<Rightarrow> EndpointSlice list \<Rightarrow> string \<Rightarrow>
     slice_plan option" where
  "planByAddressType u r svc ews existing addrType =
     (let byPorts = slices_by_ports u svc existing;
          unowned = filter (\<lambda>es. \<not> ownedBy es svc) existing;
          st = desired_workloads u svc addrType ews;
          desired = fmdom (desiredEndpointsByPortMap st)
      in case plan_groups u r svc byPorts st (su_keys u desired) of
           None \<Rightarrow> None
         | Some (create, update, delete) \<Rightarrow>
             Some (create, update, unowned @ delete @
               concat (map (fm_list byPorts) (filter (\<lambda>k. k |\<notin>| desired) (su_keys u (fmdom byPorts))))))"

section \<open>The writes\<close>

datatype slice_request =
  CreateSlice string EndpointSlice | UpdateSlice string EndpointSlice | DeleteSlice string string

datatype write_error = NamespaceTerminating | WriteError string

datatype tracker_call = TrackUpdate EndpointSlice | TrackExpectDeletion EndpointSlice

record write_log =
  requests :: "slice_request list"
  tracked :: "tracker_call list"

type_synonym api_server = "slice_request list \<Rightarrow> slice_request \<Rightarrow> write_error + EndpointSlice"

text \<open>
  The loop of \<open>finalize\<close> over the slices to delete: while there are slices to create, an owned
  slice of the same address type is updated to one of them instead.
\<close>

fun reuse_deleted :: "Service \<Rightarrow> EndpointSlice list \<Rightarrow> EndpointSlice list \<Rightarrow> EndpointSlice list \<Rightarrow> slice_plan" where
  "reuse_deleted svc create update [] = (create, update, [])"
| "reuse_deleted svc create update (d # ds) =
     (if create = [] then (create, update, d # ds)
      else if es_AddressType d = es_AddressType (last create) \<and> ownedBy d svc
      then reuse_deleted svc (butlast create) (update @ [(last create)\<lparr>es_Name := es_Name d\<rparr>]) ds
      else (case reuse_deleted svc create update ds of (c, u, ds') \<Rightarrow> (c, u, d # ds')))"

text \<open>A request and what the tracker is told when it succeeds.\<close>

definition send ::
  "api_server \<Rightarrow> slice_request \<Rightarrow> (EndpointSlice \<Rightarrow> tracker_call) \<Rightarrow> write_log \<Rightarrow> (write_error \<times> write_log) + write_log" where
  "send respond req track wlog =
     (case respond (requests wlog) req of
        Inl e \<Rightarrow> Inl (e, wlog\<lparr>requests := requests wlog @ [req]\<rparr>)
      | Inr es \<Rightarrow> Inr (wlog\<lparr>requests := requests wlog @ [req], tracked := tracked wlog @ [track es]\<rparr>))"

fun send_all ::
  "api_server \<Rightarrow> (slice_request \<times> (EndpointSlice \<Rightarrow> tracker_call)) list \<Rightarrow> write_log \<Rightarrow> (write_error \<times> write_log) + write_log" where
  "send_all respond [] wlog = Inr wlog"
| "send_all respond ((req, track) # reqs) wlog = (case send respond req track wlog of
     Inl e \<Rightarrow> Inl e | Inr wlog \<Rightarrow> send_all respond reqs wlog)"

text \<open>The error it returns, if any. A namespace that is terminating ends the effort without an error.\<close>

definition finalize :: "api_server \<Rightarrow> Service \<Rightarrow> slice_plan \<Rightarrow> write_log \<Rightarrow> write_error option \<times> write_log" where
  "finalize respond svc = (\<lambda>(slicesToCreate, slicesToUpdate, slicesToDelete) wlog.
     let (create, update, delete) = reuse_deleted svc slicesToCreate slicesToUpdate slicesToDelete;
         ns = svc_Namespace svc
     in case (if svc_DeletionTimestamp svc = None
              then send_all respond (map (\<lambda>es. (CreateSlice ns es, TrackUpdate)) create) wlog else Inr wlog) of
          Inl (e, wlog) \<Rightarrow> (if e = NamespaceTerminating then None else Some e, wlog)
        | Inr wlog \<Rightarrow>
            (case send_all respond (map (\<lambda>es. (UpdateSlice ns es, TrackUpdate)) update @
                map (\<lambda>es. (DeleteSlice ns (es_Name es), \<lambda>_. TrackExpectDeletion es)) delete) wlog of
               Inl (e, wlog) \<Rightarrow> (Some e, wlog)
             | Inr wlog \<Rightarrow> (None, wlog)))"

definition reconcileByAddressType ::
  "('h, 'k) slice_util \<Rightarrow> endpointsReconciler \<Rightarrow> api_server \<Rightarrow> Service \<Rightarrow> ExternalWorkload list \<Rightarrow> EndpointSlice list \<Rightarrow>
     string \<Rightarrow> write_log \<Rightarrow> (write_error option \<times> write_log) option" where
  "reconcileByAddressType u r respond svc ews existing addrType wlog =
     map_option (\<lambda>plan. finalize respond svc plan wlog) (planByAddressType u r svc ews existing addrType)"

text \<open>\<open>reconcile\<close>: each supported address type in turn, then the slices of the others are deleted.\<close>

fun reconcile_types ::
  "('h, 'k) slice_util \<Rightarrow> endpointsReconciler \<Rightarrow> api_server \<Rightarrow> Service \<Rightarrow> ExternalWorkload list \<Rightarrow> EndpointSlice list \<Rightarrow>
     string list \<Rightarrow> write_log \<Rightarrow> (write_error list \<times> write_log) option" where
  "reconcile_types u r respond svc ews existing [] wlog = Some ([], wlog)"
| "reconcile_types u r respond svc ews existing (addrType # types) wlog =
     (case reconcileByAddressType u r respond svc ews (filter (\<lambda>es. es_AddressType es = addrType) existing) addrType wlog of
        None \<Rightarrow> None
      | Some (err, wlog) \<Rightarrow> (case reconcile_types u r respond svc ews existing types wlog of
          None \<Rightarrow> None
        | Some (errs, wlog) \<Rightarrow> Some ((case err of None \<Rightarrow> errs | Some e \<Rightarrow> e # errs), wlog)))"

fun delete_unsupported ::
  "api_server \<Rightarrow> string \<Rightarrow> EndpointSlice list \<Rightarrow> write_log \<Rightarrow> write_error list \<times> write_log" where
  "delete_unsupported respond ns [] wlog = ([], wlog)"
| "delete_unsupported respond ns (es # ess) wlog =
     (let req = DeleteSlice ns (es_Name es);
          (errs, wlog') = delete_unsupported respond ns ess (wlog\<lparr>requests := requests wlog @ [req]\<rparr>)
      in (case respond (requests wlog) req of Inl e \<Rightarrow> e # errs | Inr _ \<Rightarrow> errs, wlog'))"

definition reconcile ::
  "('h, 'k) slice_util \<Rightarrow> endpointsReconciler \<Rightarrow> api_server \<Rightarrow> Service \<Rightarrow> ExternalWorkload list \<Rightarrow> EndpointSlice list \<Rightarrow>
     write_log \<Rightarrow> (write_error list \<times> write_log) option" where
  "reconcile u r respond svc ews existing wlog =
     (let supported = getSupportedAddressTypes svc
      in case reconcile_types u r respond svc ews existing (su_names u supported) wlog of
           None \<Rightarrow> None
         | Some (errs, wlog) \<Rightarrow>
             (case delete_unsupported respond (svc_Namespace svc)
                (filter (\<lambda>es. es_AddressType es |\<notin>| supported) existing) wlog of
                (errs', wlog) \<Rightarrow> Some (errs @ errs', wlog)))"

section \<open>What a plan keeps of the slices\<close>

definition same_slice :: "EndpointSlice \<Rightarrow> EndpointSlice \<Rightarrow> bool" where
  "same_slice es es' \<longleftrightarrow> es_Name es' = es_Name es \<and> es_Ports es' = es_Ports es \<and>
     es_AddressType es' = es_AddressType es \<and> es_OwnerReferences es' = es_OwnerReferences es"

lemma same_slice_simps [simp]:
  "same_slice es es" "same_slice es (es'\<lparr>es_Endpoints := eps\<rparr>) = same_slice es es'"
  "same_slice es (es'\<lparr>es_Labels := ls\<rparr>) = same_slice es es'"
  by (simp_all add: same_slice_def)

lemma same_sliceD: "same_slice es es' \<Longrightarrow> ownedBy es' svc = ownedBy es svc \<and> slice_key u es' = slice_key u es"
  by (simp add: same_slice_def ownedBy_def slice_key_def slice_ports_def)

definition new_slice :: "Service \<Rightarrow> endpointMeta \<Rightarrow> EndpointSlice \<Rightarrow> bool" where
  "new_slice svc meta es \<longleftrightarrow> es_Ports es = Some (meta_ports meta) \<and> es_AddressType es = meta_addressType meta \<and> ownedBy es svc"

definition group_frame ::
  "Service \<Rightarrow> endpointMeta \<Rightarrow> EndpointSlice list \<Rightarrow> 'h port_group \<times> EndpointSlice list \<Rightarrow> bool" where
  "group_frame svc meta P = (\<lambda>(g, created).
     (\<forall>n es. fmlookup (slicesByName g) n = Some es \<longrightarrow> (\<exists>es0 \<in> set P. same_slice es0 es)) \<and>
     (\<forall>es \<in> set created. new_slice svc meta es))"

lemma check_slice_frame:
  assumes "group_frame svc meta P (g, [])"
  shows "group_frame svc meta (P @ [s]) (check_slice u r svc g s, [])"
proof -
  obtain keep upd d where "keep_endpoints u (desiredEps g) (es_Endpoints s) = (keep, upd, d)" by (metis prod_cases3)
  moreover obtain ls lc where "setEndpointSliceLabels s svc (controllerName r) = (ls, lc)" by fastforce
  ultimately obtain s' where "slicesByName (check_slice u r svc g s) = fmupd (es_Name s) s' (slicesByName g)" "same_slice s s'"
    by (cases "upd \<or> length (es_Endpoints s) \<noteq> length keep"; cases "keep = []"; cases lc) (auto simp: check_slice_def Let_def)
  with assms show ?thesis by (auto simp: group_frame_def split: if_splits)
qed

lemma fill_named_frame:
  "group_frame svc meta P (g, created) \<Longrightarrow> group_frame svc meta P (fill_named u maxE g n, created)"
  by (auto simp: group_frame_def fill_named_def split: option.splits prod.splits if_splits)

lemma fill_updated_frame:
  assumes "group_frame svc meta P (g, created)"
  shows "group_frame svc meta P (fill_updated u maxE g, created)"
proof -
  have "group_frame svc meta P (foldl (fill_named u maxE) g ns, created)" for ns
    using assms by (induction ns arbitrary: g) (auto intro: fill_named_frame)
  with assms show ?thesis by (simp add: fill_updated_def)
qed

lemma unchanged_to_fill_frame:
  assumes "unchanged_to_fill u r g = Some es" and "group_frame svc meta P (g, created)"
  shows "\<exists>es0 \<in> set P. same_slice es0 es"
proof -
  from assms(1) have "es \<in> set (slices_named g (su_names u (sliceNamesUnchanged g)))"
    unfolding unchanged_to_fill_def getSliceToFill_def Let_def by (auto dest!: slice_to_fill_Some split: if_splits)
  with assms(2) show ?thesis by (auto simp: slices_named_def in_set_map_filter group_frame_def)
qed

lemma newEndpointSlice_new: "new_slice svc meta ((newEndpointSlice svc meta c)\<lparr>es_Endpoints := eps\<rparr>)"
  by (simp add: new_slice_def newEndpointSlice_def Let_def ownedBy_def)

lemma fill_round_frame:
  assumes "group_frame svc meta P (g, created)" and "[] \<notin> es_Name ` set P"
  shows "group_frame svc meta P (fill_round u r svc meta (g, created))"
proof (cases "unchanged_to_fill u r g")
  case None
  with assms(1) newEndpointSlice_new show ?thesis by (auto simp: fill_round_def group_frame_def Let_def split: prod.splits)
next
  case (Some es)
  from unchanged_to_fill_frame [OF this assms(1)] obtain es0 where es0: "es0 \<in> set P" "same_slice es0 es" by blast
  obtain eps d where f: "fill_endpoints u (maxEndpoints r) (es_Endpoints es) (desiredEps g) = (eps, d)" by fastforce
  have "es_Name es \<noteq> []" using es0 assms(2) by (metis image_eqI same_slice_def)
  with Some f have eq: "fill_round u r svc meta (g, created) = (refill (es_Name es) (es\<lparr>es_Endpoints := eps\<rparr>) d g, created)"
    by (simp add: fill_round_def Let_def refill_def)
  from assms(1) es0 show ?thesis unfolding eq by (auto simp: group_frame_def refill_def split: if_splits)
qed

lemma fill_rest_frame:
  assumes "group_inv u r svc D P st" and "slice_util_ok u" and "keyed u D"
    and "[] \<notin> es_Name ` set P" and "0 < maxEndpoints r" and "group_frame svc meta P st"
    and "fill_rest u r svc meta st = Some st'"
  shows "group_frame svc meta P st'"
  using assms(1,6,7)
proof (induction "fm_size (desiredEps (fst st))" arbitrary: st rule: less_induct)
  case less
  obtain g created where st: "st = (g, created)" by fastforce
  show ?case
  proof (cases "desiredEps g = fmempty")
    case False
    note round = fill_round_inv [OF less.prems(1) [unfolded st] assms(2-5) False, of meta]
    have "fill_rest u r svc meta st = fill_rest u r svc meta (fill_round u r svc meta st)"
      using False st by (subst fill_rest.simps) simp
    with less.hyps [OF _ round(1)] round(2) less.prems(3) fill_round_frame [OF less.prems(2) [unfolded st] assms(4), of u r] st show ?thesis by simp
  qed (use less.prems st in \<open>simp add: fill_rest.simps\<close>)
qed

lemma reconcile_group_frame:
  assumes "slice_util_ok u" and "keyed u D" and "0 < maxEndpoints r"
    and "distinct (map es_Name existing)" and "[] \<notin> es_Name ` set existing"
    and "reconcileEndpointsByPortMap u r svc existing D meta = Some (create, update, delete)"
  shows "\<forall>es \<in> set create. new_slice svc meta es" and "\<forall>es \<in> set update. \<exists>es0 \<in> set existing. same_slice es0 es"
proof -
  let ?g = "foldl (check_slice u r svc) (empty_group D) existing"
  have "group_frame svc meta (P @ Q) (foldl (check_slice u r svc) g Q, [])" if "group_frame svc meta P (g, [])" for P Q g
    using that
  proof (induction Q arbitrary: P g)
    case (Cons s Q)
    from Cons.IH [OF check_slice_frame [OF Cons.prems]] show ?case by simp
  qed simp
  from this [of "[]" "empty_group D" existing] have "group_frame svc meta existing (?g, [])"
    by (simp add: group_frame_def empty_group_def)
  note frame = fill_updated_frame [OF this, of u "maxEndpoints r"]
  note inv = fill_updated_inv [OF checked_inv [OF assms(2,4)] assms(1,2), of r svc]
  from assms(6) obtain g where run: "fill_rest u r svc meta (fill_updated u (maxEndpoints r) ?g, []) = Some (g, create)"
    and up: "update = slices_named g (su_names u (sliceNamesToUpdate g))"
    by (auto simp: reconcileEndpointsByPortMap_def Let_def split: option.splits)
  from fill_rest_frame [OF inv assms(1,2,5,3) frame run]
  show "\<forall>es \<in> set create. new_slice svc meta es" and "\<forall>es \<in> set update. \<exists>es0 \<in> set existing. same_slice es0 es"
    by (auto simp: group_frame_def up slices_named_def in_set_map_filter)
qed

section \<open>The groups of an address type\<close>

lemma fm_list_append: "fm_list (fm_append k v m) k' = (if k' = k then fm_list m k @ [v] else fm_list m k')"
  by (simp add: fm_list_def fm_append_def)

lemma fmdom_fm_append [simp]: "fmdom (fm_append k v m) = finsert k (fmdom m)"
  by (simp add: fm_append_def)

lemma slices_by_ports_spec:
  "fm_list (slices_by_ports u svc existing) k = filter (\<lambda>es. ownedBy es svc \<and> slice_key u es = k) existing"
  "fset (fmdom (slices_by_ports u svc existing)) = slice_key u ` {es \<in> set existing. ownedBy es svc}"
proof (induction existing rule: rev_induct)
  case (snoc es existing)
  { case 1 with snoc show ?case by (simp add: slices_by_ports_def fm_list_append) }
  { case 2 with snoc show ?case by (auto simp: slices_by_ports_def) }
qed (simp_all add: slices_by_ports_def fm_list_def)

text \<open>The endpoints a service should have for the ports \<open>k\<close> stands for.\<close>

definition wanted :: "('h, 'k) slice_util \<Rightarrow> Service \<Rightarrow> string \<Rightarrow> ExternalWorkload list \<Rightarrow> 'k \<Rightarrow> Endpoint set" where
  "wanted u svc addrType ews k =
     {externalWorkloadToEndpoint u addrType ew svc | ew. ew \<in> set ews \<and> ew_WorkloadIPs ew \<noteq> [] \<and>
        su_portkey u (findEndpointPorts svc ew) = k \<and> ep_Addresses (externalWorkloadToEndpoint u addrType ew svc) \<noteq> []}"

definition wanted_keys :: "('h, 'k) slice_util \<Rightarrow> Service \<Rightarrow> ExternalWorkload list \<Rightarrow> 'k set" where
  "wanted_keys u svc ews = {su_portkey u (findEndpointPorts svc ew) | ew. ew \<in> set ews \<and> ew_WorkloadIPs ew \<noteq> []}"

definition desired_ok ::
  "('h, 'k) slice_util \<Rightarrow> Service \<Rightarrow> string \<Rightarrow> ExternalWorkload list \<Rightarrow> ('h, 'k) desired_groups \<Rightarrow> bool" where
  "desired_ok u svc addrType ews st \<longleftrightarrow>
     fset (fmdom (desiredEndpointsByPortMap st)) = wanted_keys u svc ews \<and>
     fset (fmdom (desiredMetaByPortMap st)) = wanted_keys u svc ews \<and>
     (\<forall>k meta. fmlookup (desiredMetaByPortMap st) k = Some meta \<longrightarrow>
        su_portkey u (meta_ports meta) = k \<and> meta_addressType meta = addrType) \<and>
     (\<forall>k D. fmlookup (desiredEndpointsByPortMap st) k = Some D \<longrightarrow>
        keyed u D \<and> fset (fmdom D) = su_hash u ` wanted u svc addrType ews k)"

lemma wanted_empty: "k \<notin> wanted_keys u svc ews \<Longrightarrow> wanted u svc addrType ews k = {}"
  by (auto simp: wanted_def wanted_keys_def)

lemma wanted_snoc:
  "wanted u svc addrType (ews @ [ew]) k = wanted u svc addrType ews k \<union>
     (let ep = externalWorkloadToEndpoint u addrType ew svc
      in if ew_WorkloadIPs ew \<noteq> [] \<and> su_portkey u (findEndpointPorts svc ew) = k \<and> ep_Addresses ep \<noteq> [] then {ep} else {})"
  by (auto simp: wanted_def Let_def)

lemma wanted_keys_snoc:
  "wanted_keys u svc (ews @ [ew]) = wanted_keys u svc ews \<union>
     (if ew_WorkloadIPs ew \<noteq> [] then {su_portkey u (findEndpointPorts svc ew)} else {})"
  by (auto simp: wanted_keys_def)

lemma add_workload_ok:
  assumes "desired_ok u svc addrType ews st"
  shows "desired_ok u svc addrType (ews @ [ew]) (add_workload u svc addrType st ew)"
proof (cases "ew_WorkloadIPs ew = []")
  case True
  with assms show ?thesis by (simp add: desired_ok_def add_workload_def wanted_keys_snoc wanted_snoc Let_def)
next
  case False
  let ?k = "su_portkey u (findEndpointPorts svc ew)" and ?ep = "externalWorkloadToEndpoint u addrType ew svc"
  define D where "D = (case fmlookup (desiredEndpointsByPortMap st) ?k of None \<Rightarrow> fmempty | Some D \<Rightarrow> D)"
  define D' where "D' = (if ep_Addresses ?ep \<noteq> [] then fmupd (su_hash u ?ep) ?ep D else D)"
  have eps: "fmlookup (desiredEndpointsByPortMap (add_workload u svc addrType st ew)) k =
      (if k = ?k then Some D' else fmlookup (desiredEndpointsByPortMap st) k)" for k
    using False by (auto simp: add_workload_def Let_def D'_def D_def fmlookup_dom_iff split: option.splits)
  have "keyed u D" "fset (fmdom D) = su_hash u ` wanted u svc addrType ews ?k"
    subgoal using assms by (auto simp: D_def desired_ok_def keyed_def split: option.splits)
    subgoal
    proof (cases "fmlookup (desiredEndpointsByPortMap st) ?k")
      case None
      then have "?k \<notin> wanted_keys u svc ews" using assms by (metis desired_ok_def fmdom_notI)
      with None wanted_empty show ?thesis by (simp add: D_def)
    qed (use assms in \<open>simp add: D_def desired_ok_def\<close>)
    done
  then have D': "keyed u D'" "fset (fmdom D') = su_hash u ` wanted u svc addrType (ews @ [ew]) ?k"
    using False by (auto simp: D'_def keyed_def wanted_snoc Let_def)
  have meta: "fmlookup (desiredMetaByPortMap (add_workload u svc addrType st ew)) k =
      (if k = ?k \<and> fmlookup (desiredMetaByPortMap st) k = None
       then Some \<lparr>meta_ports = findEndpointPorts svc ew, meta_addressType = addrType\<rparr> else fmlookup (desiredMetaByPortMap st) k)" for k
    using False by (auto simp: add_workload_def Let_def fmlookup_dom_iff)
  have "k |\<in>| fmdom (desiredEndpointsByPortMap (add_workload u svc addrType st ew)) \<longleftrightarrow>
      k = ?k \<or> k |\<in>| fmdom (desiredEndpointsByPortMap st)" for k
    by (auto simp: fmlookup_dom_iff eps)
  moreover have "k |\<in>| fmdom (desiredMetaByPortMap (add_workload u svc addrType st ew)) \<longleftrightarrow>
      k = ?k \<or> k |\<in>| fmdom (desiredMetaByPortMap st)" for k
    by (auto simp: fmlookup_dom_iff meta)
  ultimately show ?thesis
    using assms False D' unfolding desired_ok_def
    by (auto simp: eps meta wanted_keys_snoc wanted_snoc Let_def split: if_splits)
qed

lemma desired_workloads_ok: "desired_ok u svc addrType ews (desired_workloads u svc addrType ews)"
proof (induction ews rule: rev_induct)
  case Nil
  show ?case by (simp add: desired_ok_def desired_workloads_def wanted_keys_def)
next
  case (snoc ew ews)
  from add_workload_ok [OF this] show ?case by (simp add: desired_workloads_def)
qed

section \<open>The plan of an address type\<close>

lemma filter_concat_key:
  assumes "distinct ks" and "\<And>k x. k \<in> set ks \<Longrightarrow> x \<in> set (f k) \<Longrightarrow> key x = k"
  shows "filter (\<lambda>x. key x = k) (concat (map f ks)) = (if k \<in> set ks then f k else [])"
  using assms
proof (induction ks)
  case (Cons k' ks)
  then have "filter (\<lambda>x. key x = k) (f k') = (if k' = k then f k' else [])"
    by (auto simp: filter_id_conv filter_empty_conv)
  with Cons show ?case by auto
qed simp

lemma image_set_concat: "x \<in> f ` set (concat (map g ks)) \<longleftrightarrow> (\<exists>k \<in> set ks. x \<in> f ` set (g k))"
  by auto

lemma plan_groups_concat:
  assumes "\<And>k. k \<in> set ks \<Longrightarrow> \<exists>D meta. fmlookup (desiredEndpointsByPortMap st) k = Some D \<and>
      fmlookup (desiredMetaByPortMap st) k = Some meta \<and>
      reconcileEndpointsByPortMap u r svc (fm_list byPorts k) D meta = Some (c k, up k, d k)"
  shows "plan_groups u r svc byPorts st ks = Some (concat (map c ks), concat (map up ks), concat (map d ks))"
  using assms by (induction ks) fastforce+

text \<open>What the plan of each group does, for the groups of an address type.\<close>

definition group_plans ::
  "('h, 'k) slice_util \<Rightarrow> Service \<Rightarrow> string \<Rightarrow> ExternalWorkload list \<Rightarrow> EndpointSlice list \<Rightarrow>
     ('k \<Rightarrow> EndpointSlice list) \<Rightarrow> ('k \<Rightarrow> EndpointSlice list) \<Rightarrow> ('k \<Rightarrow> EndpointSlice list) \<Rightarrow> bool" where
  "group_plans u svc addrType ews existing c up d \<longleftrightarrow> (\<forall>k \<in> wanted_keys u svc ews.
     let E = filter (\<lambda>es. ownedBy es svc \<and> slice_key u es = k) existing
     in slices_bag u (slices_after E (c k, up k, d k)) = mset_set (su_hash u ` wanted u svc addrType ews k) \<and>
        (\<forall>es \<in> set (c k). ownedBy es svc \<and> slice_key u es = k \<and> es_AddressType es = addrType) \<and>
        (\<forall>es \<in> set (up k). \<exists>es0 \<in> set E. same_slice es0 es) \<and> set (d k) \<subseteq> set E)"

lemma group_plans_exist:
  fixes svc :: Service and addrType :: string and ews :: "ExternalWorkload list"
  assumes "slice_util_ok u" and "0 < maxEndpoints r" and "distinct (map es_Name existing)" and "[] \<notin> es_Name ` set existing"
  defines "st \<equiv> desired_workloads u svc addrType ews"
  shows "\<exists>c up d. plan_groups u r svc (slices_by_ports u svc existing) st (su_keys u (fmdom (desiredEndpointsByPortMap st))) =
      (let ks = su_keys u (fmdom (desiredEndpointsByPortMap st)) in Some (concat (map c ks), concat (map up ks), concat (map d ks))) \<and>
    group_plans u svc addrType ews existing c up d"
proof -
  let ?E = "\<lambda>k. filter (\<lambda>es. ownedBy es svc \<and> slice_key u es = k) existing"
  have ok: "desired_ok u svc addrType ews st" unfolding st_def by (rule desired_workloads_ok)
  define Q where "Q k = (\<lambda>(c, up, d).
      (\<exists>D meta. fmlookup (desiredEndpointsByPortMap st) k = Some D \<and> fmlookup (desiredMetaByPortMap st) k = Some meta \<and>
        reconcileEndpointsByPortMap u r svc (?E k) D meta = Some (c, up, d)) \<and>
      slices_bag u (slices_after (?E k) (c, up, d)) = mset_set (su_hash u ` wanted u svc addrType ews k) \<and>
      (\<forall>es \<in> set c. ownedBy es svc \<and> slice_key u es = k \<and> es_AddressType es = addrType) \<and>
      (\<forall>es \<in> set up. \<exists>es0 \<in> set (?E k). same_slice es0 es) \<and> set d \<subseteq> set (?E k))" for k
  have "\<exists>p. Q k p"
    if k: "k \<in> wanted_keys u svc ews" for k
  proof -
    from ok k obtain D meta where D: "fmlookup (desiredEndpointsByPortMap st) k = Some D"
      and meta: "fmlookup (desiredMetaByPortMap st) k = Some meta" by (metis desired_ok_def fmdomE)
    with ok have keyed: "keyed u D" and dom: "fset (fmdom D) = su_hash u ` wanted u svc addrType ews k"
      and key: "su_portkey u (meta_ports meta) = k" "meta_addressType meta = addrType" by (auto simp: desired_ok_def)
    have names: "distinct (map es_Name (?E k))" "[] \<notin> es_Name ` set (?E k)" using assms(3,4) by (auto simp: distinct_map_filter)
    from reconcile_group_run [OF assms(1) keyed assms(2) names, of svc meta] obtain g c where
      run: "reconcileEndpointsByPortMap u r svc (?E k) D meta = Some (c,
        slices_named g (su_names u (sliceNamesToUpdate g)), slices_named g (su_names u (sliceNamesToDelete g)))"
      and g: "desiredEps g = fmempty" "group_inv u r svc D (?E k) (g, c)" by blast
    note res = group_result [OF g(2,1) assms(1) names(1)] and frame = reconcile_group_frame [OF assms(1) keyed assms(2) names run]
    have "\<forall>es \<in> set c. ownedBy es svc \<and> slice_key u es = k \<and> es_AddressType es = addrType"
      using frame(1) key by (auto simp: new_slice_def slice_key_def slice_ports_def)
    with D meta run res(1,3) frame(2) dom show ?thesis unfolding Q_def by (auto simp: dom_bag_def)
  qed
  then obtain p where "\<forall>k \<in> wanted_keys u svc ews. Q k (p k)" using bchoice [of "wanted_keys u svc ews" Q] by blast
  then have plan: "\<And>k. k \<in> wanted_keys u svc ews \<Longrightarrow> Q k (fst (p k), fst (snd (p k)), snd (snd (p k)))" by simp
  let ?c = "\<lambda>k. fst (p k)" and ?up = "\<lambda>k. fst (snd (p k))" and ?d = "\<lambda>k. snd (snd (p k))"
   have keys: "set (su_keys u (fmdom (desiredEndpointsByPortMap st))) = wanted_keys u svc ews"
    using assms(1) ok by (simp add: slice_util_ok_def desired_ok_def)
  have "plan_groups u r svc (slices_by_ports u svc existing) st (su_keys u (fmdom (desiredEndpointsByPortMap st))) =
      (let ks = su_keys u (fmdom (desiredEndpointsByPortMap st)) in Some (concat (map ?c ks), concat (map ?up ks), concat (map ?d ks)))"
    unfolding Let_def
    by (intro plan_groups_concat, unfold slices_by_ports_spec keys) (use plan [unfolded Q_def case_prod_conv] in blast)
  moreover have "group_plans u svc addrType ews existing ?c ?up ?d"
    using plan [unfolded Q_def case_prod_conv] unfolding group_plans_def Let_def by blast
  ultimately show ?thesis by blast
qed

lemma group_plansD:
  assumes "group_plans u svc addrType ews existing c up d" and "k \<in> wanted_keys u svc ews"
  shows "slices_bag u (slices_after (filter (\<lambda>es. ownedBy es svc \<and> slice_key u es = k) existing) (c k, up k, d k)) =
      mset_set (su_hash u ` wanted u svc addrType ews k)"
    and "\<And>es. es \<in> set (c k) \<Longrightarrow> ownedBy es svc \<and> slice_key u es = k \<and> es_AddressType es = addrType"
    and "\<And>es. es \<in> set (up k) \<Longrightarrow> \<exists>es0 \<in> set existing. same_slice es0 es \<and> ownedBy es svc \<and> slice_key u es = k"
    and "\<And>es. es \<in> set (d k) \<Longrightarrow> es \<in> set existing \<and> ownedBy es svc \<and> slice_key u es = k"
proof -
  note G = assms(1) [unfolded group_plans_def Let_def, THEN bspec, OF assms(2)]
  from G show "slices_bag u (slices_after (filter (\<lambda>es. ownedBy es svc \<and> slice_key u es = k) existing) (c k, up k, d k)) =
      mset_set (su_hash u ` wanted u svc addrType ews k)" by blast
  from G show "ownedBy es svc \<and> slice_key u es = k \<and> es_AddressType es = addrType" if "es \<in> set (c k)" for es
    using that by blast
  from G show "es \<in> set existing \<and> ownedBy es svc \<and> slice_key u es = k" if "es \<in> set (d k)" for es
    using that by auto
  show "\<exists>es0 \<in> set existing. same_slice es0 es \<and> ownedBy es svc \<and> slice_key u es = k" if "es \<in> set (up k)" for es
  proof -
    from G that obtain es0 where "es0 \<in> set existing" "ownedBy es0 svc" "slice_key u es0 = k" "same_slice es0 es" by auto
    with same_sliceD show ?thesis by blast
  qed
qed

text \<open>The slices an address type's plan removes or replaces, group by group.\<close>

lemma plan_names:
  assumes plans: "group_plans u svc addrType ews existing c up d" and ks: "set ks = wanted_keys u svc ews"
    and names: "distinct (map es_Name existing)" and es: "es \<in> set existing" and k: "slice_key u es = k"
  defines "gone \<equiv> concat (map up ks) @ filter (\<lambda>es. \<not> ownedBy es svc) existing @ concat (map d ks) @
    filter (\<lambda>es. ownedBy es svc \<and> slice_key u es \<notin> set ks) existing"
  shows "es_Name es \<notin> es_Name ` set gone \<longleftrightarrow>
    ownedBy es svc \<and> k \<in> set ks \<and> es_Name es \<notin> es_Name ` set (up k @ d k)"
proof -
  have same: "es' = es" if "es' \<in> set existing" "es_Name es' = es_Name es" for es'
    using that es names by (auto simp: distinct_map dest: inj_onD)
  have up: "k' = k \<and> ownedBy es svc" if "k' \<in> set ks" "es' \<in> set (up k')" "es_Name es' = es_Name es" for k' es'
  proof -
    from group_plansD(3) [OF plans] that(1,2) ks obtain es0 where "es0 \<in> set existing" "same_slice es0 es'" "ownedBy es' svc" "slice_key u es' = k'"
      by blast
    moreover from this that(3) have "es0 = es" by (intro same) (auto simp: same_slice_def)
    ultimately show ?thesis using same_sliceD [of es es' svc u] k by simp
  qed
  have del: "k' = k \<and> ownedBy es svc" if "k' \<in> set ks" "es' \<in> set (d k')" "es_Name es' = es_Name es" for k' es'
  proof -
    from group_plansD(4) [OF plans _ that(2)] that(1) ks have "es' \<in> set existing" "ownedBy es' svc" "slice_key u es' = k'" by simp_all
    with same that(3) k show ?thesis by blast
  qed
  have pick: "es_Name es \<in> es_Name ` set (filter Q existing) \<longleftrightarrow> Q es" for Q
  proof
    assume "es_Name es \<in> es_Name ` set (filter Q existing)"
    then obtain es' where "es' \<in> set existing" "es_Name es' = es_Name es" "Q es'" by auto
    with same show "Q es" by blast
  qed (use es in auto)
  have "es_Name es \<in> es_Name ` set (concat (map up ks)) \<longleftrightarrow> k \<in> set ks \<and> es_Name es \<in> es_Name ` set (up k)"
    unfolding image_set_concat by (auto dest: up [OF _ _ sym])
  moreover have "es_Name es \<in> es_Name ` set (concat (map d ks)) \<longleftrightarrow> k \<in> set ks \<and> es_Name es \<in> es_Name ` set (d k)"
    unfolding image_set_concat by (auto dest: del [OF _ _ sym])
  ultimately show ?thesis
    unfolding gone_def set_append image_Un Un_iff pick k by blast
qed

lemma slices_after_key:
  assumes plans: "group_plans u svc addrType ews existing c up d" and ks: "set ks = wanted_keys u svc ews" "distinct ks"
    and names: "distinct (map es_Name existing)"
  defines "S \<equiv> slices_after existing (concat (map c ks), concat (map up ks), filter (\<lambda>es. \<not> ownedBy es svc) existing @
      concat (map d ks) @ filter (\<lambda>es. ownedBy es svc \<and> slice_key u es \<notin> set ks) existing)"
  shows "slices_bag u (filter (\<lambda>es. slice_key u es = k) S) = mset_set (su_hash u ` wanted u svc addrType ews k)"
    and "\<And>es. es \<in> set S \<Longrightarrow> ownedBy es svc"
proof -
  let ?gone = "concat (map up ks) @ filter (\<lambda>es. \<not> ownedBy es svc) existing @ concat (map d ks) @
    filter (\<lambda>es. ownedBy es svc \<and> slice_key u es \<notin> set ks) existing"
  let ?E = "\<lambda>k. filter (\<lambda>es. ownedBy es svc \<and> slice_key u es = k) existing"
  note gone = plan_names [OF plans ks(1) names _ refl]
  have kept: "filter (\<lambda>es. slice_key u es = k) (filter (\<lambda>es. es_Name es \<notin> es_Name ` set ?gone) existing) =
      (if k \<in> set ks then filter (\<lambda>es. es_Name es \<notin> es_Name ` set (up k @ d k)) (?E k) else [])"
  proof -
    have "filter (\<lambda>es. slice_key u es = k) (filter (\<lambda>es. es_Name es \<notin> es_Name ` set ?gone) existing) =
      filter (\<lambda>es. slice_key u es = k \<and> ownedBy es svc \<and> k \<in> set ks \<and> es_Name es \<notin> es_Name ` set (up k @ d k)) existing"
      unfolding filter_filter using gone by (intro filter_cong) auto
    then show ?thesis by (auto simp: conj_ac intro: filter_cong)
  qed
  have up: "filter (\<lambda>es. slice_key u es = k) (concat (map up ks)) = (if k \<in> set ks then up k else [])"
    using group_plansD(3) [OF plans] ks by (intro filter_concat_key) auto
  have cr: "filter (\<lambda>es. slice_key u es = k) (concat (map c ks)) = (if k \<in> set ks then c k else [])"
    using group_plansD(2) [OF plans] ks by (intro filter_concat_key) auto
  have "filter (\<lambda>es. slice_key u es = k) S = (if k \<in> set ks then slices_after (?E k) (c k, up k, d k) else [])"
    unfolding S_def slices_after_def case_prod_conv filter_append kept up cr by simp
  then show "slices_bag u (filter (\<lambda>es. slice_key u es = k) S) = mset_set (su_hash u ` wanted u svc addrType ews k)"
    using group_plansD(1) [OF plans, of k] wanted_empty [of k u svc ews addrType] ks(1) by auto
  show "ownedBy es svc" if "es \<in> set S" for es
    using that gone [of es] group_plansD(2,3) [OF plans] ks(1)
    unfolding S_def slices_after_def case_prod_conv by auto
qed

lemma slices_after_cong: "set d = set d' \<Longrightarrow> slices_after existing (c, up, d) = slices_after existing (c, up, d')"
  by (simp add: slices_after_def image_Un)

lemma planByAddressType_exact:
  assumes "slice_util_ok u" and "0 < maxEndpoints r" and "distinct (map es_Name existing)" and "[] \<notin> es_Name ` set existing"
  shows "\<exists>create update delete. planByAddressType u r svc ews existing addrType = Some (create, update, delete) \<and>
    es_Name ` set update \<subseteq> es_Name ` set existing \<and> set delete \<subseteq> set existing \<and>
    {es \<in> set existing. \<not> ownedBy es svc} \<subseteq> set delete \<and>
    (let S = slices_after existing (create, update, delete)
     in (\<forall>es \<in> set S. ownedBy es svc) \<and>
        (\<forall>k. slices_bag u (filter (\<lambda>es. slice_key u es = k) S) = mset_set (su_hash u ` wanted u svc addrType ews k)))"
proof -
  define st where "st = desired_workloads u svc addrType ews"
  define ks where "ks = su_keys u (fmdom (desiredEndpointsByPortMap st))"
  from group_plans_exist [OF assms, of svc addrType ews] obtain c up d where
    run: "plan_groups u r svc (slices_by_ports u svc existing) st ks = Some (concat (map c ks), concat (map up ks), concat (map d ks))"
    and plans: "group_plans u svc addrType ews existing c up d" by (auto simp: ks_def st_def Let_def)
  have keys: "fset (fmdom (desiredEndpointsByPortMap st)) = wanted_keys u svc ews"
    using desired_workloads_ok [of u svc addrType ews] by (simp add: st_def desired_ok_def)
  then have ks: "set ks = wanted_keys u svc ews" "distinct ks" using assms(1) by (simp_all add: ks_def slice_util_ok_def)
  define rest where "rest = concat (map (fm_list (slices_by_ports u svc existing))
    (filter (\<lambda>k. k |\<notin>| fmdom (desiredEndpointsByPortMap st)) (su_keys u (fmdom (slices_by_ports u svc existing)))))"
  have rest: "set rest = set (filter (\<lambda>es. ownedBy es svc \<and> slice_key u es \<notin> set ks) existing)"
    using assms(1) keys ks(1) by (auto simp: rest_def slices_by_ports_spec slice_util_ok_def)
  let ?del = "filter (\<lambda>es. \<not> ownedBy es svc) existing @ concat (map d ks) @ rest"
  have plan: "planByAddressType u r svc ews existing addrType = Some (concat (map c ks), concat (map up ks), ?del)"
    using run by (simp add: planByAddressType_def Let_def rest_def ks_def st_def)
  have up: "es_Name ` set (concat (map up ks)) \<subseteq> es_Name ` set existing"
  proof
    fix n assume "n \<in> es_Name ` set (concat (map up ks))"
    then obtain k es where "k \<in> set ks" "es \<in> set (up k)" "n = es_Name es" unfolding image_set_concat by blast
    with group_plansD(3) [OF plans] ks(1) show "n \<in> es_Name ` set existing" by (metis image_eqI same_slice_def)
  qed
  have del: "set ?del \<subseteq> set existing" "{es \<in> set existing. \<not> ownedBy es svc} \<subseteq> set ?del"
    using group_plansD(4) [OF plans] ks(1) rest by auto
  have "slices_after existing (concat (map c ks), concat (map up ks), ?del) =
      slices_after existing (concat (map c ks), concat (map up ks), filter (\<lambda>es. \<not> ownedBy es svc) existing @
      concat (map d ks) @ filter (\<lambda>es. ownedBy es svc \<and> slice_key u es \<notin> set ks) existing)"
    by (rule slices_after_cong) (simp add: rest)
  note S = slices_after_key [OF plans ks assms(3), folded this]
  show ?thesis unfolding Let_def
    by (rule exI [of _ "concat (map c ks)"], rule exI [of _ "concat (map up ks)"], rule exI [of _ ?del], intro conjI allI ballI)
      (rule plan up del S(1) | erule S(2))+
qed

section \<open>Carrying out a plan\<close>

definition nameless :: "EndpointSlice \<Rightarrow> EndpointSlice" where
  "nameless es = es\<lparr>es_Name := []\<rparr>"

lemma nameless_simps [simp]:
  "ownedBy (nameless es) svc = ownedBy es svc" "slice_key u (nameless es) = slice_key u es"
  "es_Endpoints (nameless es) = es_Endpoints es" "nameless (es\<lparr>es_Name := n\<rparr>) = nameless es"
  by (simp_all add: nameless_def ownedBy_def slice_key_def slice_ports_def)

lemma reuse_deleted_spec:
  assumes "reuse_deleted svc create update delete = (c, u, d)"
  shows "mset (map nameless (u @ c)) = mset (map nameless (update @ create))"
    and "es_Name ` set (u @ d) = es_Name ` set (update @ delete)" and "set d \<subseteq> set delete"
    and "{es \<in> set delete. \<not> ownedBy es svc} \<subseteq> set d"
proof -
  have "mset (map nameless (u @ c)) = mset (map nameless (update @ create)) \<and>
    es_Name ` set (u @ d) = es_Name ` set (update @ delete) \<and> set d \<subseteq> set delete \<and> {es \<in> set delete. \<not> ownedBy es svc} \<subseteq> set d"
    using assms
  proof (induction svc create update delete arbitrary: d rule: reuse_deleted.induct)
    case (2 svc create update d0 ds)
    show ?case
    proof (cases "create = []")
      case False
      then obtain cs e where create: "create = cs @ [e]" by (metis rev_exhaust)
      show ?thesis
      proof (cases "es_AddressType d0 = es_AddressType e \<and> ownedBy d0 svc")
        case True
        with "2.IH"(1) [of d] "2.prems" create show ?thesis by (simp add: add_mset_commute) (auto simp: insert_commute)
      next
        case False
        with "2.prems" create obtain d' where "d = d0 # d'" "reuse_deleted svc create update ds = (c, u, d')"
          by (auto split: prod.splits)
        with "2.IH"(2) [of d'] False create show ?thesis by auto
      qed
    qed (use "2.prems" in auto)
  qed auto
  then show "mset (map nameless (u @ c)) = mset (map nameless (update @ create))"
    and "es_Name ` set (u @ d) = es_Name ` set (update @ delete)" and "set d \<subseteq> set delete"
    and "{es \<in> set delete. \<not> ownedBy es svc} \<subseteq> set d" by auto
qed

lemma reuse_after:
  assumes "reuse_deleted svc create update delete = (c, u, d)"
  shows "mset (map nameless (slices_after existing (c, u, d))) = mset (map nameless (slices_after existing (create, update, delete)))"
  using reuse_deleted_spec(1,2) [OF assms] by (simp add: slices_after_def)

lemma slices_bag_nameless:
  assumes "mset (map nameless ess) = mset (map nameless ess')"
  shows "slices_bag u (filter (\<lambda>es. slice_key u es = k) ess) = slices_bag u (filter (\<lambda>es. slice_key u es = k) ess')"
    and "(\<forall>es \<in> set ess. ownedBy es svc) = (\<forall>es \<in> set ess'. ownedBy es svc)"
proof -
  have "slices_bag u (filter (\<lambda>es. slice_key u es = k) xs) =
      sum_mset (image_mset (\<lambda>es. hash_bag u (es_Endpoints es)) (filter_mset (\<lambda>es. slice_key u es = k) (mset (map nameless xs))))" for xs
    by (induction xs) auto
  with assms show "slices_bag u (filter (\<lambda>es. slice_key u es = k) ess) = slices_bag u (filter (\<lambda>es. slice_key u es = k) ess')" by simp
  have "(\<forall>es \<in> set xs. ownedBy es svc) = (\<forall>es \<in># mset (map nameless xs). ownedBy es svc)" for xs by simp
  with assms show "(\<forall>es \<in> set ess. ownedBy es svc) = (\<forall>es \<in> set ess'. ownedBy es svc)" by metis
qed

lemma send_all_accepted:
  assumes "\<forall>h req. \<exists>es. respond h req = Inr es"
  shows "\<exists>wlog'. send_all respond reqs wlog = Inr wlog' \<and> requests wlog' = requests wlog @ map fst reqs"
proof (induction reqs arbitrary: wlog)
  case (Cons req reqs)
  from assms obtain es where "respond (requests wlog) (fst req) = Inr es" by blast
  with Cons.IH show ?case by (cases req) (fastforce simp: send_def)
qed simp

lemma finalize_accepted:
  assumes "\<forall>h req. \<exists>es. respond h req = Inr es" and "svc_DeletionTimestamp svc = None"
    and "reuse_deleted svc create update delete = (c, u, d)"
  shows "\<exists>wlog'. finalize respond svc (create, update, delete) wlog = (None, wlog') \<and>
    requests wlog' = requests wlog @ map (CreateSlice (svc_Namespace svc)) c @ map (UpdateSlice (svc_Namespace svc)) u @
      map (\<lambda>es. DeleteSlice (svc_Namespace svc) (es_Name es)) d"
proof -
  let ?ns = "svc_Namespace svc"
  let ?cs = "map (\<lambda>es. (CreateSlice ?ns es, TrackUpdate)) c"
  let ?us = "map (\<lambda>es. (UpdateSlice ?ns es, TrackUpdate)) u @ map (\<lambda>es. (DeleteSlice ?ns (es_Name es), \<lambda>_. TrackExpectDeletion es)) d"
  obtain wlog1 where 1: "send_all respond ?cs wlog = Inr wlog1" "requests wlog1 = requests wlog @ map fst ?cs"
    using send_all_accepted [OF assms(1)] by blast
  obtain wlog2 where 2: "send_all respond ?us wlog1 = Inr wlog2" "requests wlog2 = requests wlog1 @ map fst ?us"
    using send_all_accepted [OF assms(1)] by blast
  from 1 2 assms(2,3) show ?thesis by (simp add: finalize_def Let_def comp_def)
qed



end
