(* ===== verification/Workload_Controller.thy ===== *)
theory Workload_Controller
  imports Slice_Writes
begin

text \<open>
  The controller of external workloads (\<open>external-workload/endpoints_controller.go\<close>,
  \<open>controller_util.go\<close>): which services an event concerns, the queue of services to
  reconcile with its retries, and the reconciliation of one service.

  The listers, the keys of client-go's \<open>cache\<close> package, label selectors, the
  \<open>EndpointSliceTracker\<close> and the order of a range over a set are parameters, the record
  \<open>ec_env\<close>. The work queue is the sequence of the calls made on it; how often a key was
  requeued is a parameter that reads this sequence.
\<close>

section \<open>Parameters and state\<close>

datatype queue_op = QAdd string | QAddRateLimited string | QForget string | QDone string

record 't ec_env =
  ec_svc :: "string \<Rightarrow> string \<Rightarrow> api_error + Service"
  ec_services :: "string \<Rightarrow> api_error + Service list"
  ec_workloads :: "labels \<Rightarrow> api_error + ExternalWorkload list"
  ec_slices :: "labels \<Rightarrow> api_error + EndpointSlice list"
  ec_matches :: "labels \<Rightarrow> labels \<Rightarrow> bool"
  ec_key :: "string \<Rightarrow> string \<Rightarrow> string"
  ec_split :: "string \<Rightarrow> (string \<times> string) option"
  ec_sliceKey :: "EndpointSlice \<Rightarrow> string option"
  ec_range :: "string fset \<Rightarrow> string list"
  ec_shouldSync :: "'t \<Rightarrow> EndpointSlice \<Rightarrow> bool"
  ec_has :: "'t \<Rightarrow> EndpointSlice \<Rightarrow> bool"
  ec_handleDeletion :: "'t \<Rightarrow> EndpointSlice \<Rightarrow> bool \<times> 't"
  ec_stale :: "'t \<Rightarrow> Service \<Rightarrow> EndpointSlice list \<Rightarrow> bool"
  ec_deleteService :: "'t \<Rightarrow> string \<Rightarrow> string \<Rightarrow> 't"
  ec_track :: "'t \<Rightarrow> tracker_call \<Rightarrow> 't"
  ec_numRequeues :: "queue_op list \<Rightarrow> string \<Rightarrow> nat"

record 't EndpointsController =
  ec_tracker :: 't
  ec_queue :: "queue_op list"
  ec_drops :: nat
  ec_requests :: "slice_request list"

definition managedBy :: string where
  "managedBy = ''linkerd-external-workloads-controller''"

definition maxEndpointsQuota :: nat where
  "maxEndpointsQuota = 100"

definition maxRetryBudget :: nat where
  "maxRetryBudget = 15"

definition ec_reconciler :: endpointsReconciler where
  "ec_reconciler = \<lparr>controllerName = managedBy, maxEndpoints = maxEndpointsQuota\<rparr>"

definition queue_add :: "string list \<Rightarrow> 't EndpointsController \<Rightarrow> 't EndpointsController" where
  "queue_add keys ec = ec\<lparr>ec_queue := ec_queue ec @ map QAdd keys\<rparr>"

section \<open>Which services an event concerns\<close>

definition managedByController :: "EndpointSlice \<Rightarrow> bool" where
  "managedByController es \<longleftrightarrow> managedBy = fm_str (es_Labels es) LabelManagedBy"

definition managedByChanged :: "EndpointSlice \<Rightarrow> EndpointSlice \<Rightarrow> bool" where
  "managedByChanged es1 es2 \<longleftrightarrow> managedByController es1 \<noteq> managedByController es2"

text \<open>
  Whether the endpoints of a workload changed, and whether its labels did. Deletion
  timestamps are compared as pointers.
\<close>

definition ew_ports_changed :: "PortSpec list \<Rightarrow> PortSpec list \<Rightarrow> bool" where
  "ew_ports_changed oldPorts newPorts =
     (let portSet = foldl (\<lambda>m ps. fmupd (ps_Port ps) ps m) fmempty newPorts
      in list_ex (\<lambda>oldPs. case fmlookup portSet (ps_Port oldPs) of
             None \<Rightarrow> True
           | Some newPs \<Rightarrow> ps_Name newPs \<noteq> ps_Name oldPs \<or> ps_Protocol newPs \<noteq> ps_Protocol oldPs) oldPorts)"

definition ewEndpointsChanged :: "ExternalWorkload \<Rightarrow> ExternalWorkload \<Rightarrow> bool \<times> bool" where
  "ewEndpointsChanged oldEw newEw =
     (ew_DeletionTimestamp newEw \<noteq> ew_DeletionTimestamp oldEw \<or>
      IsEwReady oldEw \<noteq> IsEwReady newEw \<or>
      length (ew_WorkloadIPs oldEw) \<noteq> length (ew_WorkloadIPs newEw) \<or>
      ew_WorkloadIPs oldEw \<noteq> ew_WorkloadIPs newEw \<or>
      length (ew_Ports oldEw) \<noteq> length (ew_Ports newEw) \<or>
      ew_ports_changed (ew_Ports oldEw) (ew_Ports newEw),
      ew_Labels newEw \<noteq> ew_Labels oldEw)"

definition getExternalWorkloadSvcMembership :: "'t ec_env \<Rightarrow> ExternalWorkload \<Rightarrow> api_error + string fset" where
  "getExternalWorkloadSvcMembership env workload = (case ec_services env (ew_Namespace workload) of
     Inl e \<Rightarrow> Inl e
   | Inr services \<Rightarrow> Inr (fset_of_list (List.map_filter (\<lambda>svc. case svc_Selector svc of
         None \<Rightarrow> None
       | Some sel \<Rightarrow> if ec_matches env sel (ew_Labels workload)
           then Some (ec_key env (svc_Namespace svc) (svc_Name svc)) else None) services)))"

definition determineNeededServiceUpdates :: "string fset \<Rightarrow> string fset \<Rightarrow> bool \<Rightarrow> string fset" where
  "determineNeededServiceUpdates oldServices services specChanged =
     (if specChanged then services |\<union>| oldServices
      else (services |-| oldServices) |\<union>| (oldServices |-| services))"

definition getServicesToUpdateOnExternalWorkloadChange ::
  "'t ec_env \<Rightarrow> ExternalWorkload \<Rightarrow> ExternalWorkload \<Rightarrow> string fset" where
  "getServicesToUpdateOnExternalWorkloadChange env oldEw newEw =
     (if ew_ResourceVersion newEw = ew_ResourceVersion oldEw then {||}
      else
        let (ewChanged, labelsChanged) = ewEndpointsChanged oldEw newEw
        in if \<not> ewChanged \<and> \<not> labelsChanged then {||}
           else case getExternalWorkloadSvcMembership env newEw of
             Inl e \<Rightarrow> {||}
           | Inr services \<Rightarrow>
               if labelsChanged
               then determineNeededServiceUpdates
                 (case getExternalWorkloadSvcMembership env oldEw of Inl e \<Rightarrow> {||} | Inr oldServices \<Rightarrow> oldServices)
                 services ewChanged
               else services)"

definition onAddExternalWorkload ::
  "'t ec_env \<Rightarrow> 't EndpointsController \<Rightarrow> ExternalWorkload \<Rightarrow> 't EndpointsController" where
  "onAddExternalWorkload env ec ew = (case getExternalWorkloadSvcMembership env ew of
     Inl e \<Rightarrow> ec | Inr services \<Rightarrow> queue_add (ec_range env services) ec)"

definition onUpdateExternalWorkload ::
  "'t ec_env \<Rightarrow> 't EndpointsController \<Rightarrow> ExternalWorkload \<Rightarrow> ExternalWorkload \<Rightarrow> 't EndpointsController" where
  "onUpdateExternalWorkload env ec oldEw newEw =
     queue_add (ec_range env (getServicesToUpdateOnExternalWorkloadChange env oldEw newEw)) ec"

definition onDeleteExternalWorkload ::
  "'t ec_env \<Rightarrow> 't EndpointsController \<Rightarrow> ExternalWorkload informer_obj \<Rightarrow> 't EndpointsController" where
  "onDeleteExternalWorkload env ec obj = (case informer_object obj of
     None \<Rightarrow> ec | Some ew \<Rightarrow> onAddExternalWorkload env ec ew)"

text \<open>The key function does not see through a tombstone: such a deletion of a service is only logged.\<close>

definition onServiceUpdate ::
  "'t ec_env \<Rightarrow> 't EndpointsController \<Rightarrow> Service informer_obj \<Rightarrow> 't EndpointsController" where
  "onServiceUpdate env ec obj = (case obj of
     Obj svc \<Rightarrow>
       let key = ec_key env (svc_Namespace svc) (svc_Name svc);
           namespace = (case ec_split env key of None \<Rightarrow> [] | Some (ns, _) \<Rightarrow> ns)
       in if namespace = ''kube-system'' then ec else queue_add [key] ec
   | _ \<Rightarrow> ec)"

definition queueServiceForEndpointSlice ::
  "'t ec_env \<Rightarrow> 't EndpointsController \<Rightarrow> EndpointSlice \<Rightarrow> 't EndpointsController" where
  "queueServiceForEndpointSlice env ec es = (case ec_sliceKey env es of None \<Rightarrow> ec | Some key \<Rightarrow> queue_add [key] ec)"

definition onEndpointSliceAdd ::
  "'t ec_env \<Rightarrow> 't EndpointsController \<Rightarrow> EndpointSlice \<Rightarrow> 't EndpointsController" where
  "onEndpointSliceAdd env ec es =
     (if managedByController es \<and> ec_shouldSync env (ec_tracker ec) es
      then queueServiceForEndpointSlice env ec es else ec)"

definition onEndpointSliceUpdate ::
  "'t ec_env \<Rightarrow> 't EndpointsController \<Rightarrow> EndpointSlice \<Rightarrow> EndpointSlice \<Rightarrow> 't EndpointsController" where
  "onEndpointSliceUpdate env ec prev es =
     (if fm_str (es_Labels es) LabelServiceName \<noteq> fm_str (es_Labels prev) LabelServiceName
      then queueServiceForEndpointSlice env (queueServiceForEndpointSlice env ec es) prev
      else if managedByChanged prev es \<or> managedByController es \<and> ec_shouldSync env (ec_tracker ec) es
      then queueServiceForEndpointSlice env ec es else ec)"

definition onEndpointSliceDelete ::
  "'t ec_env \<Rightarrow> 't EndpointsController \<Rightarrow> EndpointSlice informer_obj \<Rightarrow> 't EndpointsController" where
  "onEndpointSliceDelete env ec obj = (case informer_object obj of
     None \<Rightarrow> ec
   | Some es \<Rightarrow>
       if managedByController es \<and> ec_has env (ec_tracker ec) es
       then (case ec_handleDeletion env (ec_tracker ec) es of
           (expected, tracker) \<Rightarrow>
             let ec = ec\<lparr>ec_tracker := tracker\<rparr>
             in if expected then ec else queueServiceForEndpointSlice env ec es)
       else ec)"

section \<open>Reconciling a service\<close>

definition dropEndpointSlicesPendingDeletion :: "EndpointSlice list \<Rightarrow> EndpointSlice list" where
  "dropEndpointSlicesPendingDeletion ess = filter (\<lambda>es. es_DeletionTimestamp es = None) ess"

datatype sync_error = BadKey | ListerError api_error | StaleCache | WriteErrors "write_error list"

text \<open>The error it returns, if any; \<open>None\<close> as a whole if the reconciler does not return.\<close>

definition syncService ::
  "'t ec_env \<Rightarrow> ('h, 'k) slice_util \<Rightarrow> api_server \<Rightarrow> 't EndpointsController \<Rightarrow> string \<Rightarrow>
     (sync_error option \<times> 't EndpointsController) option" where
  "syncService env u respond ec update = (case ec_split env update of
     None \<Rightarrow> Some (Some BadKey, ec)
   | Some (namespace, name) \<Rightarrow> (case ec_svc env namespace name of
       Inl NotFound \<Rightarrow> Some (None, ec\<lparr>ec_tracker := ec_deleteService env (ec_tracker ec) namespace name\<rparr>)
     | Inl e \<Rightarrow> Some (Some (ListerError e), ec)
     | Inr svc \<Rightarrow>
         if svc_Type svc = ''ExternalName'' then Some (None, ec)
         else (case svc_Selector svc of
           None \<Rightarrow> Some (None, ec)
         | Some sel \<Rightarrow> (case ec_workloads env sel of
             Inl e \<Rightarrow> Some (Some (ListerError e), ec)
           | Inr ews \<Rightarrow> (case ec_slices env (fmupd LabelManagedBy managedBy (fmupd LabelServiceName (svc_Name svc) fmempty)) of
               Inl e \<Rightarrow> Some (Some (ListerError e), ec)
             | Inr epSlices \<Rightarrow>
                 let epSlices = dropEndpointSlicesPendingDeletion epSlices
                 in if ec_stale env (ec_tracker ec) svc epSlices then Some (Some StaleCache, ec)
                    else map_option (\<lambda>(errs, wlog).
                        (if errs = [] then None else Some (WriteErrors errs),
                         ec\<lparr>ec_tracker := foldl (ec_track env) (ec_tracker ec) (tracked wlog), ec_requests := requests wlog\<rparr>))
                      (reconcile u ec_reconciler respond svc ews epSlices \<lparr>requests = ec_requests ec, tracked = []\<rparr>))))))"

definition ec_handleError ::
  "'t ec_env \<Rightarrow> 't EndpointsController \<Rightarrow> sync_error option \<Rightarrow> string \<Rightarrow> 't EndpointsController" where
  "ec_handleError env ec err key =
     (if err = None then ec\<lparr>ec_queue := ec_queue ec @ [QForget key]\<rparr>
      else if ec_numRequeues env (ec_queue ec) key < maxRetryBudget
      then ec\<lparr>ec_queue := ec_queue ec @ [QAddRateLimited key]\<rparr>
      else ec\<lparr>ec_queue := ec_queue ec @ [QForget key], ec_drops := Suc (ec_drops ec)\<rparr>)"

text \<open>One round of \<open>processQueue\<close>, for the key the queue handed out.\<close>

definition processKey ::
  "'t ec_env \<Rightarrow> ('h, 'k) slice_util \<Rightarrow> api_server \<Rightarrow> 't EndpointsController \<Rightarrow> string \<Rightarrow> 't EndpointsController option" where
  "processKey env u respond ec key = (case syncService env u respond ec key of
     None \<Rightarrow> None
   | Some (err, ec) \<Rightarrow>
       let ec = ec_handleError env ec err key
       in Some (ec\<lparr>ec_queue := ec_queue ec @ [QDone key]\<rparr>))"

section \<open>Updates of a workload\<close>

text \<open>Ports as the validation of the resource leaves them: no number and no name is used twice.\<close>

definition ports_ok :: "PortSpec list \<Rightarrow> bool" where
  "ports_ok ports \<longleftrightarrow> distinct (map ps_Port ports) \<and> distinct (map (\<lambda>p. (ps_Name p, ps_Protocol p)) ports)"

lemma find_snoc:
  "find P (xs @ [y]) = (case find P xs of None \<Rightarrow> if P y then Some y else None | Some x \<Rightarrow> Some x)"
  by (induction xs) auto

lemma port_map_lookup:
  "distinct (map ps_Port ports) \<Longrightarrow>
   fmlookup (foldl (\<lambda>m ps. fmupd (ps_Port ps) ps m) fmempty ports) n = find (\<lambda>p. ps_Port p = n) ports"
proof (induction ports rule: rev_induct)
  case (snoc p ports)
  from snoc.prems have "ps_Port p \<notin> ps_Port ` set ports" by simp
  then have "\<forall>q \<in> set ports. ps_Port q \<noteq> ps_Port p" by (metis image_eqI)
  then have "find (\<lambda>q. ps_Port q = ps_Port p) ports = None" by (auto simp: find_None_iff)
  then show ?case using snoc by (auto simp: find_snoc split: option.splits)
qed simp

lemma ports_unchanged_refl:
  assumes "ports_ok ports"
  shows "\<not> ew_ports_changed ports ports"
proof -
  have "find (\<lambda>q. ps_Port q = ps_Port p) ports = Some p" if "p \<in> set ports" for p
  proof -
    from that have "find (\<lambda>q. ps_Port q = ps_Port p) ports \<noteq> None" by (simp only: find_None_iff) blast
    then obtain q where q: "find (\<lambda>q. ps_Port q = ps_Port p) ports = Some q" by blast
    then have "q \<in> set ports" "ps_Port q = ps_Port p" by (auto simp: find_Some_iff)
    with inj_onD [of ps_Port "set ports" q p] that assms have "q = p" by (simp add: ports_ok_def distinct_map)
    with q show ?thesis by simp
  qed
  with assms show ?thesis by (simp add: ew_ports_changed_def Let_def list_ex_iff ports_ok_def port_map_lookup)
qed

lemma ports_unchanged_set:
  assumes "\<not> ew_ports_changed old new" and "length old = length new" and "ports_ok old" and "ports_ok new"
  shows "set old = set new"
proof -
  have "p \<in> set new" if "p \<in> set old" for p
  proof -
    let ?f = "find (\<lambda>q. ps_Port q = ps_Port p) new"
    have "\<not> (case ?f of None \<Rightarrow> True | Some q \<Rightarrow> ps_Name q \<noteq> ps_Name p \<or> ps_Protocol q \<noteq> ps_Protocol p)"
      using assms(1,4) that by (simp add: ew_ports_changed_def Let_def list_ex_iff ports_ok_def port_map_lookup)
    then obtain q where q: "?f = Some q" "ps_Name q = ps_Name p" "ps_Protocol q = ps_Protocol p" by (cases ?f) simp_all
    from q(1) have "q \<in> set new" "ps_Port q = ps_Port p" by (auto simp: find_Some_iff)
    with q(2,3) have "q = p" by (intro PortSpec.equality) simp_all
    with \<open>q \<in> set new\<close> show ?thesis by simp
  qed
  moreover have "card (set old) = card (set new)"
    using assms(2-4) by (metis distinct_card distinct_map ports_ok_def)
  ultimately show ?thesis by (metis List.finite_set card_subset_eq subsetI)
qed

lemma find_unique:
  assumes "set xs = set ys" and "\<And>x y. x \<in> set xs \<Longrightarrow> y \<in> set xs \<Longrightarrow> P x \<Longrightarrow> P y \<Longrightarrow> f x = f y"
  shows "map_option f (find P xs) = map_option f (find P ys)"
proof (cases "find P xs")
  case None
  with assms(1) have "find P ys = None" by (simp add: find_None_iff)
  with None show ?thesis by simp
next
  case (Some x)
  then have x: "x \<in> set xs" "P x" by (auto simp: find_Some_iff)
  with assms(1) obtain y where y: "find P ys = Some y" by (metis find_None_iff not_Some_eq)
  then have "y \<in> set xs" "P y" using assms(1) by (auto simp: find_Some_iff)
  then have "f x = f y" using x by (intro assms(2))
  with Some y show ?thesis by simp
qed

lemma findEndpointPorts_unchanged:
  assumes "set (ew_Ports old) = set (ew_Ports new)" and "ports_ok (ew_Ports old)"
  shows "findEndpointPorts svc new = findEndpointPorts svc old"
proof -
  have name: "p = q" if "p \<in> set (ew_Ports old)" "q \<in> set (ew_Ports old)" "ps_Name p = ps_Name q" "ps_Protocol p = ps_Protocol q" for p q
    using that assms(2) by (auto simp: ports_ok_def distinct_map dest!: inj_onD [of "\<lambda>p. (ps_Name p, ps_Protocol p)" _ p q])
  have "findWorkloadPort old sp = findWorkloadPort new sp" for sp
    unfolding findWorkloadPort_def
    by (cases "sp_TargetPort sp") (auto intro!: find_unique [OF assms(1)] arg_cong [of _ _ ps_Port] name)
  then show ?thesis by (simp add: findEndpointPorts_def)
qed

text \<open>Two versions of one workload.\<close>

definition same_workload :: "ExternalWorkload \<Rightarrow> ExternalWorkload \<Rightarrow> bool" where
  "same_workload old new \<longleftrightarrow> ew_Name new = ew_Name old \<and> ew_Namespace new = ew_Namespace old \<and> ew_UID new = ew_UID old"

lemma unchanged_endpoints:
  assumes "\<not> fst (ewEndpointsChanged old new)" and "same_workload old new"
    and "ports_ok (ew_Ports old)" and "ports_ok (ew_Ports new)"
  shows "findEndpointPorts svc new = findEndpointPorts svc old"
    and "fmlookup (ew_Labels new) LabelTopologyZone = fmlookup (ew_Labels old) LabelTopologyZone \<Longrightarrow>
      externalWorkloadToEndpoint u t new svc = externalWorkloadToEndpoint u t old svc"
proof -
  from assms(1) have "\<not> ew_ports_changed (ew_Ports old) (ew_Ports new)" "length (ew_Ports old) = length (ew_Ports new)"
    by (simp_all add: ewEndpointsChanged_def)
  from findEndpointPorts_unchanged [OF ports_unchanged_set [OF this assms(3,4)] assms(3)]
  show "findEndpointPorts svc new = findEndpointPorts svc old" .
  show "externalWorkloadToEndpoint u t new svc = externalWorkloadToEndpoint u t old svc"
    if "fmlookup (ew_Labels new) LabelTopologyZone = fmlookup (ew_Labels old) LabelTopologyZone"
    using assms(1,2) that by (simp add: ewEndpointsChanged_def same_workload_def externalWorkloadToEndpoint_def Let_def)
qed

definition members :: "'t ec_env \<Rightarrow> Service list \<Rightarrow> labels \<Rightarrow> string set" where
  "members env svcs ls = {ec_key env (svc_Namespace svc) (svc_Name svc) | svc sel.
     svc \<in> set svcs \<and> svc_Selector svc = Some sel \<and> ec_matches env sel ls}"

lemma membership_members:
  assumes "ec_services env (ew_Namespace ew) = Inr svcs"
  shows "\<exists>ks. getExternalWorkloadSvcMembership env ew = Inr ks \<and> fset ks = members env svcs (ew_Labels ew)"
proof -
  let ?f = "\<lambda>svc. case svc_Selector svc of None \<Rightarrow> None | Some sel \<Rightarrow> if ec_matches env sel (ew_Labels ew)
      then Some (ec_key env (svc_Namespace svc) (svc_Name svc)) else None"
  have f: "?f svc = Some k \<longleftrightarrow> (\<exists>sel. svc_Selector svc = Some sel \<and> ec_matches env sel (ew_Labels ew) \<and>
      k = ec_key env (svc_Namespace svc) (svc_Name svc))" for svc k
    by (cases "svc_Selector svc") auto
  have "set (List.map_filter ?f svcs) = members env svcs (ew_Labels ew)"
    unfolding set_eq_iff in_set_map_filter members_def mem_Collect_eq f by blast
  with assms show ?thesis by (simp add: getExternalWorkloadSvcMembership_def fset_of_list.rep_eq)
qed

lemma services_to_update:
  assumes "ec_services env (ew_Namespace new) = Inr svcs" and "same_workload old new"
    and "ew_ResourceVersion new \<noteq> ew_ResourceVersion old"
  shows "fset (getServicesToUpdateOnExternalWorkloadChange env old new) =
    (case ewEndpointsChanged old new of
       (False, False) \<Rightarrow> {}
     | (True, False) \<Rightarrow> members env svcs (ew_Labels new)
     | (True, True) \<Rightarrow> members env svcs (ew_Labels new) \<union> members env svcs (ew_Labels old)
     | (False, True) \<Rightarrow> (members env svcs (ew_Labels new) - members env svcs (ew_Labels old)) \<union>
         (members env svcs (ew_Labels old) - members env svcs (ew_Labels new)))"
proof -
  obtain ewc lc where c: "ewEndpointsChanged old new = (ewc, lc)" by fastforce
  obtain ns where ns: "getExternalWorkloadSvcMembership env new = Inr ns" "fset ns = members env svcs (ew_Labels new)"
    using membership_members [OF assms(1)] by blast
  obtain os where os: "getExternalWorkloadSvcMembership env old = Inr os" "fset os = members env svcs (ew_Labels old)"
    using membership_members [of env old svcs] assms(1,2) by (auto simp: same_workload_def)
  show ?thesis
    using assms(3) ns os c
    by (cases ewc; cases lc) (simp_all add: getServicesToUpdateOnExternalWorkloadChange_def determineNeededServiceUpdates_def)
qed


text \<open>How often a key was requeued since it was last forgotten.\<close>

fun requeues :: "queue_op list \<Rightarrow> string \<Rightarrow> nat \<Rightarrow> nat" where
  "requeues [] key n = n"
| "requeues (QAddRateLimited k # ops) key n = requeues ops key (if k = key then Suc n else n)"
| "requeues (QForget k # ops) key n = requeues ops key (if k = key then 0 else n)"
| "requeues (QAdd k # ops) key n = requeues ops key n"
| "requeues (QDone k # ops) key n = requeues ops key n"

text \<open>An instance of the parameters on the sample cluster, with a tracker that knows nothing.\<close>

definition sample_env :: "unit ec_env" where
  "sample_env =
     \<lparr>ec_svc = api_svc sample_api, ec_services = (\<lambda>_. Inr [sample_service]),
      ec_workloads = (\<lambda>_. Inr [sample_workload]), ec_slices = (\<lambda>_. Inr [sample_slice\<lparr>es_Namespace := ''other''\<rparr>]),
      ec_matches = (\<lambda>sel ls. sel \<subseteq>\<^sub>f ls), ec_key = (\<lambda>ns n. ns @ ''/'' @ n),
      ec_split = (\<lambda>key. if key = ''ns/web'' then Some (''ns'', ''web'') else None),
      ec_sliceKey = (\<lambda>es. Some (es_Namespace es @ ''/'' @ fm_str (es_Labels es) LabelServiceName)),
      ec_range = sorted_list_of_fset, ec_shouldSync = (\<lambda>_ _. True), ec_has = (\<lambda>_ _. False),
      ec_handleDeletion = (\<lambda>_ _. (False, ())), ec_stale = (\<lambda>_ _ _. False), ec_deleteService = (\<lambda>_ _ _. ()),
      ec_track = (\<lambda>_ _. ()), ec_numRequeues = (\<lambda>ops key. requeues ops key 0)\<rparr>"


text \<open>
  C39. If only the topology zone of a workload changes and no service selects by it, nothing is
  queued, although the endpoints the workload should have are no longer those that were written.
\<close>

theorem zone_change_is_missed:
  assumes "ec_services env (ew_Namespace ew) = Inr svcs"
    and "new = ew\<lparr>ew_Labels := fmupd LabelTopologyZone zone (ew_Labels ew), ew_ResourceVersion := rv\<rparr>"
    and "rv \<noteq> ew_ResourceVersion ew" and "fmlookup (ew_Labels ew) LabelTopologyZone \<noteq> Some zone"
    and "\<forall>svc \<in> set svcs. \<forall>sel. svc_Selector svc = Some sel \<longrightarrow>
      ec_matches env sel (fmupd LabelTopologyZone zone (ew_Labels ew)) = ec_matches env sel (ew_Labels ew)"
    and "ports_ok (ew_Ports ew)" and "ec_range env {||} = []"
  shows "onUpdateExternalWorkload env ec ew new = ec \<and>
    externalWorkloadToEndpoint u t new svc \<noteq> externalWorkloadToEndpoint u t ew svc"
proof -
  have "members env svcs (fmupd LabelTopologyZone zone (ew_Labels ew)) = members env svcs (ew_Labels ew)"
    using assms(5) by (auto simp: members_def)
  moreover have "\<not> fst (ewEndpointsChanged ew new)"
    using ports_unchanged_refl [OF assms(6)] by (simp add: assms(2) ewEndpointsChanged_def IsEwReady_def)
  ultimately have "fset (getServicesToUpdateOnExternalWorkloadChange env ew new) = {}"
    using services_to_update [of env new svcs ew] assms(1-3) by (auto simp: same_workload_def split: prod.splits bool.splits)
  then have "getServicesToUpdateOnExternalWorkloadChange env ew new = {||}" by (metis bot_fset.rep_eq fset_inject)
  with assms(2,4,7) show ?thesis
    by (simp add: onUpdateExternalWorkload_def queue_add_def externalWorkloadToEndpoint_def Let_def)
qed

theorem zone_change_is_missed_witness:
  "let new = sample_workload\<lparr>ew_Labels := fmupd LabelTopologyZone ''west'' (ew_Labels sample_workload), ew_ResourceVersion := ''2''\<rparr>;
       ec = \<lparr>ec_tracker = (), ec_queue = [], ec_drops = 0, ec_requests = []\<rparr>
   in onUpdateExternalWorkload sample_env ec sample_workload new = ec \<and>
      externalWorkloadToEndpoint sample_util ''IPv4'' new sample_service \<noteq>
        externalWorkloadToEndpoint sample_util ''IPv4'' sample_workload sample_service"
  unfolding Let_def
  by (rule zone_change_is_missed [OF _ refl, where svcs = "[sample_service]"])
    (simp_all add: sample_env_def sample_workload_def sample_service_def ports_ok_def fmsubset_alt_def fmpred_iff
      sorted_list_of_fset.rep_eq)

section \<open>Retries\<close>

fun process_times ::
  "'t ec_env \<Rightarrow> ('h, 'k) slice_util \<Rightarrow> api_server \<Rightarrow> string \<Rightarrow> nat \<Rightarrow> 't EndpointsController \<Rightarrow> 't EndpointsController option" where
  "process_times env u respond key 0 ec = Some ec"
| "process_times env u respond key (Suc n) ec = (case process_times env u respond key n ec of
     None \<Rightarrow> None | Some ec \<Rightarrow> processKey env u respond ec key)"

lemma requeues_append: "requeues (ops @ ops') key n = requeues ops' key (requeues ops key n)"
  by (induction ops key n rule: requeues.induct) auto

lemma syncService_queue:
  "syncService env u respond ec key = Some (err, ec') \<Longrightarrow> ec_queue ec' = ec_queue ec \<and> ec_drops ec' = ec_drops ec"
  by (auto simp: syncService_def Let_def split: option.splits sum.splits api_error.splits prod.splits if_splits)

text \<open>
  C28. A service whose reconciliation keeps failing is retried fifteen times, then it is
  dropped: counted, its history wiped and not queued again.
\<close>

theorem failing_service_dropped:
  assumes "\<forall>ec. \<exists>e ec'. syncService env u respond ec key = Some (Some e, ec')"
    and "\<forall>ops. ec_numRequeues env ops key = requeues ops key 0" and "requeues (ec_queue ec) key 0 = 0"
  shows "(\<forall>n \<le> maxRetryBudget. \<exists>ec'. process_times env u respond key n ec = Some ec' \<and>
      ec_queue ec' = ec_queue ec @ concat (replicate n [QAddRateLimited key, QDone key]) \<and> ec_drops ec' = ec_drops ec) \<and>
    (\<exists>ec'. process_times env u respond key (Suc maxRetryBudget) ec = Some ec' \<and> ec_drops ec' = Suc (ec_drops ec) \<and>
      ec_queue ec' = ec_queue ec @ concat (replicate maxRetryBudget [QAddRateLimited key, QDone key]) @ [QForget key, QDone key])"
proof -
  have step: "\<exists>ec2. processKey env u respond ec1 key = Some ec2 \<and>
      (if requeues (ec_queue ec1) key 0 < maxRetryBudget
       then ec_queue ec2 = ec_queue ec1 @ [QAddRateLimited key, QDone key] \<and> ec_drops ec2 = ec_drops ec1
       else ec_queue ec2 = ec_queue ec1 @ [QForget key, QDone key] \<and> ec_drops ec2 = Suc (ec_drops ec1))" for ec1
  proof -
    from assms(1) obtain e ec' where "syncService env u respond ec1 key = Some (Some e, ec')" by blast
    with syncService_queue [OF this] assms(2) show ?thesis by (simp add: processKey_def ec_handleError_def Let_def)
  qed
  have count: "requeues (ec_queue ec @ concat (replicate n [QAddRateLimited key, QDone key])) key 0 = n" for n
  proof -
    have "requeues (concat (replicate n [QAddRateLimited key, QDone key])) key m = n + m" for m
      by (induction n arbitrary: m) auto
    then show ?thesis by (simp add: requeues_append assms(3))
  qed
  have upto: "\<exists>ec'. process_times env u respond key n ec = Some ec' \<and>
      ec_queue ec' = ec_queue ec @ concat (replicate n [QAddRateLimited key, QDone key]) \<and> ec_drops ec' = ec_drops ec"
    if "n \<le> maxRetryBudget" for n
    using that
  proof (induction n)
    case (Suc n)
    then obtain ec1 where 1: "process_times env u respond key n ec = Some ec1" "ec_drops ec1 = ec_drops ec"
      "ec_queue ec1 = ec_queue ec @ concat (replicate n [QAddRateLimited key, QDone key])" by auto
    with step [of ec1] count [of n] Suc.prems show ?case
      by (auto simp flip: replicate_append_same)
  qed simp
  obtain ec1 where 1: "process_times env u respond key maxRetryBudget ec = Some ec1" "ec_drops ec1 = ec_drops ec"
    "ec_queue ec1 = ec_queue ec @ concat (replicate maxRetryBudget [QAddRateLimited key, QDone key])" using upto by blast
  with step [of ec1] count [of maxRetryBudget] upto show ?thesis by auto
qed

theorem failing_service_dropped_witness:
  "\<exists>ec'. process_times (sample_env\<lparr>ec_svc := \<lambda>_ _. Inl (OtherError ''down'')\<rparr>) sample_util (\<lambda>_ _. Inr sample_slice) ''ns/web''
      (Suc maxRetryBudget) \<lparr>ec_tracker = (), ec_queue = [], ec_drops = 0, ec_requests = []\<rparr> = Some ec' \<and> ec_drops ec' = 1"
  using failing_service_dropped [of "sample_env\<lparr>ec_svc := \<lambda>_ _. Inl (OtherError ''down'')\<rparr>" sample_util "\<lambda>_ _. Inr sample_slice"
      "''ns/web''" "\<lparr>ec_tracker = (), ec_queue = [], ec_drops = 0, ec_requests = []\<rparr>"]
  by (auto simp: sample_env_def syncService_def)

section \<open>Slices of other namespaces\<close>

lemma reconcileByAddressType_unowned:
  assumes "slice_util_ok u" and "0 < maxEndpoints r" and "distinct (map es_Name existing)" and "[] \<notin> es_Name ` set existing"
    and "\<forall>h req. \<exists>es. respond h req = Inr es" and "svc_DeletionTimestamp svc = None"
  shows "\<exists>wlog' new. reconcileByAddressType u r respond svc ews existing addrType wlog = Some (None, wlog') \<and>
    requests wlog' = requests wlog @ new \<and>
    (\<forall>es \<in> set existing. \<not> ownedBy es svc \<longrightarrow> DeleteSlice (svc_Namespace svc) (es_Name es) \<in> set new)"
proof -
  from planByAddressType_exact [OF assms(1-4), of svc ews addrType] obtain create update delete where
    plan: "planByAddressType u r svc ews existing addrType = Some (create, update, delete)"
    and del: "{es \<in> set existing. \<not> ownedBy es svc} \<subseteq> set delete" by blast
  obtain c up d where re: "reuse_deleted svc create update delete = (c, up, d)" by (metis prod_cases3)
  have "\<forall>es \<in> set existing. \<not> ownedBy es svc \<longrightarrow> es \<in> set d" using reuse_deleted_spec(4) [OF re] del by blast
  with finalize_accepted [OF assms(5,6) re, of wlog] plan show ?thesis by (auto simp: reconcileByAddressType_def)
qed

lemma reconcile_types_unowned:
  assumes "slice_util_ok u" and "0 < maxEndpoints r" and "distinct (map es_Name existing)" and "[] \<notin> es_Name ` set existing"
    and "\<forall>h req. \<exists>es. respond h req = Inr es" and "svc_DeletionTimestamp svc = None"
  shows "\<exists>wlog' new. reconcile_types u r respond svc ews existing types wlog = Some ([], wlog') \<and>
    requests wlog' = requests wlog @ new \<and>
    (\<forall>es \<in> set existing. \<not> ownedBy es svc \<longrightarrow> es_AddressType es \<in> set types \<longrightarrow>
       DeleteSlice (svc_Namespace svc) (es_Name es) \<in> set new)"
proof (induction types arbitrary: wlog)
  case (Cons t types)
  let ?E = "filter (\<lambda>es. es_AddressType es = t) existing"
  have names: "distinct (map es_Name ?E)" "[] \<notin> es_Name ` set ?E" using assms(3,4) by (auto simp: distinct_map_filter)
  obtain wlog1 new1 where 1: "reconcileByAddressType u r respond svc ews ?E t wlog = Some (None, wlog1)" "requests wlog1 = requests wlog @ new1"
    "\<forall>es \<in> set ?E. \<not> ownedBy es svc \<longrightarrow> DeleteSlice (svc_Namespace svc) (es_Name es) \<in> set new1"
    using reconcileByAddressType_unowned [OF assms(1,2) names assms(5,6)] by blast
  obtain wlog2 new2 where 2: "reconcile_types u r respond svc ews existing types wlog1 = Some ([], wlog2)" "requests wlog2 = requests wlog1 @ new2"
    "\<forall>es \<in> set existing. \<not> ownedBy es svc \<longrightarrow> es_AddressType es \<in> set types \<longrightarrow> DeleteSlice (svc_Namespace svc) (es_Name es) \<in> set new2"
    using Cons.IH by blast
  from 1 2 show ?case by (intro exI [of _ wlog2] exI [of _ "new1 @ new2"]) auto
qed simp

lemma delete_unsupported_accepted:
  assumes "\<forall>h req. \<exists>es. respond h req = Inr es"
  shows "\<exists>wlog'. delete_unsupported respond ns ess wlog = ([], wlog') \<and>
    requests wlog' = requests wlog @ map (\<lambda>es. DeleteSlice ns (es_Name es)) ess"
proof (induction ess arbitrary: wlog)
  case (Cons es ess)
  from assms obtain x where "respond (requests wlog) (DeleteSlice ns (es_Name es)) = Inr x" by blast
  with Cons.IH [of "wlog\<lparr>requests := requests wlog @ [DeleteSlice ns (es_Name es)]\<rparr>"] show ?case by auto
qed simp

text \<open>
  C40. The lister of slices is asked in all namespaces, and a slice is deleted by name in the
  namespace of the service: a slice written for a service of the same name in another
  namespace, which is not owned by this one, has its name deleted here, where it names no
  slice or another one.
\<close>

theorem foreign_slice_deleted_here:
  assumes "slice_util_ok u" and "\<forall>h req. \<exists>es. respond h req = Inr es"
    and "ec_split env key = Some (ns, name)" and "ec_svc env ns name = Inr svc"
    and "svc_Type svc \<noteq> ''ExternalName''" and "svc_Selector svc = Some sel" and "svc_DeletionTimestamp svc = None"
    and "ec_workloads env sel = Inr ews"
    and "ec_slices env (fmupd LabelManagedBy managedBy (fmupd LabelServiceName (svc_Name svc) fmempty)) = Inr ess"
    and "\<forall>t ess. \<not> ec_stale env t svc ess" and "distinct (map es_Name ess)" and "[] \<notin> es_Name ` set ess"
    and "es \<in> set ess" and "es_DeletionTimestamp es = None" and "\<not> ownedBy es svc" and "es_Namespace es \<noteq> svc_Namespace svc"
  shows "\<exists>ec'. syncService env u respond ec key = Some (None, ec') \<and>
    DeleteSlice (svc_Namespace svc) (es_Name es) \<in> set (ec_requests ec')"
proof -
  let ?E = "dropEndpointSlicesPendingDeletion ess" and ?supp = "getSupportedAddressTypes svc"
  let ?log = "\<lparr>requests = ec_requests ec, tracked = []\<rparr>"
  have es: "es \<in> set ?E" and names: "distinct (map es_Name ?E)" "[] \<notin> es_Name ` set ?E"
    using assms(11-14) by (auto simp: dropEndpointSlicesPendingDeletion_def distinct_map_filter)
  have max: "0 < maxEndpoints ec_reconciler" by (simp add: ec_reconciler_def maxEndpointsQuota_def)
  obtain wlog1 new where 1: "reconcile_types u ec_reconciler respond svc ews ?E (su_names u ?supp) ?log = Some ([], wlog1)"
    "\<not> ownedBy es svc \<longrightarrow> es_AddressType es \<in> set (su_names u ?supp) \<longrightarrow> DeleteSlice (svc_Namespace svc) (es_Name es) \<in> set new"
    "requests wlog1 = ec_requests ec @ new"
    using reconcile_types_unowned [OF assms(1) max names assms(2,7), of ews "su_names u ?supp" ?log] es by auto
  obtain wlog2 where 2: "delete_unsupported respond (svc_Namespace svc) (filter (\<lambda>es. es_AddressType es |\<notin>| ?supp) ?E) wlog1 = ([], wlog2)"
    "requests wlog2 = requests wlog1 @ map (\<lambda>es. DeleteSlice (svc_Namespace svc) (es_Name es)) (filter (\<lambda>es. es_AddressType es |\<notin>| ?supp) ?E)"
    using delete_unsupported_accepted [OF assms(2)] by blast
  have "reconcile u ec_reconciler respond svc ews ?E ?log = Some ([], wlog2)" using 1(1) 2(1) by (simp add: reconcile_def Let_def)
  moreover have "set (su_names u ?supp) = fset ?supp" using assms(1) by (simp add: slice_util_ok_def)
  then have "DeleteSlice (svc_Namespace svc) (es_Name es) \<in> set (requests wlog2)"
    using 1(2,3) 2(2) es assms(15) by auto
  ultimately show ?thesis using assms(3-6,8-10) by (simp add: syncService_def Let_def)
qed

theorem foreign_slice_deleted_here_witness:
  "\<exists>ec'. syncService sample_env sample_util (\<lambda>_ _. Inr sample_slice)
       \<lparr>ec_tracker = (), ec_queue = [], ec_drops = 0, ec_requests = []\<rparr> ''ns/web'' = Some (None, ec') \<and>
     DeleteSlice ''ns'' ''web-abc'' \<in> set (ec_requests ec')"
  using foreign_slice_deleted_here [OF sample_util_ok, of "\<lambda>_ _. Inr sample_slice" sample_env "''ns/web''" "''ns''" "''web''"
      sample_service "fmap_of_list [(''app'', ''web'')]" "[sample_workload]" "[sample_slice\<lparr>es_Namespace := ''other''\<rparr>]"
      "sample_slice\<lparr>es_Namespace := ''other''\<rparr>" "\<lparr>ec_tracker = (), ec_queue = [], ec_drops = 0, ec_requests = []\<rparr>"]
  by (simp add: sample_env_def sample_service_def sample_slice_def ownedBy_def)

end
