(* ===== verification/Mirror_Types.thy ===== *)
theory Mirror_Types
  imports Server_Names "HOL-Library.State_Monad"
begin

text \<open>
  The service mirror (\<open>multicluster/service-mirror\<close>): the resources it reads and writes, its
  events, its state and the calls it makes.

  \<^item> The local API server, the link client, the resolver and the event queue are not part of
    the repository. Every call to one of them is recorded in \<open>m_calls\<close>, and what it answers
    is a function of the calls made before, a field of \<open>mirror_env\<close>; so are the contents of
    the caches of the remote cluster, the selectors of apimachinery and the clock.
  \<^item> The caches of the local cluster hold pointers, and the handlers write through them: an
    object of a cache has an address, and an event that carries a local service carries its
    address. An informer that sees a change stores a new object (\<open>cache_service\<close>).
  \<^item> The handlers are programs of the state monad. A handler returns nil (\<open>Done\<close>), an error
    (\<open>Failed\<close>) or panics (\<open>Panicked\<close>).
\<close>

section \<open>Kubernetes resources\<close>

record CorePort =
  kp_Name :: string
  kp_Protocol :: string
  kp_AppProtocol :: "string option"
  kp_Port :: int32
  kp_TargetPort :: IntOrString
  kp_NodePort :: int32

text \<open>A nil map of annotations is \<open>None\<close>: writing to it panics.\<close>

record CoreService =
  k_Name :: string
  k_Namespace :: string
  k_ResourceVersion :: string
  k_Labels :: labels
  k_Annotations :: "labels option"
  k_Ports :: "CorePort list"
  k_ClusterIP :: string

record CoreEndpointPort =
  kep_Name :: string
  kep_Protocol :: string
  kep_Port :: int32

record CoreSubset =
  ks_Addresses :: "EndpointAddress list"
  ks_NotReadyAddresses :: "EndpointAddress list"
  ks_Ports :: "CoreEndpointPort list"

record CoreEndpoints =
  ke_Name :: string
  ke_Namespace :: string
  ke_ResourceVersion :: string
  ke_Labels :: labels
  ke_Annotations :: labels
  ke_Subsets :: "CoreSubset list"

definition zero_Service :: CoreService where
  "zero_Service =
     \<lparr>k_Name = [], k_Namespace = [], k_ResourceVersion = [], k_Labels = fmempty, k_Annotations = None,
      k_Ports = [], k_ClusterIP = []\<rparr>"

abbreviation annotations_of :: "CoreService \<Rightarrow> labels" where
  "annotations_of svc \<equiv> (case k_Annotations svc of None \<Rightarrow> fmempty | Some a \<Rightarrow> a)"

section \<open>Links\<close>

record ProbeSpec =
  probe_Path :: string
  probe_Port :: string
  probe_Period :: string
  probe_Timeout :: string
  probe_FailureThreshold :: string

record Link =
  TargetClusterName :: string
  TargetClusterDomain :: string
  TargetClusterLinkerdNamespace :: string
  ClusterCredentialsSecret :: string
  GatewayAddress :: string
  GatewayPort :: string
  GatewayIdentity :: string
  link_ProbeSpec :: ProbeSpec
  Selector :: "LabelSelector option"
  RemoteDiscoverySelector :: "LabelSelector option"
  FederatedServiceSelector :: "LabelSelector option"

record ObjectRef =
  obj_Group :: string
  obj_Kind :: string
  obj_Name :: string
  obj_Namespace :: string

record LinkCondition =
  lc_Type :: string
  lc_Status :: string
  lc_LastTransitionTime :: nat
  lc_Reason :: string
  lc_Message :: string
  lc_LocalRef :: ObjectRef

record ServiceStatus =
  ss_Conditions :: "LinkCondition list"
  ss_ControllerName :: string
  ss_RemoteRef :: ObjectRef

record LinkStatus =
  MirrorServices :: "ServiceStatus list"
  FederatedServices :: "ServiceStatus list"

section \<open>Errors and results\<close>

text \<open>What the API server answers, as far as the code tells it apart.\<close>

datatype kerror = KNotFound | KAlreadyExists | KOther string

datatype mirror_error = RetryableError "string list" | PlainError string

datatype mirror_result = Done | Failed mirror_error | Panicked

fun error_string :: "mirror_error \<Rightarrow> string" where
  "error_string (RetryableError es) =
     ''Inner errors:'' @ [CHR 0x0A, CHR 0x09] @ join_with [CHR 0x0A, CHR 0x09] es"
| "error_string (PlainError e) = e"

section \<open>Events and calls\<close>

text \<open>The events of the queue; \<open>nat\<close> is the address of an object of a local cache.\<close>

datatype mirror_event =
    RemoteServiceExported CoreService
  | CreateFederatedService CoreService
  | RemoteExportedServiceUpdated nat "nat option" CoreService
  | RemoteServiceJoinsFederatedService nat CoreService
  | RemoteServiceUnexported string string
  | RemoteServiceLeavesFederatedService string string
  | ClusterUnregistered
  | OrphanedServicesGcTriggered
  | OnAddCalled CoreService
  | OnAddEndpointsCalled CoreEndpoints
  | OnUpdateCalled CoreService
  | OnUpdateEndpointsCalled CoreEndpoints
  | OnDeleteCalled CoreService
  | RepairEndpoints
  | OnLocalNamespaceAdded string

text \<open>A merge patch of the status of a link has the fields that are not empty.\<close>

datatype mirror_call =
    CreateService CoreService
  | UpdateService CoreService
  | DeleteService string string
  | CreateEndpoints CoreEndpoints
  | UpdateEndpoints CoreEndpoints
  | DeleteEndpoints string string
  | GetEndpoints string string
  | CreateNamespace string labels
  | GetNamespace string
  | ListServices "(string \<times> string) list"
  | GetLink
  | PatchLinkStatus "ServiceStatus list option" "ServiceStatus list option"
  | LookupIP string
  | RecordEvent string string string
  | QueueAdd mirror_event
  | QueueAddRateLimited mirror_event
  | QueueForget mirror_event
  | QueueDone mirror_event

section \<open>Environment and state\<close>

text \<open>
  \<open>me_write\<close> answers the calls that return an error only, \<open>me_created\<close> is the object that
  comes with the answer to a creation, also to a failed one. The order in which a cache lists
  its objects is that of \<open>me_keys\<close>.
\<close>

record mirror_env =
  me_write :: "mirror_call list \<Rightarrow> mirror_call \<Rightarrow> kerror option"
  me_created :: "mirror_call list \<Rightarrow> CoreService \<Rightarrow> CoreService"
  me_getEndpoints :: "mirror_call list \<Rightarrow> string \<Rightarrow> string \<Rightarrow> kerror + CoreEndpoints"
  me_listServices :: "mirror_call list \<Rightarrow> (string \<times> string) list \<Rightarrow> kerror + CoreService list"
  me_getLink :: "mirror_call list \<Rightarrow> kerror option \<times> LinkStatus"
  me_lookupIP :: "mirror_call list \<Rightarrow> string \<Rightarrow> string + string list"
  me_now :: "mirror_call list \<Rightarrow> nat"
  me_text :: "kerror \<Rightarrow> string"
  me_selector :: "LabelSelector option \<Rightarrow> api_error + (labels \<Rightarrow> bool)"
  me_keys :: "(string \<times> string) fset \<Rightarrow> (string \<times> string) list"
  me_cacheError :: "string option"
  me_remoteServices :: "(string \<times> string, CoreService) fmap"
  me_remoteEndpoints :: "(string \<times> string, CoreEndpoints) fmap"
  me_remoteError :: "string option"

record RemoteClusterServiceWatcher =
  serviceMirrorNamespace :: string
  link :: Link
  requeueLimit :: nat
  headlessServicesEnabled :: bool
  namespaceCreationEnabled :: bool

record mirror_state =
  m_services :: "(nat, CoreService) fmap"
  m_serviceCache :: "(string \<times> string, nat) fmap"
  m_endpoints :: "(nat, CoreEndpoints) fmap"
  m_endpointsCache :: "(string \<times> string, nat) fmap"
  m_namespaces :: "string fset"
  m_next :: nat
  gatewayAlive :: bool
  m_calls :: "mirror_call list"

type_synonym 'a mirror = "(mirror_state, 'a) state"

abbreviation ret :: "'a \<Rightarrow> 'a mirror" where
  "ret \<equiv> State_Monad.return"

text \<open>A call: it is recorded, and answered from the calls before it.\<close>

definition call :: "(mirror_call list \<Rightarrow> 'a) \<Rightarrow> mirror_call \<Rightarrow> 'a mirror" where
  "call answer c = State (\<lambda>st. (answer (m_calls st), st\<lparr>m_calls := m_calls st @ [c]\<rparr>))"

definition api_write :: "mirror_env \<Rightarrow> mirror_call \<Rightarrow> kerror option mirror" where
  "api_write env c = call (\<lambda>h. me_write env h c) c"

definition queue_add :: "mirror_event \<Rightarrow> unit mirror" where
  "queue_add ev = call (\<lambda>_. ()) (QueueAdd ev)"

definition reads :: "(mirror_state \<Rightarrow> 'a) \<Rightarrow> 'a mirror" where
  "reads f = State (\<lambda>st. (f st, st))"

section \<open>Caches\<close>

text \<open>\<open>Lister().Get\<close> on the caches; an error other than that of an absent object is \<open>me_cacheError\<close>.\<close>

definition cache_get :: "string option \<Rightarrow> (string \<times> string, 'a) fmap \<Rightarrow> string \<Rightarrow> string \<Rightarrow> kerror + 'a" where
  "cache_get err m ns n = (case err of
     Some e \<Rightarrow> Inl (KOther e)
   | None \<Rightarrow> (case fmlookup m (ns, n) of None \<Rightarrow> Inl KNotFound | Some x \<Rightarrow> Inr x))"

definition local_service :: "mirror_env \<Rightarrow> string \<Rightarrow> string \<Rightarrow> (kerror + nat) mirror" where
  "local_service env ns n = reads (\<lambda>st. cache_get (me_cacheError env) (m_serviceCache st) ns n)"

definition local_endpoints :: "mirror_env \<Rightarrow> string \<Rightarrow> string \<Rightarrow> (kerror + nat) mirror" where
  "local_endpoints env ns n = reads (\<lambda>st. cache_get (me_cacheError env) (m_endpointsCache st) ns n)"

definition local_namespace :: "mirror_env \<Rightarrow> string \<Rightarrow> kerror option mirror" where
  "local_namespace env ns = reads (\<lambda>st. case me_cacheError env of
     Some e \<Rightarrow> Some (KOther e)
   | None \<Rightarrow> if ns |\<in>| m_namespaces st then None else Some KNotFound)"

text \<open>An object of a cache, by its address; writing through the pointer.\<close>

definition service_at :: "nat \<Rightarrow> CoreService mirror" where
  "service_at a = reads (\<lambda>st. case fmlookup (m_services st) a of None \<Rightarrow> zero_Service | Some svc \<Rightarrow> svc)"

definition set_service :: "nat \<Rightarrow> CoreService \<Rightarrow> unit mirror" where
  "set_service a svc = State (\<lambda>st. ((), st\<lparr>m_services := fmupd a svc (m_services st)\<rparr>))"

definition zero_Endpoints :: CoreEndpoints where
  "zero_Endpoints = \<lparr>ke_Name = [], ke_Namespace = [], ke_ResourceVersion = [], ke_Labels = fmempty,
     ke_Annotations = fmempty, ke_Subsets = []\<rparr>"

definition endpoints_at :: "nat \<Rightarrow> CoreEndpoints mirror" where
  "endpoints_at a = reads (\<lambda>st. case fmlookup (m_endpoints st) a of None \<Rightarrow> zero_Endpoints | Some ep \<Rightarrow> ep)"

definition set_endpoints :: "nat \<Rightarrow> CoreEndpoints \<Rightarrow> unit mirror" where
  "set_endpoints a ep = State (\<lambda>st. ((), st\<lparr>m_endpoints := fmupd a ep (m_endpoints st)\<rparr>))"

text \<open>\<open>Lister().List\<close> with the selector of a set of labels.\<close>

definition selects :: "(string \<times> string) list \<Rightarrow> labels \<Rightarrow> bool" where
  "selects sel l = list_all (\<lambda>(k, v). fmlookup l k = Some v) sel"

definition list_services :: "mirror_env \<Rightarrow> (string \<times> string) list \<Rightarrow> (kerror + CoreService list) mirror" where
  "list_services env sel = reads (\<lambda>st. case me_cacheError env of
     Some e \<Rightarrow> Inl (KOther e)
   | None \<Rightarrow> Inr (filter (\<lambda>svc. selects sel (k_Labels svc))
       (List.map_filter (\<lambda>key. Option.bind (fmlookup (m_serviceCache st) key) (fmlookup (m_services st)))
          (me_keys env (fmdom (m_serviceCache st))))))"

definition list_endpoints :: "mirror_env \<Rightarrow> (string \<times> string) list \<Rightarrow> (kerror + CoreEndpoints list) mirror" where
  "list_endpoints env sel = reads (\<lambda>st. case me_cacheError env of
     Some e \<Rightarrow> Inl (KOther e)
   | None \<Rightarrow> Inr (filter (\<lambda>ep. selects sel (ke_Labels ep))
       (List.map_filter (\<lambda>key. Option.bind (fmlookup (m_endpointsCache st) key) (fmlookup (m_endpoints st)))
          (me_keys env (fmdom (m_endpointsCache st))))))"

definition remote_service :: "mirror_env \<Rightarrow> string \<Rightarrow> string \<Rightarrow> kerror + CoreService" where
  "remote_service env ns n = cache_get (me_remoteError env) (me_remoteServices env) ns n"

definition remote_endpoints :: "mirror_env \<Rightarrow> string \<Rightarrow> string \<Rightarrow> kerror + CoreEndpoints" where
  "remote_endpoints env ns n = cache_get (me_remoteError env) (me_remoteEndpoints env) ns n"

section \<open>Constants\<close>

abbreviation SvcMirrorPrefix :: string where
  "SvcMirrorPrefix \<equiv> ''mirror.linkerd.io''"

abbreviation MirroredResourceLabel :: string where
  "MirroredResourceLabel \<equiv> ''mirror.linkerd.io/mirrored-service''"

abbreviation MirroredHeadlessSvcNameLabel :: string where
  "MirroredHeadlessSvcNameLabel \<equiv> ''mirror.linkerd.io/headless-mirror-svc-name''"

abbreviation RemoteResourceVersionAnnotation :: string where
  "RemoteResourceVersionAnnotation \<equiv> ''mirror.linkerd.io/remote-resource-version''"

end
