(* ===== verification/Mirror_Objects.thy ===== *)
theory Mirror_Objects
  imports Mirror_Types
begin

text \<open>
  What the service mirror derives from a remote service and its link: names, labels,
  annotations and ports of the local objects, the addresses of the gateway, the status of the
  link (\<open>cluster_watcher.go\<close>).
\<close>

section \<open>Names\<close>

definition mirrorServiceName :: "RemoteClusterServiceWatcher \<Rightarrow> string \<Rightarrow> string" where
  "mirrorServiceName w remoteName = remoteName @ ''-'' @ TargetClusterName (link w)"

definition federatedServiceName :: "string \<Rightarrow> string" where
  "federatedServiceName remoteName = remoteName @ ''-federated''"

text \<open>\<open>strings.TrimSuffix\<close> and \<open>strings.HasPrefix\<close>.\<close>

definition TrimSuffix :: "string \<Rightarrow> string \<Rightarrow> string" where
  "TrimSuffix s suff =
     (if length suff \<le> length s \<and> drop (length s - length suff) s = suff
      then take (length s - length suff) s else s)"

definition HasPrefix :: "string \<Rightarrow> string \<Rightarrow> bool" where
  "HasPrefix s pre \<longleftrightarrow> take (length pre) s = pre"

definition targetResourceName :: "RemoteClusterServiceWatcher \<Rightarrow> string \<Rightarrow> string" where
  "targetResourceName w mirrorName = TrimSuffix mirrorName (''-'' @ TargetClusterName (link w))"

definition originalResourceName :: "RemoteClusterServiceWatcher \<Rightarrow> string \<Rightarrow> string" where
  "originalResourceName w mirroredName = TrimSuffix mirroredName (''-'' @ TargetClusterName (link w))"

definition service_fqdn :: "RemoteClusterServiceWatcher \<Rightarrow> CoreService \<Rightarrow> string" where
  "service_fqdn w svc = k_Name svc @ ''.'' @ k_Namespace svc @ ''.svc.'' @ TargetClusterDomain (link w)"

section \<open>Selectors\<close>

definition link_selects :: "mirror_env \<Rightarrow> LabelSelector option \<Rightarrow> labels \<Rightarrow> bool" where
  "link_selects env sel l = (case sel of
     None \<Rightarrow> False
   | Some s \<Rightarrow>
       if length (MatchExpressions s) + fm_size (MatchLabels s) = 0 then False
       else (case me_selector env (Some s) of Inl _ \<Rightarrow> False | Inr matches \<Rightarrow> matches l))"

definition isExported :: "mirror_env \<Rightarrow> RemoteClusterServiceWatcher \<Rightarrow> labels \<Rightarrow> bool" where
  "isExported env w l = link_selects env (Selector (link w)) l"

definition isRemoteDiscovery :: "mirror_env \<Rightarrow> RemoteClusterServiceWatcher \<Rightarrow> labels \<Rightarrow> bool" where
  "isRemoteDiscovery env w l = link_selects env (RemoteDiscoverySelector (link w)) l"

definition isFederatedServiceMember :: "mirror_env \<Rightarrow> RemoteClusterServiceWatcher \<Rightarrow> labels \<Rightarrow> bool" where
  "isFederatedServiceMember env w l = link_selects env (FederatedServiceSelector (link w)) l"

section \<open>Labels and annotations\<close>

definition getCommonServiceLabels :: "CoreService \<Rightarrow> labels" where
  "getCommonServiceLabels remoteService =
     fmadd (fmupd MirroredResourceLabel ''true'' fmempty)
       (fmfilter (\<lambda>key. \<not> HasPrefix key SvcMirrorPrefix) (k_Labels remoteService))"

definition getMirrorServiceLabels :: "mirror_env \<Rightarrow> RemoteClusterServiceWatcher \<Rightarrow> CoreService \<Rightarrow> labels" where
  "getMirrorServiceLabels env w remoteService =
     (let l = fmupd RemoteClusterNameLabel (TargetClusterName (link w)) (getCommonServiceLabels remoteService)
      in if isRemoteDiscovery env w (k_Labels remoteService)
         then fmupd RemoteServiceLabel (k_Name remoteService)
           (fmupd RemoteDiscoveryLabel (TargetClusterName (link w)) l)
         else l)"

definition getMirrorEndpointLabels :: "RemoteClusterServiceWatcher \<Rightarrow> CoreService \<Rightarrow> labels" where
  "getMirrorEndpointLabels w exportedService =
     fmupd RemoteClusterNameLabel (TargetClusterName (link w)) (getCommonServiceLabels exportedService)"

definition getFederatedServiceLabels :: "CoreService \<Rightarrow> labels" where
  "getFederatedServiceLabels remoteService = getCommonServiceLabels remoteService"

definition getCommonServiceAnnotations :: "CoreService \<Rightarrow> labels" where
  "getCommonServiceAnnotations remoteService =
     (let annotations = fmfilter (\<lambda>key. \<not> (key = ''service.kubernetes.io/topology-aware-hints'' \<or>
            key = ''service.kubernetes.io/topology-mode'')) (annotations_of remoteService)
      in case fmlookup (annotations_of remoteService) ProxyOpaquePortsAnnotation of
           Some v \<Rightarrow> fmupd ProxyOpaquePortsAnnotation v annotations
         | None \<Rightarrow> annotations)"

definition getMirrorServiceAnnotations :: "RemoteClusterServiceWatcher \<Rightarrow> CoreService \<Rightarrow> labels" where
  "getMirrorServiceAnnotations w remoteService =
     fmupd RemoteResourceVersionAnnotation (k_ResourceVersion remoteService)
       (fmupd RemoteServiceFqName (service_fqdn w remoteService) (getCommonServiceAnnotations remoteService))"

definition remote_target :: "RemoteClusterServiceWatcher \<Rightarrow> string \<Rightarrow> string" where
  "remote_target w n = n @ ''@'' @ TargetClusterName (link w)"

definition getFederatedServiceAnnotations :: "RemoteClusterServiceWatcher \<Rightarrow> CoreService \<Rightarrow> labels" where
  "getFederatedServiceAnnotations w remoteService =
     (if TargetClusterName (link w) = []
      then fmupd LocalDiscoveryAnnotation (k_Name remoteService) (getCommonServiceAnnotations remoteService)
      else fmupd RemoteDiscoveryAnnotation (remote_target w (k_Name remoteService))
        (getCommonServiceAnnotations remoteService))"

definition remoteDiscoveryContains :: "string \<Rightarrow> string \<Rightarrow> bool" where
  "remoteDiscoveryContains remoteDiscoveryList remoteTarget \<longleftrightarrow>
     remoteTarget \<in> set (split_on (CHR '','') remoteDiscoveryList)"

section \<open>Ports\<close>

text \<open>\<open>strconv.ParseInt(s, 10, 32)\<close> with the text of its errors, for printable arguments.\<close>

definition num_error :: "string \<Rightarrow> string \<Rightarrow> string" where
  "num_error s reason = ''strconv.ParseInt: parsing '' @ [CHR 0x22] @ s @ [CHR 0x22] @ '': '' @ reason"

definition parse_int32 :: "string \<Rightarrow> string + int" where
  "parse_int32 s = (case split_sign s of (neg, ds) \<Rightarrow>
     if ds = [] \<or> \<not> list_all is_digit ds then Inl (num_error s ''invalid syntax'')
     else let v = (if neg then - int (digits_val ds) else int (digits_val ds)) in
       if - (2 ^ 31) \<le> v \<and> v < 2 ^ 31 then Inr v else Inl (num_error s ''value out of range''))"

definition getEndpointsPorts :: "RemoteClusterServiceWatcher \<Rightarrow> CoreService \<Rightarrow> mirror_error + CoreEndpointPort list" where
  "getEndpointsPorts w service = (case parse_int32 (GatewayPort (link w)) of
     Inl e \<Rightarrow> Inl (PlainError e)
   | Inr gatewayPort \<Rightarrow> Inr (map (\<lambda>p. \<lparr>kep_Name = kp_Name p, kep_Protocol = kp_Protocol p,
       kep_Port = word_of_int gatewayPort\<rparr>) (k_Ports service)))"

definition remapRemoteServicePorts :: "CorePort list \<Rightarrow> CorePort list" where
  "remapRemoteServicePorts ports = map (\<lambda>p. \<lparr>kp_Name = kp_Name p, kp_Protocol = kp_Protocol p,
     kp_AppProtocol = None, kp_Port = kp_Port p, kp_TargetPort = kp_TargetPort p, kp_NodePort = 0\<rparr>) ports"

section \<open>Endpoints\<close>

definition isEmptyEndpoints :: "CoreEndpoints \<Rightarrow> bool" where
  "isEmptyEndpoints ep \<longleftrightarrow> list_all (\<lambda>s. ks_Addresses s = []) (ke_Subsets ep)"

definition isEmptyService :: "mirror_env \<Rightarrow> CoreService \<Rightarrow> kerror + bool" where
  "isEmptyService env svc = (case remote_endpoints env (k_Namespace svc) (k_Name svc) of
     Inl KNotFound \<Rightarrow> Inr True
   | Inl e \<Rightarrow> Inl e
   | Inr ep \<Rightarrow> Inr (isEmptyEndpoints ep))"

definition isHeadlessEndpoints :: "CoreEndpoints \<Rightarrow> bool" where
  "isHeadlessEndpoints ep \<longleftrightarrow> IsHeadlessService |\<in>| fmdom (ke_Labels ep)"

definition shouldExportAsHeadlessService :: "CoreEndpoints \<Rightarrow> bool" where
  "shouldExportAsHeadlessService endpoints \<longleftrightarrow>
     list_ex (\<lambda>s. list_ex (\<lambda>a. ea_Hostname a \<noteq> []) (ks_Addresses s) \<or>
       list_ex (\<lambda>a. ea_Hostname a \<noteq> []) (ks_NotReadyAddresses s)) (ke_Subsets endpoints)"

definition updateReadiness :: "bool \<Rightarrow> CoreEndpoints \<Rightarrow> CoreEndpoints" where
  "updateReadiness alive ep =
     (if alive then ep
      else ep\<lparr>ke_Subsets := map (\<lambda>s. s\<lparr>ks_NotReadyAddresses := ks_NotReadyAddresses s @ ks_Addresses s,
        ks_Addresses := []\<rparr>) (ke_Subsets ep)\<rparr>)"

section \<open>The gateway\<close>

fun resolve_all :: "mirror_env \<Rightarrow> string list \<Rightarrow> (EndpointAddress list \<times> string list) mirror" where
  "resolve_all env [] = ret ([], [])"
| "resolve_all env (addr # addrs) = do {
     r \<leftarrow> call (\<lambda>h. me_lookupIP env h addr) (LookupIP addr);
     (ips, errs) \<leftarrow> resolve_all env addrs;
     ret (case r of
       Inl e \<Rightarrow> (ips, (''Error resolving '' @ [CHR 0x27] @ addr @ [CHR 0x27] @ '': '' @ e) # errs)
     | Inr ipAddrs \<Rightarrow> (map (\<lambda>ip. \<lparr>ea_IP = ip, ea_Hostname = [], ea_TargetRef = None\<rparr>) ipAddrs @ ips, errs))
   }"

definition resolveGatewayAddress :: "mirror_env \<Rightarrow> RemoteClusterServiceWatcher \<Rightarrow> (mirror_error + EndpointAddress list) mirror" where
  "resolveGatewayAddress env w = do {
     (gatewayEndpoints, errors) \<leftarrow> resolve_all env (split_on (CHR '','') (GatewayAddress (link w)));
     ret (if gatewayEndpoints = [] then Inl (RetryableError errors) else Inr (sort_key ea_IP gatewayEndpoints))
   }"

section \<open>The status of the link\<close>

abbreviation zero_ObjectRef :: ObjectRef where
  "zero_ObjectRef \<equiv> \<lparr>obj_Group = [], obj_Kind = [], obj_Name = [], obj_Namespace = []\<rparr>"

definition mirrorStatusCondition :: "nat \<Rightarrow> bool \<Rightarrow> string \<Rightarrow> string \<Rightarrow> CoreService option \<Rightarrow> LinkCondition" where
  "mirrorStatusCondition now success reason message localRef =
     \<lparr>lc_Type = ''Mirrored'', lc_Status = (if success then ''True'' else ''False''), lc_LastTransitionTime = now,
      lc_Reason = reason, lc_Message = message,
      lc_LocalRef = (case localRef of
        None \<Rightarrow> zero_ObjectRef
      | Some svc \<Rightarrow> \<lparr>obj_Group = [], obj_Kind = ''Service'', obj_Name = k_Name svc, obj_Namespace = k_Namespace svc\<rparr>)\<rparr>"

abbreviation status_of :: "string \<Rightarrow> string \<Rightarrow> ServiceStatus \<Rightarrow> bool" where
  "status_of n ns s \<equiv> obj_Name (ss_RemoteRef s) = n \<and> obj_Namespace (ss_RemoteRef s) = ns"

definition updateServiceStatus ::
  "string \<Rightarrow> string \<Rightarrow> LinkCondition \<Rightarrow> ServiceStatus list \<Rightarrow> ServiceStatus list" where
  "updateServiceStatus remoteName namespace condition statuses =
     (if list_ex (status_of remoteName namespace) statuses
      then map (\<lambda>s. if status_of remoteName namespace s then s\<lparr>ss_Conditions := [condition]\<rparr> else s) statuses
      else statuses @ [\<lparr>ss_Conditions = [condition], ss_ControllerName = ''linkerd.io/service-mirror'',
        ss_RemoteRef = \<lparr>obj_Group = [], obj_Kind = ''Service'', obj_Name = remoteName, obj_Namespace = namespace\<rparr>\<rparr>])"

definition deleteServiceStatus :: "string \<Rightarrow> string \<Rightarrow> ServiceStatus list \<Rightarrow> ServiceStatus list" where
  "deleteServiceStatus remoteName namespace statuses = filter (\<lambda>s. \<not> status_of remoteName namespace s) statuses"

text \<open>The fields of a status are left out of its JSON form when they are empty.\<close>

definition omitempty :: "'a list \<Rightarrow> 'a list option" where
  "omitempty xs = (if xs = [] then None else Some xs)"

definition patchLinkStatus :: "mirror_env \<Rightarrow> LinkStatus \<Rightarrow> unit mirror" where
  "patchLinkStatus env status = do {
     _ \<leftarrow> api_write env (PatchLinkStatus (omitempty (MirrorServices status)) (omitempty (FederatedServices status)));
     ret ()
   }"

definition updateLinkMirrorStatus ::
  "mirror_env \<Rightarrow> RemoteClusterServiceWatcher \<Rightarrow> string \<Rightarrow> string \<Rightarrow> LinkCondition \<Rightarrow> unit mirror" where
  "updateLinkMirrorStatus env w remoteName namespace condition =
     (if TargetClusterName (link w) = [] then ret ()
      else do {
        (_, status) \<leftarrow> call (me_getLink env) GetLink;
        patchLinkStatus env
          (status\<lparr>MirrorServices := updateServiceStatus remoteName namespace condition (MirrorServices status)\<rparr>)
      })"

definition updateLinkFederatedStatus ::
  "mirror_env \<Rightarrow> RemoteClusterServiceWatcher \<Rightarrow> string \<Rightarrow> string \<Rightarrow> LinkCondition \<Rightarrow> unit mirror" where
  "updateLinkFederatedStatus env w remoteName namespace condition =
     (if TargetClusterName (link w) = [] then ret ()
      else do {
        (_, status) \<leftarrow> call (me_getLink env) GetLink;
        patchLinkStatus env
          (status\<lparr>FederatedServices := updateServiceStatus remoteName namespace condition (FederatedServices status)\<rparr>)
      })"

definition deleteLinkMirrorStatus ::
  "mirror_env \<Rightarrow> RemoteClusterServiceWatcher \<Rightarrow> string \<Rightarrow> string \<Rightarrow> unit mirror" where
  "deleteLinkMirrorStatus env w remoteName namespace =
     (if TargetClusterName (link w) = [] then ret ()
      else do {
        (_, status) \<leftarrow> call (me_getLink env) GetLink;
        patchLinkStatus env (status\<lparr>MirrorServices := deleteServiceStatus remoteName namespace (MirrorServices status)\<rparr>)
      })"

definition deleteLinkFederatedStatus ::
  "mirror_env \<Rightarrow> RemoteClusterServiceWatcher \<Rightarrow> string \<Rightarrow> string \<Rightarrow> unit mirror" where
  "deleteLinkFederatedStatus env w remoteName namespace =
     (if TargetClusterName (link w) = [] then ret ()
      else do {
        (_, status) \<leftarrow> call (me_getLink env) GetLink;
        patchLinkStatus env
          (status\<lparr>FederatedServices := deleteServiceStatus remoteName namespace (FederatedServices status)\<rparr>)
      })"

text \<open>A condition, stamped with the current time, put into the status of a remote service.\<close>

definition mirror_status ::
  "mirror_env \<Rightarrow> RemoteClusterServiceWatcher \<Rightarrow> CoreService \<Rightarrow> bool \<Rightarrow> string \<Rightarrow> string \<Rightarrow> CoreService option \<Rightarrow> unit mirror" where
  "mirror_status env w remote success reason message localRef = do {
     now \<leftarrow> reads (\<lambda>st. me_now env (m_calls st));
     updateLinkMirrorStatus env w (k_Name remote) (k_Namespace remote)
       (mirrorStatusCondition now success reason message localRef)
   }"

definition federated_status ::
  "mirror_env \<Rightarrow> RemoteClusterServiceWatcher \<Rightarrow> CoreService \<Rightarrow> bool \<Rightarrow> string \<Rightarrow> string \<Rightarrow> CoreService option \<Rightarrow> unit mirror" where
  "federated_status env w remote success reason message localRef = do {
     now \<leftarrow> reads (\<lambda>st. me_now env (m_calls st));
     updateLinkFederatedStatus env w (k_Name remote) (k_Namespace remote)
       (mirrorStatusCondition now success reason message localRef)
   }"

end
