(* ===== verification/Mirror_Handlers.thy ===== *)
theory Mirror_Handlers
  imports Mirror_Objects
begin

text \<open>
  The handlers of the service mirror for plain services, gateway endpoints and federated
  services, and its clean-ups (\<open>cluster_watcher.go\<close>).
\<close>

section \<open>Shared steps\<close>

text \<open>The labels by which the clean-ups select what the watcher of a cluster made.\<close>

definition cluster_labels :: "RemoteClusterServiceWatcher \<Rightarrow> (string \<times> string) list" where
  "cluster_labels w = [(MirroredResourceLabel, ''true''), (RemoteClusterNameLabel, TargetClusterName (link w))]"

definition mirrorNamespaceIfNecessary ::
  "mirror_env \<Rightarrow> RemoteClusterServiceWatcher \<Rightarrow> string \<Rightarrow> mirror_error option mirror" where
  "mirrorNamespaceIfNecessary env w namespace = do {
     r \<leftarrow> local_namespace env namespace;
     case r of
       None \<Rightarrow> ret None
     | Some KNotFound \<Rightarrow> do {
         e \<leftarrow> api_write env (CreateNamespace namespace
           (fmupd RemoteClusterNameLabel (TargetClusterName (link w)) (fmupd MirroredResourceLabel ''true'' fmempty)));
         ret (map_option (\<lambda>e. RetryableError [me_text env e]) e)
       }
     | Some e \<Rightarrow> ret (Some (RetryableError [me_text env e]))
   }"

text \<open>
  The check of the namespace before a local service is created: \<open>None\<close> to go on, otherwise
  what the handler returns. \<open>status\<close> reports a condition for the remote service.
\<close>

definition ensure_namespace ::
  "mirror_env \<Rightarrow> RemoteClusterServiceWatcher \<Rightarrow> (string \<Rightarrow> string \<Rightarrow> unit mirror) \<Rightarrow> CoreService \<Rightarrow> mirror_result option mirror" where
  "ensure_namespace env w status remoteService =
     (if namespaceCreationEnabled w
      then do {
        e \<leftarrow> mirrorNamespaceIfNecessary env w (k_Namespace remoteService);
        case e of
          None \<Rightarrow> ret None
        | Some err \<Rightarrow> do {
            status ''Error'' (''Failed to create namespace: '' @ error_string err);
            ret (Some (Failed err))
          }
      }
      else do {
        e \<leftarrow> api_write env (GetNamespace (k_Namespace remoteService));
        case e of
          None \<Rightarrow> ret None
        | Some KNotFound \<Rightarrow> do {
            call (\<lambda>_. ()) (RecordEvent (k_Namespace remoteService) (k_Name remoteService)
              ''Skipped mirroring service: namespace does not exist'');
            status ''MissingNamespace'' ''Namespace does not exist'';
            ret (Some Done)
          }
        | Some err \<Rightarrow> do {
            status ''Error'' (''Failed get namespace: '' @ me_text env err);
            ret (Some (Failed (RetryableError [me_text env err])))
          }
      })"

definition create_service :: "mirror_env \<Rightarrow> CoreService \<Rightarrow> (kerror option \<times> CoreService) mirror" where
  "create_service env svc = call (\<lambda>h. (me_write env h (CreateService svc), me_created env h svc)) (CreateService svc)"

section \<open>Endpoints\<close>

definition endpoints_error :: "mirror_env \<Rightarrow> string \<Rightarrow> CoreEndpoints \<Rightarrow> kerror option \<Rightarrow> mirror_error option" where
  "endpoints_error env what ep e = map_option (\<lambda>e. PlainError (''failed to '' @ what @ '' mirror endpoints for '' @
     ke_Namespace ep @ ''/'' @ ke_Name ep @ '': '' @ me_text env e)) e"

definition createMirrorEndpoints :: "mirror_env \<Rightarrow> CoreEndpoints \<Rightarrow> mirror_error option mirror" where
  "createMirrorEndpoints env endpoints = do {
     alive \<leftarrow> reads gatewayAlive;
     e \<leftarrow> api_write env (CreateEndpoints (updateReadiness alive endpoints));
     ret (endpoints_error env ''create'' endpoints e)
   }"

definition updateMirrorEndpoints :: "mirror_env \<Rightarrow> CoreEndpoints \<Rightarrow> mirror_error option mirror" where
  "updateMirrorEndpoints env endpoints = do {
     alive \<leftarrow> reads gatewayAlive;
     e \<leftarrow> api_write env (UpdateEndpoints (updateReadiness alive endpoints));
     ret (endpoints_error env ''update'' endpoints e)
   }"

definition gateway_annotations :: "RemoteClusterServiceWatcher \<Rightarrow> string \<Rightarrow> labels" where
  "gateway_annotations w fqdn =
     (let a = fmupd RemoteServiceFqName fqdn fmempty
      in if GatewayIdentity (link w) \<noteq> [] then fmupd RemoteGatewayIdentity (GatewayIdentity (link w)) a else a)"

definition gateway_subsets :: "bool \<Rightarrow> EndpointAddress list \<Rightarrow> CoreEndpointPort list \<Rightarrow> CoreSubset list" where
  "gateway_subsets isEmpty gatewayAddresses ports =
     (if \<not> isEmpty \<and> gatewayAddresses \<noteq> []
      then [\<lparr>ks_Addresses = gatewayAddresses, ks_NotReadyAddresses = [], ks_Ports = ports\<rparr>]
      else if \<not> isEmpty
      then [\<lparr>ks_Addresses = [], ks_NotReadyAddresses = gatewayAddresses, ks_Ports = ports\<rparr>]
      else [])"

definition createGatewayEndpoints ::
  "mirror_env \<Rightarrow> RemoteClusterServiceWatcher \<Rightarrow> CoreService \<Rightarrow> mirror_error option mirror" where
  "createGatewayEndpoints env w exportedService = (case isEmptyService env exportedService of
     Inl e \<Rightarrow> ret (Some (RetryableError [me_text env e]))
   | Inr isEmpty \<Rightarrow> do {
       g \<leftarrow> resolveGatewayAddress env w;
       case g of
         Inl err \<Rightarrow> ret (Some err)
       | Inr gatewayAddresses \<Rightarrow> (case getEndpointsPorts w exportedService of
           Inl err \<Rightarrow> ret (Some err)
         | Inr ports \<Rightarrow> do {
             e \<leftarrow> createMirrorEndpoints env
               \<lparr>ke_Name = mirrorServiceName w (k_Name exportedService), ke_Namespace = k_Namespace exportedService,
                ke_ResourceVersion = [], ke_Labels = getMirrorEndpointLabels w exportedService,
                ke_Annotations = gateway_annotations w (service_fqdn w exportedService),
                ke_Subsets = gateway_subsets isEmpty gatewayAddresses ports\<rparr>;
             case e of
               None \<Rightarrow> ret None
             | Some err \<Rightarrow> do {
                 _ \<leftarrow> api_write env (DeleteService (k_Namespace exportedService) (mirrorServiceName w (k_Name exportedService)));
                 ret (Some (RetryableError [error_string err]))
               }
           })
     })"

section \<open>Mirror services\<close>

definition mirror_service :: "mirror_env \<Rightarrow> RemoteClusterServiceWatcher \<Rightarrow> CoreService \<Rightarrow> CoreService" where
  "mirror_service env w remoteService = zero_Service
     \<lparr>k_Name := mirrorServiceName w (k_Name remoteService), k_Namespace := k_Namespace remoteService,
      k_Annotations := Some (getMirrorServiceAnnotations w remoteService),
      k_Labels := getMirrorServiceLabels env w remoteService,
      k_Ports := remapRemoteServicePorts (k_Ports remoteService)\<rparr>"

definition handleRemoteServiceExported ::
  "mirror_env \<Rightarrow> RemoteClusterServiceWatcher \<Rightarrow> CoreService \<Rightarrow> mirror_result mirror" where
  "handleRemoteServiceExported env w remoteService =
     (if headlessServicesEnabled w \<and> k_ClusterIP remoteService = ClusterIPNone
      then do {
        mirror_status env w remoteService False ''InvalidService'' ''Headless mirror services are disabled'' None;
        ret Done
      }
      else do {
        stop \<leftarrow> ensure_namespace env w (\<lambda>reason msg. mirror_status env w remoteService False reason msg None) remoteService;
        case stop of
          Some r \<Rightarrow> ret r
        | None \<Rightarrow> do {
            (e, _) \<leftarrow> create_service env (mirror_service env w remoteService);
            if e \<noteq> None \<and> e \<noteq> Some KAlreadyExists
            then do {
              mirror_status env w remoteService False ''Error''
                (''Failed to create mirror service: '' @ me_text env (the e)) None;
              ret (Failed (RetryableError [me_text env (the e)]))
            }
            else if isRemoteDiscovery env w (k_Labels remoteService)
            then do {
              mirror_status env w remoteService True ''Mirrored'' [] (Some (mirror_service env w remoteService));
              ret Done
            }
            else do {
              e \<leftarrow> createGatewayEndpoints env w remoteService;
              case e of
                Some err \<Rightarrow> do {
                  mirror_status env w remoteService False ''Error''
                    (''Failed to create mirror endpoints: '' @ error_string err) None;
                  ret (Failed err)
                }
              | None \<Rightarrow> do {
                  mirror_status env w remoteService True ''Mirrored'' [] (Some (mirror_service env w remoteService));
                  ret Done
                }
            }
          }
      })"

text \<open>The first part of an update: the endpoints of the mirror service; \<open>None\<close> to go on.\<close>

definition update_endpoints ::
  "mirror_env \<Rightarrow> RemoteClusterServiceWatcher \<Rightarrow> CoreService \<Rightarrow> nat option \<Rightarrow> CoreService \<Rightarrow> mirror_error option mirror" where
  "update_endpoints env w localService localEndpoints remoteUpdate =
     (if isRemoteDiscovery env w (k_Labels remoteUpdate)
      then (case localEndpoints of
          None \<Rightarrow> ret None
        | Some _ \<Rightarrow> do {
            e \<leftarrow> api_write env (DeleteEndpoints (k_Namespace localService) (k_Name localService));
            case e of
              None \<Rightarrow> ret None
            | Some err \<Rightarrow> do {
                mirror_status env w remoteUpdate False ''Error'' (''Failed to delete mirror endpoints: '' @ me_text env err) None;
                ret (Some (RetryableError [''failed to delete mirror endpoints for '' @ k_Namespace localService @ ''/'' @
                  k_Name localService @ '': '' @ me_text env err]))
              }
          })
      else (case localEndpoints of
          None \<Rightarrow> do {
            e \<leftarrow> createGatewayEndpoints env w remoteUpdate;
            case e of
              None \<Rightarrow> ret None
            | Some err \<Rightarrow> do {
                mirror_status env w remoteUpdate False ''Error'' (''Failed to create mirror endpoints: '' @ error_string err) None;
                ret (Some err)
              }
          }
        | Some a \<Rightarrow> do {
            g \<leftarrow> resolveGatewayAddress env w;
            case g of
              Inl err \<Rightarrow> do {
                mirror_status env w remoteUpdate False ''Error'' (''Failed to get gateway address: '' @ error_string err) None;
                ret (Some err)
              }
            | Inr gatewayAddresses \<Rightarrow> do {
                ep \<leftarrow> endpoints_at a;
                case getEndpointsPorts w remoteUpdate of
                  Inl err \<Rightarrow> ret (Some err)
                | Inr ports \<Rightarrow> do {
                    e \<leftarrow> updateMirrorEndpoints env (ep\<lparr>
                      ke_Subsets := [\<lparr>ks_Addresses = gatewayAddresses, ks_NotReadyAddresses = [], ks_Ports = ports\<rparr>],
                      ke_Annotations := fmupd RemoteGatewayIdentity (GatewayIdentity (link w)) (ke_Annotations ep)\<rparr>);
                    case e of
                      None \<Rightarrow> ret None
                    | Some err \<Rightarrow> do {
                        mirror_status env w remoteUpdate False ''Error''
                          (''Failed to update mirror endpoints: '' @ error_string err) None;
                        ret (Some (RetryableError [error_string err]))
                      }
                  }
              }
          }))"

definition handleRemoteExportedServiceUpdated ::
  "mirror_env \<Rightarrow> RemoteClusterServiceWatcher \<Rightarrow> nat \<Rightarrow> nat option \<Rightarrow> CoreService \<Rightarrow> mirror_result mirror" where
  "handleRemoteExportedServiceUpdated env w localService localEndpoints remoteUpdate = do {
     svc \<leftarrow> service_at localService;
     e \<leftarrow> update_endpoints env w svc localEndpoints remoteUpdate;
     case e of
       Some err \<Rightarrow> ret (Failed err)
     | None \<Rightarrow> do {
         svc' \<leftarrow> ret (svc\<lparr>k_Labels := getMirrorServiceLabels env w remoteUpdate,
           k_Annotations := Some (getMirrorServiceAnnotations w remoteUpdate),
           k_Ports := remapRemoteServicePorts (k_Ports remoteUpdate)\<rparr>);
         set_service localService svc';
         e \<leftarrow> api_write env (UpdateService svc');
         case e of
           Some err \<Rightarrow> do {
             mirror_status env w remoteUpdate False ''Error'' (''Failed to update mirror service: '' @ me_text env err) None;
             ret (Failed (RetryableError [me_text env err]))
           }
         | None \<Rightarrow> do {
             mirror_status env w remoteUpdate True ''Mirrored'' [] (Some svc');
             ret Done
           }
       }
   }"

text \<open>Deletions of a list of services; \<open>describe\<close> words the errors, absent services are no error.\<close>

fun delete_services :: "mirror_env \<Rightarrow> (CoreService \<Rightarrow> string) \<Rightarrow> CoreService list \<Rightarrow> string list mirror" where
  "delete_services env describe [] = ret []"
| "delete_services env describe (svc # svcs) = do {
     e \<leftarrow> api_write env (DeleteService (k_Namespace svc) (k_Name svc));
     errs \<leftarrow> delete_services env describe svcs;
     ret (case e of None \<Rightarrow> errs | Some KNotFound \<Rightarrow> errs | Some err \<Rightarrow> (describe svc @ me_text env err) # errs)
   }"

abbreviation retry_if :: "string list \<Rightarrow> mirror_result" where
  "retry_if errs \<equiv> (if errs \<noteq> [] then Failed (RetryableError errs) else Done)"

definition endpoint_mirrors_deleted :: "mirror_env \<Rightarrow> string \<Rightarrow> string \<Rightarrow> string list mirror" where
  "endpoint_mirrors_deleted env namespace localServiceName = do {
     l \<leftarrow> list_services env [(MirroredHeadlessSvcNameLabel, localServiceName)];
     case l of
       Inl KNotFound \<Rightarrow> ret []
     | Inl err \<Rightarrow> ret [''could not fetch endpoint mirrors for mirror service '' @ namespace @ ''/'' @ localServiceName @
         '': '' @ me_text env err]
     | Inr svcs \<Rightarrow> delete_services env
         (\<lambda>svc. ''could not delete endpoint mirror '' @ k_Namespace svc @ ''/'' @ k_Name svc @ '': '') svcs
   }"

definition handleRemoteServiceUnexported ::
  "mirror_env \<Rightarrow> RemoteClusterServiceWatcher \<Rightarrow> string \<Rightarrow> string \<Rightarrow> mirror_result mirror" where
  "handleRemoteServiceUnexported env w name namespace = do {
     deleteLinkMirrorStatus env w name namespace;
     localServiceName \<leftarrow> ret (mirrorServiceName w name);
     r \<leftarrow> local_service env namespace localServiceName;
     case r of
       Inl KNotFound \<Rightarrow> ret Done
     | Inl _ \<Rightarrow> ret Panicked
     | Inr a \<Rightarrow> do {
         localService \<leftarrow> service_at a;
         errs \<leftarrow> (if k_ClusterIP localService = ClusterIPNone
                 then endpoint_mirrors_deleted env namespace localServiceName else ret []);
         e \<leftarrow> api_write env (DeleteService namespace localServiceName);
         ret (retry_if (errs @ (case e of
           None \<Rightarrow> []
         | Some KNotFound \<Rightarrow> []
         | Some err \<Rightarrow> [''could not delete service: '' @ namespace @ ''/'' @ localServiceName @ '': '' @ me_text env err])))
       }
   }"

section \<open>Federated services\<close>

definition federated_service :: "RemoteClusterServiceWatcher \<Rightarrow> CoreService \<Rightarrow> CoreService" where
  "federated_service w remoteService = zero_Service
     \<lparr>k_Name := federatedServiceName (k_Name remoteService), k_Namespace := k_Namespace remoteService,
      k_Annotations := Some (getFederatedServiceAnnotations w remoteService),
      k_Labels := getFederatedServiceLabels remoteService,
      k_Ports := remapRemoteServicePorts (k_Ports remoteService)\<rparr>"

definition handleCreateFederatedService ::
  "mirror_env \<Rightarrow> RemoteClusterServiceWatcher \<Rightarrow> CoreService \<Rightarrow> mirror_result mirror" where
  "handleCreateFederatedService env w remoteService =
     (if k_ClusterIP remoteService = ClusterIPNone
      then do {
        federated_status env w remoteService False ''InvalidService'' ''Headless service cannot join federated service'' None;
        ret (Failed (PlainError (''headless service '' @ k_Namespace remoteService @ ''/'' @ k_Name remoteService @
          '' cannot join federated service'')))
      }
      else do {
        stop \<leftarrow> ensure_namespace env w (\<lambda>reason msg. federated_status env w remoteService False reason msg None) remoteService;
        case stop of
          Some r \<Rightarrow> ret r
        | None \<Rightarrow> do {
            (e, _) \<leftarrow> create_service env (federated_service w remoteService);
            if e = None \<or> e = Some KAlreadyExists
            then do {
              federated_status env w remoteService True ''Mirrored'' [] (Some (federated_service w remoteService));
              ret Done
            }
            else do {
              federated_status env w remoteService False ''Error''
                (''Failed to create federated service: '' @ me_text env (the e)) None;
              ret (Failed (RetryableError [me_text env (the e)]))
            }
          }
      })"

text \<open>
  The annotations of a federated service after a join: \<open>None\<close> when the remote service is a
  member already.
\<close>

definition join_annotations :: "RemoteClusterServiceWatcher \<Rightarrow> string \<Rightarrow> labels \<Rightarrow> labels option" where
  "join_annotations w remoteName annotations =
     (if TargetClusterName (link w) = [] then Some (fmupd LocalDiscoveryAnnotation remoteName annotations)
      else
        let remoteTarget = remote_target w remoteName; remotes = fm_str annotations RemoteDiscoveryAnnotation
        in if remoteDiscoveryContains remotes remoteTarget then None
           else Some (fmupd RemoteDiscoveryAnnotation
             (if remotes = [] then remoteTarget else remotes @ '','' @ remoteTarget) annotations))"

definition handleFederatedServiceJoin ::
  "mirror_env \<Rightarrow> RemoteClusterServiceWatcher \<Rightarrow> nat \<Rightarrow> CoreService \<Rightarrow> mirror_result mirror" where
  "handleFederatedServiceJoin env w localService remoteUpdate =
     (if k_ClusterIP remoteUpdate = ClusterIPNone
      then do {
        federated_status env w remoteUpdate False ''InvalidService'' ''Headless service cannot join federated service'' None;
        ret (Failed (PlainError (''headless service '' @ k_Namespace remoteUpdate @ ''/'' @ k_Name remoteUpdate @
          '' cannot join federated service'')))
      }
      else do {
        svc \<leftarrow> service_at localService;
        case join_annotations w (k_Name remoteUpdate) (annotations_of svc) of
          None \<Rightarrow> ret Done
        | Some annotations \<Rightarrow>
            if k_Annotations svc = None then ret Panicked
            else do {
              svc' \<leftarrow> ret (svc\<lparr>k_Annotations := Some annotations\<rparr>);
              set_service localService svc';
              e \<leftarrow> api_write env (UpdateService svc');
              case e of
                Some err \<Rightarrow> do {
                  federated_status env w remoteUpdate False ''Error'' (''Failed to update federated service: '' @ me_text env err) None;
                  ret (Failed (RetryableError [me_text env err]))
                }
              | None \<Rightarrow> do {
                  federated_status env w remoteUpdate True ''Mirrored'' [] (Some svc');
                  ret Done
                }
            }
      })"

text \<open>The annotations after a leave: \<open>None\<close> when the remote service is no member.\<close>

definition leave_annotations :: "RemoteClusterServiceWatcher \<Rightarrow> string \<Rightarrow> labels \<Rightarrow> labels option" where
  "leave_annotations w remoteName annotations =
     (if TargetClusterName (link w) = [] then Some (fmdrop LocalDiscoveryAnnotation annotations)
      else
        let remoteTarget = remote_target w remoteName; remotes = fm_str annotations RemoteDiscoveryAnnotation
        in if \<not> remoteDiscoveryContains remotes remoteTarget then None
           else Some (fmupd RemoteDiscoveryAnnotation
             (join_with '','' (filter (\<lambda>member. member \<noteq> remoteTarget) (split_on (CHR '','') remotes))) annotations))"

definition handleFederatedServiceLeave ::
  "mirror_env \<Rightarrow> RemoteClusterServiceWatcher \<Rightarrow> string \<Rightarrow> string \<Rightarrow> mirror_result mirror" where
  "handleFederatedServiceLeave env w name namespace = do {
     deleteLinkFederatedStatus env w name namespace;
     localServiceName \<leftarrow> ret (federatedServiceName name);
     r \<leftarrow> local_service env namespace localServiceName;
     case r of
       Inl KNotFound \<Rightarrow> ret Done
     | Inl err \<Rightarrow> ret (Failed (RetryableError [''could not fetch service '' @ namespace @ ''/'' @ localServiceName @ '': '' @
         me_text env err]))
     | Inr a \<Rightarrow> do {
         svc \<leftarrow> service_at a;
         case leave_annotations w name (annotations_of svc) of
           None \<Rightarrow> ret Done
         | Some annotations \<Rightarrow> do {
             svc' \<leftarrow> ret (svc\<lparr>k_Annotations := (if k_Annotations svc = None then None else Some annotations)\<rparr>);
             set_service a svc';
             if fm_str annotations RemoteDiscoveryAnnotation = [] \<and> fm_str annotations LocalDiscoveryAnnotation = []
             then do {
               e \<leftarrow> api_write env (DeleteService namespace localServiceName);
               if e = None \<or> e = Some KNotFound
               then do {
                 deleteLinkFederatedStatus env w name namespace;
                 ret Done
               }
               else ret (Failed (RetryableError [''could not delete service: '' @ namespace @ ''/'' @ localServiceName @ '': '' @
                 me_text env (the e)]))
             }
             else do {
               e \<leftarrow> api_write env (UpdateService svc');
               ret (case e of None \<Rightarrow> Done | Some err \<Rightarrow> Failed (RetryableError [me_text env err]))
             }
           }
       }
   }"

section \<open>Clean-ups\<close>

text \<open>The name by which the clean-up of orphans looks for the remote service.\<close>

definition orphan_name :: "RemoteClusterServiceWatcher \<Rightarrow> CoreService \<Rightarrow> string" where
  "orphan_name w srv = originalResourceName w
     (case fmlookup (k_Labels srv) MirroredHeadlessSvcNameLabel of Some n \<Rightarrow> n | None \<Rightarrow> k_Name srv)"

fun delete_orphans :: "mirror_env \<Rightarrow> RemoteClusterServiceWatcher \<Rightarrow> CoreService list \<Rightarrow> string list mirror" where
  "delete_orphans env w [] = ret []"
| "delete_orphans env w (srv # srvs) = do {
     err \<leftarrow> (case remote_service env (k_Namespace srv) (orphan_name w srv) of
         Inr _ \<Rightarrow> ret None
       | Inl KNotFound \<Rightarrow> api_write env (DeleteService (k_Namespace srv) (k_Name srv))
       | Inl e \<Rightarrow> ret (Some e));
     errs \<leftarrow> delete_orphans env w srvs;
     ret (case err of None \<Rightarrow> errs | Some e \<Rightarrow> me_text env e # errs)
   }"

definition list_error :: "mirror_env \<Rightarrow> string \<Rightarrow> kerror \<Rightarrow> mirror_result" where
  "list_error env what e =
     Failed (if e = KNotFound then PlainError (what @ me_text env e) else RetryableError [what @ me_text env e])"

definition cleanupOrphanedServices :: "mirror_env \<Rightarrow> RemoteClusterServiceWatcher \<Rightarrow> mirror_result mirror" where
  "cleanupOrphanedServices env w = do {
     l \<leftarrow> list_services env (cluster_labels w);
     case l of
       Inl e \<Rightarrow> ret (list_error env ''failed to list services while cleaning up mirror services: '' e)
     | Inr srvs \<Rightarrow> do {
         errs \<leftarrow> delete_orphans env w srvs;
         ret (retry_if errs)
       }
   }"

fun delete_all_endpoints :: "mirror_env \<Rightarrow> CoreEndpoints list \<Rightarrow> string list mirror" where
  "delete_all_endpoints env [] = ret []"
| "delete_all_endpoints env (ep # eps) = do {
     e \<leftarrow> api_write env (DeleteEndpoints (ke_Namespace ep) (ke_Name ep));
     errs \<leftarrow> delete_all_endpoints env eps;
     ret (case e of None \<Rightarrow> errs | Some KNotFound \<Rightarrow> errs
       | Some err \<Rightarrow> (''Could not delete endpoints '' @ ke_Namespace ep @ ''/'' @ ke_Name ep @ '': '' @ me_text env err) # errs)
   }"

definition cleanupMirroredResources :: "mirror_env \<Rightarrow> RemoteClusterServiceWatcher \<Rightarrow> mirror_result mirror" where
  "cleanupMirroredResources env w = do {
     l \<leftarrow> list_services env (cluster_labels w);
     case l of
       Inl e \<Rightarrow> ret (list_error env ''could not retrieve mirrored services that need cleaning up: '' e)
     | Inr svcs \<Rightarrow> do {
         errs \<leftarrow> delete_services env (\<lambda>svc. ''Could not delete service '' @ k_Namespace svc @ ''/'' @ k_Name svc @ '': '') svcs;
         m \<leftarrow> list_endpoints env (cluster_labels w);
         case m of
           Inl e \<Rightarrow> ret (list_error env ''could not retrieve endpoints that need cleaning up: '' e)
         | Inr eps \<Rightarrow> do {
             errs' \<leftarrow> delete_all_endpoints env eps;
             ret (retry_if (errs @ errs'))
           }
       }
   }"

section \<open>Gateway repair\<close>

definition createOrUpdateGatewayEndpoints ::
  "mirror_env \<Rightarrow> RemoteClusterServiceWatcher \<Rightarrow> EndpointAddress list \<Rightarrow> mirror_error option mirror" where
  "createOrUpdateGatewayEndpoints env w addresses = (case parse_int32 (probe_Port (link_ProbeSpec (link w))) of
     Inl e \<Rightarrow> ret (Some (PlainError (''failed to parse probe port: '' @ e)))
   | Inr probePort \<Rightarrow> do {
       endpoints \<leftarrow> ret \<lparr>ke_Name = ''probe-gateway-'' @ TargetClusterName (link w), ke_Namespace = serviceMirrorNamespace w,
         ke_ResourceVersion = [], ke_Labels = fmupd RemoteClusterNameLabel (TargetClusterName (link w)) fmempty,
         ke_Annotations = fmupd RemoteGatewayIdentity (GatewayIdentity (link w)) fmempty,
         ke_Subsets = [\<lparr>ks_Addresses = addresses, ks_NotReadyAddresses = [],
           ks_Ports = [\<lparr>kep_Name = ''mc-probe'', kep_Protocol = ''TCP'', kep_Port = word_of_int probePort\<rparr>]\<rparr>]\<rparr>;
       r \<leftarrow> call (\<lambda>h. me_getEndpoints env h (ke_Namespace endpoints) (ke_Name endpoints))
         (GetEndpoints (ke_Namespace endpoints) (ke_Name endpoints));
       case r of
         Inl KNotFound \<Rightarrow> do {
           e \<leftarrow> api_write env (CreateEndpoints endpoints);
           ret (map_option (\<lambda>e. PlainError (me_text env e)) e)
         }
       | Inl err \<Rightarrow> ret (Some (PlainError (me_text env err)))
       | Inr _ \<Rightarrow> do {
           e \<leftarrow> api_write env (UpdateEndpoints endpoints);
           ret (map_option (\<lambda>e. PlainError (me_text env e)) e)
         }
     })"

text \<open>The endpoints of a mirror service, from the cache or else from the API server.\<close>

definition find_endpoints :: "mirror_env \<Rightarrow> string \<Rightarrow> string \<Rightarrow> CoreEndpoints option mirror" where
  "find_endpoints env ns n = do {
     r \<leftarrow> local_endpoints env ns n;
     case r of
       Inr a \<Rightarrow> do { ep \<leftarrow> endpoints_at a; ret (Some ep) }
     | Inl KNotFound \<Rightarrow> do {
         r \<leftarrow> call (\<lambda>h. me_getEndpoints env h ns n) (GetEndpoints ns n);
         ret (case r of Inl _ \<Rightarrow> None | Inr ep \<Rightarrow> Some ep)
       }
     | Inl _ \<Rightarrow> ret None
   }"

text \<open>The subsets a repair gives to the endpoints of a mirror service; \<open>None\<close> to skip it.\<close>

definition repaired_subsets ::
  "mirror_env \<Rightarrow> RemoteClusterServiceWatcher \<Rightarrow> EndpointAddress list \<Rightarrow> CoreService \<Rightarrow> CoreSubset list option" where
  "repaired_subsets env w gatewayAddresses svc = (case getEndpointsPorts w svc of
     Inl _ \<Rightarrow> None
   | Inr ports \<Rightarrow>
       let subsets = [\<lparr>ks_Addresses = gatewayAddresses, ks_NotReadyAddresses = [], ks_Ports = ports\<rparr>]
       in if MirroredHeadlessSvcNameLabel |\<in>| fmdom (k_Labels svc) then Some subsets
          else (case isEmptyService env (svc\<lparr>k_Name := targetResourceName w (k_Name svc)\<rparr>) of
            Inl _ \<Rightarrow> None
          | Inr isEmpty \<Rightarrow> Some (if isEmpty then [] else subsets)))"

definition repair_service ::
  "mirror_env \<Rightarrow> RemoteClusterServiceWatcher \<Rightarrow> EndpointAddress list \<Rightarrow> CoreService \<Rightarrow> unit mirror" where
  "repair_service env w gatewayAddresses svc =
     (if k_ClusterIP svc = ClusterIPNone \<or> RemoteDiscoveryLabel |\<in>| fmdom (k_Labels svc) then ret ()
      else do {
        r \<leftarrow> find_endpoints env (k_Namespace svc) (k_Name svc);
        case r of
          None \<Rightarrow> ret ()
        | Some ep \<Rightarrow> (case repaired_subsets env w gatewayAddresses svc of
            None \<Rightarrow> ret ()
          | Some subsets \<Rightarrow> do {
              _ \<leftarrow> updateMirrorEndpoints env (ep\<lparr>ke_Subsets := subsets,
                ke_Annotations := fmupd RemoteGatewayIdentity (GatewayIdentity (link w)) (ke_Annotations ep)\<rparr>);
              ret ()
            })
      })"

fun repair_services ::
  "mirror_env \<Rightarrow> RemoteClusterServiceWatcher \<Rightarrow> EndpointAddress list \<Rightarrow> CoreService list \<Rightarrow> unit mirror" where
  "repair_services env w gatewayAddresses [] = ret ()"
| "repair_services env w gatewayAddresses (svc # svcs) = do {
     repair_service env w gatewayAddresses svc;
     repair_services env w gatewayAddresses svcs
   }"

definition getMirrorServices :: "mirror_env \<Rightarrow> RemoteClusterServiceWatcher \<Rightarrow> (kerror + CoreService list) mirror" where
  "getMirrorServices env w =
     call (\<lambda>h. me_listServices env h (cluster_labels w)) (ListServices (cluster_labels w))"

definition repairEndpoints :: "mirror_env \<Rightarrow> RemoteClusterServiceWatcher \<Rightarrow> mirror_result mirror" where
  "repairEndpoints env w = do {
     g \<leftarrow> resolveGatewayAddress env w;
     case g of
       Inl err \<Rightarrow> ret (Failed err)
     | Inr gatewayAddresses \<Rightarrow> do {
         _ \<leftarrow> createOrUpdateGatewayEndpoints env w gatewayAddresses;
         l \<leftarrow> getMirrorServices env w;
         case l of
           Inl e \<Rightarrow> ret (Failed (RetryableError [''Failed to list mirror services: '' @ me_text env e]))
         | Inr svcs \<Rightarrow> do {
             repair_services env w gatewayAddresses svcs;
             ret Done
           }
       }
   }"

end
