(* ===== verification/Mirror_Watcher.thy ===== *)
theory Mirror_Watcher
  imports Mirror_Handlers
begin

text \<open>
  Headless services (\<open>cluster_watcher_headless.go\<close>), the choice of the events for a remote
  service, the dispatch of events, their retries and the informer callbacks
  (\<open>cluster_watcher.go\<close>).
\<close>

section \<open>Headless services\<close>

definition endpoint_mirror ::
  "mirror_env \<Rightarrow> RemoteClusterServiceWatcher \<Rightarrow> string \<Rightarrow> string \<Rightarrow> string \<Rightarrow> CoreService \<Rightarrow> CoreService" where
  "endpoint_mirror env w hostname resourceVersion endpointMirrorName exportedService = zero_Service
     \<lparr>k_Name := endpointMirrorName, k_Namespace := k_Namespace exportedService,
      k_Annotations := Some (fmupd RemoteServiceFqName (hostname @ ''.'' @ service_fqdn w exportedService)
        (fmupd RemoteResourceVersionAnnotation resourceVersion fmempty)),
      k_Labels := fmupd MirroredHeadlessSvcNameLabel (mirrorServiceName w (k_Name exportedService))
        (getMirrorServiceLabels env w exportedService),
      k_Ports := remapRemoteServicePorts (k_Ports exportedService)\<rparr>"

definition createEndpointMirrorService ::
  "mirror_env \<Rightarrow> RemoteClusterServiceWatcher \<Rightarrow> string \<Rightarrow> string \<Rightarrow> string \<Rightarrow> CoreService \<Rightarrow> (mirror_error + CoreService) mirror" where
  "createEndpointMirrorService env w endpointHostname resourceVersion endpointMirrorName exportedService = do {
     g \<leftarrow> resolveGatewayAddress env w;
     case g of
       Inl err \<Rightarrow> ret (Inl err)
     | Inr gatewayAddresses \<Rightarrow> (case getEndpointsPorts w exportedService of
         Inl err \<Rightarrow> ret (Inl err)
       | Inr ports \<Rightarrow> do {
           svc \<leftarrow> ret (endpoint_mirror env w endpointHostname resourceVersion endpointMirrorName exportedService);
           (e, createdService) \<leftarrow> create_service env svc;
           if e \<noteq> None \<and> e \<noteq> Some KAlreadyExists
           then ret (Inl (RetryableError [me_text env (the e)]))
           else do {
             e \<leftarrow> createMirrorEndpoints env
               \<lparr>ke_Name = k_Name svc, ke_Namespace = k_Namespace svc, ke_ResourceVersion = [], ke_Labels = k_Labels svc,
                ke_Annotations = gateway_annotations w (fm_str (annotations_of svc) RemoteServiceFqName),
                ke_Subsets = [\<lparr>ks_Addresses = gatewayAddresses, ks_NotReadyAddresses = [], ks_Ports = ports\<rparr>]\<rparr>;
             case e of
               None \<Rightarrow> ret (Inr createdService)
             | Some err \<Rightarrow> do {
                 _ \<leftarrow> api_write env (DeleteService (k_Namespace svc) endpointMirrorName);
                 ret (Inl (RetryableError [error_string err]))
               }
           }
         })
   }"

definition createRemoteHeadlessService ::
  "mirror_env \<Rightarrow> RemoteClusterServiceWatcher \<Rightarrow> CoreService \<Rightarrow> CoreEndpoints \<Rightarrow> (mirror_error + CoreService) mirror" where
  "createRemoteHeadlessService env w exportedService exportedEndpoints =
     (if ke_Subsets exportedEndpoints = [] then ret (Inr zero_Service)
      else do {
        stop \<leftarrow> (if namespaceCreationEnabled w
          then do {
            e \<leftarrow> mirrorNamespaceIfNecessary env w (k_Namespace exportedService);
            ret (map_option Inl e)
          }
          else do {
            e \<leftarrow> local_namespace env (k_Namespace exportedService);
            ret (case e of
              None \<Rightarrow> None
            | Some KNotFound \<Rightarrow> Some (Inr zero_Service)
            | Some err \<Rightarrow> Some (Inl (RetryableError [me_text env err])))
          });
        case stop of
          Some r \<Rightarrow> ret r
        | None \<Rightarrow> do {
            svc \<leftarrow> ret (mirror_service env w exportedService);
            (e, created) \<leftarrow> create_service env
              (if shouldExportAsHeadlessService exportedEndpoints then svc\<lparr>k_ClusterIP := ClusterIPNone\<rparr> else svc);
            ret (case e of
              None \<Rightarrow> Inr created
            | Some KAlreadyExists \<Rightarrow> Inl (PlainError (me_text env KAlreadyExists))
            | Some err \<Rightarrow> Inl (RetryableError [me_text env err]))
          }
      })"

text \<open>
  The addresses of new headless mirror endpoints: one for every host name for which a mirror
  service could be made. \<open>None\<close> is the panic on an address without a target.
\<close>

fun new_mirror_addresses ::
  "mirror_env \<Rightarrow> RemoteClusterServiceWatcher \<Rightarrow> CoreService \<Rightarrow> string \<Rightarrow> EndpointAddress list \<Rightarrow> EndpointAddress list option mirror" where
  "new_mirror_addresses env w exportedService rv [] = ret (Some [])"
| "new_mirror_addresses env w exportedService rv (addr # addrs) =
     (if ea_Hostname addr = [] then new_mirror_addresses env w exportedService rv addrs
      else do {
        r \<leftarrow> createEndpointMirrorService env w (ea_Hostname addr) rv (mirrorServiceName w (ea_Hostname addr)) exportedService;
        case r of
          Inl _ \<Rightarrow> new_mirror_addresses env w exportedService rv addrs
        | Inr createdService \<Rightarrow> (case ea_TargetRef addr of
            None \<Rightarrow> ret None
          | Some target \<Rightarrow> do {
              rest \<leftarrow> new_mirror_addresses env w exportedService rv addrs;
              ret (map_option (Cons \<lparr>ea_IP = k_ClusterIP createdService, ea_Hostname = ref_Name target, ea_TargetRef = None\<rparr>) rest)
            })
      })"

fun new_mirror_subsets ::
  "mirror_env \<Rightarrow> RemoteClusterServiceWatcher \<Rightarrow> CoreService \<Rightarrow> string \<Rightarrow> CoreSubset list \<Rightarrow> CoreSubset list option mirror" where
  "new_mirror_subsets env w exportedService rv [] = ret (Some [])"
| "new_mirror_subsets env w exportedService rv (sset # subsets) = do {
     r \<leftarrow> new_mirror_addresses env w exportedService rv (ks_Addresses sset);
     case r of
       None \<Rightarrow> ret None
     | Some newAddresses \<Rightarrow> do {
         rest \<leftarrow> new_mirror_subsets env w exportedService rv subsets;
         ret (if newAddresses = [] then rest
              else map_option (Cons \<lparr>ks_Addresses = newAddresses, ks_NotReadyAddresses = [], ks_Ports = ks_Ports sset\<rparr>) rest)
       }
   }"

definition createHeadlessMirrorEndpoints ::
  "mirror_env \<Rightarrow> RemoteClusterServiceWatcher \<Rightarrow> CoreService \<Rightarrow> CoreEndpoints \<Rightarrow> mirror_result mirror" where
  "createHeadlessMirrorEndpoints env w exportedService exportedEndpoints = do {
     r \<leftarrow> new_mirror_subsets env w exportedService (ke_ResourceVersion exportedEndpoints) (ke_Subsets exportedEndpoints);
     case r of
       None \<Rightarrow> ret Panicked
     | Some subsetsToCreate \<Rightarrow> do {
         e \<leftarrow> api_write env (CreateEndpoints
           \<lparr>ke_Name = mirrorServiceName w (k_Name exportedService), ke_Namespace = k_Namespace exportedService,
            ke_ResourceVersion = [], ke_Labels = getMirrorEndpointLabels w exportedService,
            ke_Annotations = gateway_annotations w (service_fqdn w exportedService), ke_Subsets = subsetsToCreate\<rparr>);
         case e of
           None \<Rightarrow> ret Done
         | Some err \<Rightarrow> do {
             _ \<leftarrow> api_write env (DeleteService (k_Namespace exportedService) (mirrorServiceName w (k_Name exportedService)));
             ret (Failed (RetryableError [me_text env err]))
           }
       }
   }"

text \<open>
  The addresses of existing headless mirror endpoints, with the names of the mirror services
  of their host names; missing mirror services are made.
\<close>

fun mirror_addresses ::
  "mirror_env \<Rightarrow> RemoteClusterServiceWatcher \<Rightarrow> CoreService \<Rightarrow> CoreEndpoints \<Rightarrow> EndpointAddress list \<Rightarrow>
     (mirror_error + EndpointAddress list \<times> string list) mirror" where
  "mirror_addresses env w exportedService eps [] = ret (Inr ([], []))"
| "mirror_addresses env w exportedService eps (address # addrs) =
     (if ea_Hostname address = [] then mirror_addresses env w exportedService eps addrs
      else do {
        n \<leftarrow> ret (mirrorServiceName w (ea_Hostname address));
        r \<leftarrow> local_service env (ke_Namespace eps) n;
        s \<leftarrow> (case r of
            Inr a \<Rightarrow> do { svc \<leftarrow> service_at a; ret (Inr svc) }
          | Inl KNotFound \<Rightarrow> createEndpointMirrorService env w (ea_Hostname address) (ke_ResourceVersion eps) n exportedService
          | Inl e \<Rightarrow> ret (Inl (PlainError (me_text env e))));
        case s of
          Inl err \<Rightarrow> ret (Inl err)
        | Inr svc \<Rightarrow> do {
            rest \<leftarrow> mirror_addresses env w exportedService eps addrs;
            ret (case rest of
              Inl err \<Rightarrow> Inl err
            | Inr (as, ns) \<Rightarrow>
                Inr (\<lparr>ea_IP = k_ClusterIP svc, ea_Hostname = ea_Hostname address, ea_TargetRef = None\<rparr> # as, n # ns))
          }
      })"

fun mirror_subsets ::
  "mirror_env \<Rightarrow> RemoteClusterServiceWatcher \<Rightarrow> CoreService \<Rightarrow> CoreEndpoints \<Rightarrow> CoreSubset list \<Rightarrow>
     (mirror_error + CoreSubset list \<times> string list) mirror" where
  "mirror_subsets env w exportedService eps [] = ret (Inr ([], []))"
| "mirror_subsets env w exportedService eps (sset # subsets) = do {
     r \<leftarrow> mirror_addresses env w exportedService eps (ks_Addresses sset);
     case r of
       Inl err \<Rightarrow> ret (Inl err)
     | Inr (newAddresses, names) \<Rightarrow> do {
         rest \<leftarrow> mirror_subsets env w exportedService eps subsets;
         ret (case rest of
           Inl err \<Rightarrow> Inl err
         | Inr (ss, ns) \<Rightarrow>
             Inr (if newAddresses = [] then ss
                  else \<lparr>ks_Addresses = newAddresses, ks_NotReadyAddresses = [], ks_Ports = ks_Ports sset\<rparr> # ss, names @ ns))
       }
   }"

definition updateHeadlessMirrorEndpoints ::
  "mirror_env \<Rightarrow> RemoteClusterServiceWatcher \<Rightarrow> CoreService \<Rightarrow> CoreEndpoints \<Rightarrow> nat \<Rightarrow> mirror_result mirror" where
  "updateHeadlessMirrorEndpoints env w exportedService exportedEndpoints headlessMirrorEndpoints = do {
     mirrorEndpoints \<leftarrow> endpoints_at headlessMirrorEndpoints;
     r \<leftarrow> mirror_subsets env w exportedService exportedEndpoints (ke_Subsets exportedEndpoints);
     case r of
       Inl err \<Rightarrow> ret (Failed err)
     | Inr (newSubsets, endpointMirrors) \<Rightarrow> do {
         l \<leftarrow> list_services env [(MirroredHeadlessSvcNameLabel, mirrorServiceName w (k_Name exportedService))];
         case l of
           Inl e \<Rightarrow> ret (Failed (PlainError (me_text env e)))
         | Inr svcs \<Rightarrow> do {
             errs \<leftarrow> delete_services env
               (\<lambda>svc. ''error deleting Endpoint Mirror service '' @ k_Namespace svc @ ''/'' @ k_Name svc @ '': '')
               (filter (\<lambda>svc. k_Name svc \<notin> set endpointMirrors) svcs);
             if errs \<noteq> [] then ret (Failed (RetryableError errs))
             else do {
               e \<leftarrow> updateMirrorEndpoints env (mirrorEndpoints\<lparr>ke_Subsets := newSubsets\<rparr>);
               ret (case e of None \<Rightarrow> Done | Some err \<Rightarrow> Failed (RetryableError [error_string err]))
             }
           }
       }
   }"

definition createOrUpdateHeadlessEndpoints ::
  "mirror_env \<Rightarrow> RemoteClusterServiceWatcher \<Rightarrow> CoreEndpoints \<Rightarrow> mirror_result mirror" where
  "createOrUpdateHeadlessEndpoints env w exportedEndpoints =
     (case remote_service env (ke_Namespace exportedEndpoints) (ke_Name exportedEndpoints) of
        Inl e \<Rightarrow> ret (Failed (PlainError (''error retrieving exported service '' @ ke_Namespace exportedEndpoints @ ''/'' @
          ke_Name exportedEndpoints @ '': '' @ me_text env e)))
      | Inr exportedService \<Rightarrow>
          if k_Ports exportedService = []
          then do {
            call (\<lambda>_. ()) (RecordEvent (k_Namespace exportedService) (k_Name exportedService)
              ''Skipped mirroring service: object spec has no exposed ports'');
            ret Done
          }
          else do {
            r \<leftarrow> local_service env (k_Namespace exportedService) (mirrorServiceName w (k_Name exportedService));
            s \<leftarrow> (case r of
                Inr a \<Rightarrow> do { svc \<leftarrow> service_at a; ret (Inr svc) }
              | Inl KNotFound \<Rightarrow> createRemoteHeadlessService env w exportedService exportedEndpoints
              | Inl e \<Rightarrow> ret (Inl (PlainError (me_text env e))));
            case s of
              Inl err \<Rightarrow> ret (Failed err)
            | Inr mirrorService \<Rightarrow> do {
                r \<leftarrow> local_endpoints env (ke_Namespace exportedEndpoints) (mirrorServiceName w (ke_Name exportedEndpoints));
                case r of
                  Inl KNotFound \<Rightarrow>
                    if k_ClusterIP mirrorService \<noteq> ClusterIPNone
                    then do {
                      e \<leftarrow> createGatewayEndpoints env w exportedService;
                      ret (case e of None \<Rightarrow> Done | Some err \<Rightarrow> Failed err)
                    }
                    else createHeadlessMirrorEndpoints env w exportedService exportedEndpoints
                | Inl e \<Rightarrow> ret (Failed (PlainError (me_text env e)))
                | Inr a \<Rightarrow>
                    if k_ClusterIP mirrorService \<noteq> ClusterIPNone then ret Done
                    else updateHeadlessMirrorEndpoints env w exportedService exportedEndpoints a
              }
          })"

definition handleCreateOrUpdateEndpoints ::
  "mirror_env \<Rightarrow> RemoteClusterServiceWatcher \<Rightarrow> CoreEndpoints \<Rightarrow> mirror_result mirror" where
  "handleCreateOrUpdateEndpoints env w exportedEndpoints =
     (if isHeadlessEndpoints exportedEndpoints
      then if headlessServicesEnabled w then createOrUpdateHeadlessEndpoints env w exportedEndpoints else ret Done
      else do {
        r \<leftarrow> local_endpoints env (ke_Namespace exportedEndpoints) (mirrorServiceName w (ke_Name exportedEndpoints));
        case r of
          Inl e \<Rightarrow> ret (Failed (RetryableError [me_text env e]))
        | Inr a \<Rightarrow> do {
            ep \<leftarrow> endpoints_at a;
            if isEmptyEndpoints ep = isEmptyEndpoints exportedEndpoints then ret Done
            else do {
              s \<leftarrow> (if isEmptyEndpoints exportedEndpoints then ret (Inr [])
                else (case remote_service env (ke_Namespace exportedEndpoints) (ke_Name exportedEndpoints) of
                    Inl e \<Rightarrow> ret (Inl (RetryableError [''error retrieving exported service '' @ ke_Namespace exportedEndpoints @
                      ''/'' @ ke_Name exportedEndpoints @ '': '' @ me_text env e]))
                  | Inr exportedService \<Rightarrow> do {
                      g \<leftarrow> resolveGatewayAddress env w;
                      ret (case g of
                        Inl err \<Rightarrow> Inl err
                      | Inr gatewayAddresses \<Rightarrow> map_sum id
                          (\<lambda>ports. [\<lparr>ks_Addresses = gatewayAddresses, ks_NotReadyAddresses = [], ks_Ports = ports\<rparr>])
                          (getEndpointsPorts w exportedService))
                    }));
              case s of
                Inl err \<Rightarrow> ret (Failed err)
              | Inr subsets \<Rightarrow> do {
                  alive \<leftarrow> reads gatewayAlive;
                  set_endpoints a (updateReadiness alive (ep\<lparr>ke_Subsets := subsets\<rparr>));
                  e \<leftarrow> updateMirrorEndpoints env (ep\<lparr>ke_Subsets := subsets\<rparr>);
                  ret (case e of None \<Rightarrow> Done | Some err \<Rightarrow> Failed err)
                }
            }
          }
      })"

section \<open>Events for a remote service\<close>

text \<open>The part for the mirror service; \<open>Some\<close> is an early return.\<close>

definition queue_mirror ::
  "mirror_env \<Rightarrow> RemoteClusterServiceWatcher \<Rightarrow> CoreService \<Rightarrow> mirror_result option mirror" where
  "queue_mirror env w service = do {
     r \<leftarrow> local_service env (k_Namespace service) (mirrorServiceName w (k_Name service));
     if isExported env w (k_Labels service) \<or> isRemoteDiscovery env w (k_Labels service)
     then (case r of
         Inl KNotFound \<Rightarrow> do { queue_add (RemoteServiceExported service); ret (Some Done) }
       | Inl e \<Rightarrow> ret (Some (Failed (RetryableError [me_text env e])))
       | Inr a \<Rightarrow> do {
           localService \<leftarrow> service_at a;
           case fmlookup (annotations_of localService) RemoteResourceVersionAnnotation of
             None \<Rightarrow> ret None
           | Some v \<Rightarrow>
               if v = k_ResourceVersion service then ret None
               else do {
                 ep \<leftarrow> local_endpoints env (k_Namespace service) (mirrorServiceName w (k_Name service));
                 case ep of
                   Inl KNotFound \<Rightarrow> do { queue_add (RemoteExportedServiceUpdated a None service); ret None }
                 | Inl e \<Rightarrow> ret (Some (Failed (RetryableError [me_text env e])))
                 | Inr b \<Rightarrow> do { queue_add (RemoteExportedServiceUpdated a (Some b) service); ret None }
               }
         })
     else (case r of
         Inl _ \<Rightarrow> ret None
       | Inr a \<Rightarrow> do {
           localSvc \<leftarrow> service_at a;
           if MirroredResourceLabel |\<in>| fmdom (k_Labels localSvc) \<and>
              fm_str (k_Labels localSvc) RemoteClusterNameLabel = TargetClusterName (link w)
           then do { queue_add (RemoteServiceUnexported (k_Name service) (k_Namespace service)); ret None }
           else ret None
         })
   }"

definition queue_federated ::
  "mirror_env \<Rightarrow> RemoteClusterServiceWatcher \<Rightarrow> CoreService \<Rightarrow> mirror_result mirror" where
  "queue_federated env w service = do {
     r \<leftarrow> local_service env (k_Namespace service) (federatedServiceName (k_Name service));
     if isFederatedServiceMember env w (k_Labels service)
     then (case r of
         Inl KNotFound \<Rightarrow> do { queue_add (CreateFederatedService service); ret Done }
       | Inl e \<Rightarrow> do {
           federated_status env w service False ''Error'' (''Failed to get federated service: '' @ me_text env e) None;
           ret (Failed (RetryableError [me_text env e]))
         }
       | Inr a \<Rightarrow> do { queue_add (RemoteServiceJoinsFederatedService a service); ret Done })
     else (case r of
         Inl _ \<Rightarrow> ret Done
       | Inr a \<Rightarrow> do {
           localSvc \<leftarrow> service_at a;
           if MirroredResourceLabel |\<in>| fmdom (k_Labels localSvc)
           then do { queue_add (RemoteServiceLeavesFederatedService (k_Name service) (k_Namespace service)); ret Done }
           else ret Done
         })
   }"

definition createOrUpdateService ::
  "mirror_env \<Rightarrow> RemoteClusterServiceWatcher \<Rightarrow> CoreService \<Rightarrow> mirror_result mirror" where
  "createOrUpdateService env w service = do {
     stop \<leftarrow> queue_mirror env w service;
     case stop of Some r \<Rightarrow> ret r | None \<Rightarrow> queue_federated env w service
   }"

definition handleOnDelete :: "mirror_env \<Rightarrow> RemoteClusterServiceWatcher \<Rightarrow> CoreService \<Rightarrow> unit mirror" where
  "handleOnDelete env w service = do {
     (if isExported env w (k_Labels service) \<or> isRemoteDiscovery env w (k_Labels service)
      then queue_add (RemoteServiceUnexported (k_Name service) (k_Namespace service)) else ret ());
     (if isFederatedServiceMember env w (k_Labels service)
      then queue_add (RemoteServiceLeavesFederatedService (k_Name service) (k_Namespace service)) else ret ())
   }"

fun queue_all :: "CoreService list \<Rightarrow> unit mirror" where
  "queue_all [] = ret ()"
| "queue_all (svc # svcs) = do { queue_add (OnAddCalled svc); queue_all svcs }"

definition handleLocalNamespaceAdded :: "mirror_env \<Rightarrow> string \<Rightarrow> mirror_result mirror" where
  "handleLocalNamespaceAdded env ns = (case me_remoteError env of
     Some e \<Rightarrow> ret (Failed (RetryableError [me_text env (KOther e)]))
   | None \<Rightarrow> do {
       queue_all (List.map_filter (fmlookup (me_remoteServices env))
         (filter (\<lambda>key. fst key = ns) (me_keys env (fmdom (me_remoteServices env)))));
       ret Done
     })"

section \<open>The event loop\<close>

fun handle_event :: "mirror_env \<Rightarrow> RemoteClusterServiceWatcher \<Rightarrow> mirror_event \<Rightarrow> mirror_result mirror" where
  "handle_event env w (OnAddCalled svc) = createOrUpdateService env w svc"
| "handle_event env w (OnAddEndpointsCalled ep) = handleCreateOrUpdateEndpoints env w ep"
| "handle_event env w (OnUpdateCalled svc) = createOrUpdateService env w svc"
| "handle_event env w (OnUpdateEndpointsCalled ep) = handleCreateOrUpdateEndpoints env w ep"
| "handle_event env w (OnDeleteCalled svc) = do { handleOnDelete env w svc; ret Done }"
| "handle_event env w (RemoteServiceExported svc) = handleRemoteServiceExported env w svc"
| "handle_event env w (RemoteExportedServiceUpdated a ep svc) = handleRemoteExportedServiceUpdated env w a ep svc"
| "handle_event env w (RemoteServiceUnexported n ns) = handleRemoteServiceUnexported env w n ns"
| "handle_event env w (CreateFederatedService svc) = handleCreateFederatedService env w svc"
| "handle_event env w (RemoteServiceJoinsFederatedService a svc) = handleFederatedServiceJoin env w a svc"
| "handle_event env w (RemoteServiceLeavesFederatedService n ns) = handleFederatedServiceLeave env w n ns"
| "handle_event env w ClusterUnregistered = cleanupMirroredResources env w"
| "handle_event env w OrphanedServicesGcTriggered = cleanupOrphanedServices env w"
| "handle_event env w RepairEndpoints = repairEndpoints env w"
| "handle_event env w (OnLocalNamespaceAdded ns) = handleLocalNamespaceAdded env ns"

text \<open>
  One turn of \<open>processEvents\<close> on an event from the queue; \<open>requeues\<close> is what the queue counts
  for it, \<open>shutdown\<close> whether the queue is shut down.
\<close>

definition process_event ::
  "mirror_env \<Rightarrow> RemoteClusterServiceWatcher \<Rightarrow> mirror_event \<Rightarrow> nat \<Rightarrow> bool \<Rightarrow> mirror_result mirror" where
  "process_event env w event requeues shutdown = do {
     r \<leftarrow> handle_event env w event;
     case r of
       Panicked \<Rightarrow> ret Panicked
     | Done \<Rightarrow> do {
         call (\<lambda>_. ()) (QueueDone event);
         call (\<lambda>_. ()) (QueueForget event);
         ret Done
       }
     | Failed (RetryableError es) \<Rightarrow> do {
         call (\<lambda>_. ()) (QueueDone event);
         call (\<lambda>_. ()) (if requeues < requeueLimit w \<and> \<not> shutdown then QueueAddRateLimited event else QueueForget event);
         ret r
       }
     | Failed (PlainError e) \<Rightarrow> do {
         call (\<lambda>_. ()) (QueueDone event);
         ret r
       }
   }"

section \<open>Informer callbacks\<close>

definition on_delete_service :: "CoreService informer_obj \<Rightarrow> unit mirror" where
  "on_delete_service obj = (case informer_object obj of
     None \<Rightarrow> ret ()
   | Some service \<Rightarrow> queue_add (OnDeleteCalled service))"

definition on_add_endpoints ::
  "mirror_env \<Rightarrow> RemoteClusterServiceWatcher \<Rightarrow> CoreEndpoints option \<Rightarrow> unit mirror" where
  "on_add_endpoints env w obj = (case obj of
     None \<Rightarrow> ret ()
   | Some ep \<Rightarrow>
       if \<not> isExported env w (ke_Labels ep) \<or> \<not> isHeadlessEndpoints ep then ret ()
       else queue_add (OnAddEndpointsCalled ep))"

definition on_update_endpoints ::
  "mirror_env \<Rightarrow> RemoteClusterServiceWatcher \<Rightarrow> CoreEndpoints option \<Rightarrow> unit mirror" where
  "on_update_endpoints env w obj = (case obj of
     None \<Rightarrow> ret ()
   | Some epNew \<Rightarrow>
       if \<not> isExported env w (ke_Labels epNew) \<or> isRemoteDiscovery env w (ke_Labels epNew) then ret ()
       else queue_add (OnUpdateEndpointsCalled epNew))"

definition on_liveness :: "bool \<Rightarrow> unit mirror" where
  "on_liveness alive = do {
     State (\<lambda>st. ((), st\<lparr>gatewayAlive := alive\<rparr>));
     queue_add RepairEndpoints
   }"

text \<open>An informer of the local cluster that sees an object stores it under a new address.\<close>

definition cache_service :: "string \<Rightarrow> string \<Rightarrow> CoreService option \<Rightarrow> unit mirror" where
  "cache_service ns n obj = State (\<lambda>st. ((), case obj of
     None \<Rightarrow> st\<lparr>m_serviceCache := fmdrop (ns, n) (m_serviceCache st)\<rparr>
   | Some svc \<Rightarrow> st\<lparr>m_services := fmupd (m_next st) svc (m_services st),
       m_serviceCache := fmupd (ns, n) (m_next st) (m_serviceCache st), m_next := Suc (m_next st)\<rparr>))"

definition cache_endpoints :: "string \<Rightarrow> string \<Rightarrow> CoreEndpoints option \<Rightarrow> unit mirror" where
  "cache_endpoints ns n obj = State (\<lambda>st. ((), case obj of
     None \<Rightarrow> st\<lparr>m_endpointsCache := fmdrop (ns, n) (m_endpointsCache st)\<rparr>
   | Some ep \<Rightarrow> st\<lparr>m_endpoints := fmupd (m_next st) ep (m_endpoints st),
       m_endpointsCache := fmupd (ns, n) (m_next st) (m_endpointsCache st), m_next := Suc (m_next st)\<rparr>))"

definition cache_namespace :: "string \<Rightarrow> bool \<Rightarrow> unit mirror" where
  "cache_namespace ns there = do {
     State (\<lambda>st. ((), st\<lparr>m_namespaces := (if there then finsert ns (m_namespaces st) else m_namespaces st |-| {|ns|})\<rparr>));
     (if there then queue_add (OnLocalNamespaceAdded ns) else ret ())
   }"

definition new_watcher_state :: mirror_state where
  "new_watcher_state =
     \<lparr>m_services = fmempty, m_serviceCache = fmempty, m_endpoints = fmempty, m_endpointsCache = fmempty,
      m_namespaces = {||}, m_next = 0, gatewayAlive = True, m_calls = []\<rparr>"

text \<open>\<open>Start\<close> queues a clean-up of orphans and, with a gateway, a repair.\<close>

definition start_events :: "RemoteClusterServiceWatcher \<Rightarrow> unit mirror" where
  "start_events w = do {
     queue_add OrphanedServicesGcTriggered;
     (if GatewayAddress (link w) = [] then ret () else queue_add RepairEndpoints)
   }"

definition stop_events :: "bool \<Rightarrow> unit mirror" where
  "stop_events cleanupState = (if cleanupState then queue_add ClusterUnregistered else ret ())"

datatype mirror_op =
    StartWatcher
  | ProcessEvent mirror_event nat bool
  | RemoteServiceAdded CoreService
  | RemoteServiceUpdated CoreService
  | RemoteServiceDeleted "CoreService informer_obj"
  | RemoteEndpointsAdded "CoreEndpoints option"
  | RemoteEndpointsUpdated "CoreEndpoints option"
  | RepairTick
  | LivenessChanged bool
  | LocalServiceSeen string string "CoreService option"
  | LocalEndpointsSeen string string "CoreEndpoints option"
  | LocalNamespaceSeen string bool
  | StopWatcher bool

definition unit_done :: "unit mirror \<Rightarrow> mirror_result mirror" where
  "unit_done m = do { _ \<leftarrow> m; ret Done }"

fun mirror_step :: "mirror_env \<Rightarrow> RemoteClusterServiceWatcher \<Rightarrow> mirror_op \<Rightarrow> mirror_result mirror" where
  "mirror_step env w StartWatcher = unit_done (start_events w)"
| "mirror_step env w (ProcessEvent event requeues shutdown) = process_event env w event requeues shutdown"
| "mirror_step env w (RemoteServiceAdded svc) = unit_done (queue_add (OnAddCalled svc))"
| "mirror_step env w (RemoteServiceUpdated svc) = unit_done (queue_add (OnUpdateCalled svc))"
| "mirror_step env w (RemoteServiceDeleted obj) = unit_done (on_delete_service obj)"
| "mirror_step env w (RemoteEndpointsAdded obj) = unit_done (on_add_endpoints env w obj)"
| "mirror_step env w (RemoteEndpointsUpdated obj) = unit_done (on_update_endpoints env w obj)"
| "mirror_step env w RepairTick = unit_done (queue_add RepairEndpoints)"
| "mirror_step env w (LivenessChanged alive) = unit_done (on_liveness alive)"
| "mirror_step env w (LocalServiceSeen ns n obj) = unit_done (cache_service ns n obj)"
| "mirror_step env w (LocalEndpointsSeen ns n obj) = unit_done (cache_endpoints ns n obj)"
| "mirror_step env w (LocalNamespaceSeen ns there) = unit_done (cache_namespace ns there)"
| "mirror_step env w (StopWatcher cleanupState) = unit_done (stop_events cleanupState)"

text \<open>A run: at every step the environment may be another one. A panic ends it.\<close>

fun mirror_run :: "RemoteClusterServiceWatcher \<Rightarrow> (mirror_env \<times> mirror_op) list \<Rightarrow> bool mirror" where
  "mirror_run w [] = ret True"
| "mirror_run w ((env, op) # ops) = do {
     r \<leftarrow> mirror_step env w op;
     if r = Panicked then ret False else mirror_run w ops
   }"

end
