(* ===== verification/Mirror_Writes.thy ===== *)
theory Mirror_Writes
  imports Mirror_Watcher
begin

text \<open>
  What the service mirror writes: the form of the objects it creates, and what it says about
  the readiness of gateway addresses.
\<close>

section \<open>Programs and the calls they make\<close>

text \<open>
  From a state with \<open>I\<close> the program leads to one with \<open>I\<close> and only appends calls with \<open>P\<close>.
\<close>

named_theorems emits_intros \<open>rules for the calls of a program\<close>

definition emits :: "(mirror_state \<Rightarrow> bool) \<Rightarrow> (mirror_call \<Rightarrow> bool) \<Rightarrow> 'a mirror \<Rightarrow> bool" where
  "emits I P m \<longleftrightarrow> (\<forall>st. I st \<longrightarrow> I (snd (run_state m st)) \<and>
     (\<exists>cs. m_calls (snd (run_state m st)) = m_calls st @ cs \<and> list_all P cs))"

locale call_invariant =
  fixes I :: "mirror_state \<Rightarrow> bool"
  assumes I_calls: "I (st\<lparr>m_calls := cs\<rparr>) = I st"
    and I_service: "I st \<Longrightarrow> I (st\<lparr>m_services := ss\<rparr>)"
    and I_endpoints: "I st \<Longrightarrow> I (st\<lparr>m_endpoints := es\<rparr>)"
begin

lemma emits_ret [emits_intros]: "emits I P (ret x)"
  by (simp add: emits_def)

lemma emits_bind:
  assumes "emits I P m" and "\<And>x. emits I P (f x)"
  shows "emits I P (State_Monad.bind m f)"
  unfolding emits_def
proof (intro allI impI)
  fix st assume st: "I st"
  obtain x st1 where 1: "run_state m st = (x, st1)" by (cases "run_state m st")
  obtain cs where cs: "I st1" "m_calls st1 = m_calls st @ cs" "list_all P cs"
    using assms(1) st 1 unfolding emits_def by (metis snd_conv)
  obtain ds where "I (snd (run_state (f x) st1))" "m_calls (snd (run_state (f x) st1)) = m_calls st1 @ ds" "list_all P ds"
    using assms(2) [of x] cs(1) unfolding emits_def by blast
  then show "I (snd (run_state (State_Monad.bind m f) st)) \<and>
      (\<exists>cs. m_calls (snd (run_state (State_Monad.bind m f) st)) = m_calls st @ cs \<and> list_all P cs)"
    using cs by (intro conjI exI [of _ "cs @ ds"]) (simp_all add: 1)
qed

lemma emits_call [emits_intros]: "P c \<Longrightarrow> emits I P (call f c)"
  by (simp add: emits_def call_def I_calls)

lemma emits_write [emits_intros]: "P c \<Longrightarrow> emits I P (api_write env c)"
  by (simp add: api_write_def emits_call)

lemma emits_queue [emits_intros]: "P (QueueAdd ev) \<Longrightarrow> emits I P (queue_add ev)"
  by (simp add: queue_add_def emits_call)

lemma emits_create [emits_intros]: "P (CreateService svc) \<Longrightarrow> emits I P (create_service env svc)"
  by (simp add: create_service_def emits_call)

lemma emits_reads [emits_intros]: "emits I P (reads f)"
  by (simp add: emits_def reads_def)

lemma emits_reads_bind: "(\<And>st. I st \<Longrightarrow> emits I P (g (f st))) \<Longrightarrow> emits I P (State_Monad.bind (reads f) g)"
  by (simp add: emits_def reads_def)

lemma emits_set_service [emits_intros]: "emits I P (set_service a svc)"
  by (simp add: emits_def set_service_def I_service)

lemma emits_set_endpoints [emits_intros]: "emits I P (set_endpoints a ep)"
  by (simp add: emits_def set_endpoints_def I_endpoints)

lemma emits_caches [emits_intros]:
  "emits I P (local_service env ns n)" "emits I P (local_endpoints env ns n)" "emits I P (local_namespace env ns)"
  "emits I P (service_at a)" "emits I P (endpoints_at a)" "emits I P (list_services env sel)" "emits I P (list_endpoints env sel)"
  by (simp_all add: local_service_def local_endpoints_def local_namespace_def service_at_def endpoints_at_def
        list_services_def list_endpoints_def emits_reads)

lemma emits_if: "(b \<Longrightarrow> emits I P m) \<Longrightarrow> (\<not> b \<Longrightarrow> emits I P n) \<Longrightarrow> emits I P (if b then m else n)"
  by simp

lemma emits_option:
  "(x = None \<Longrightarrow> emits I P m) \<Longrightarrow> (\<And>y. x = Some y \<Longrightarrow> emits I P (f y)) \<Longrightarrow> emits I P (case x of None \<Rightarrow> m | Some y \<Rightarrow> f y)"
  by (cases x) simp_all

lemma emits_sum:
  "(\<And>y. x = Inl y \<Longrightarrow> emits I P (f y)) \<Longrightarrow> (\<And>z. x = Inr z \<Longrightarrow> emits I P (g z)) \<Longrightarrow> emits I P (case x of Inl y \<Rightarrow> f y | Inr z \<Rightarrow> g z)"
  by (cases x) simp_all

lemma emits_kerror:
  "emits I P m \<Longrightarrow> emits I P n \<Longrightarrow> (\<And>e. emits I P (f e)) \<Longrightarrow>
     emits I P (case k of KNotFound \<Rightarrow> m | KAlreadyExists \<Rightarrow> n | KOther e \<Rightarrow> f e)"
  by (cases k) simp_all

lemma emits_pair: "(\<And>a b. emits I P (f a b)) \<Longrightarrow> emits I P (case p of (a, b) \<Rightarrow> f a b)"
  by (cases p) simp

lemmas emits_rules = emits_bind emits_if emits_option emits_sum emits_kerror emits_pair

end

section \<open>The calls of the watcher\<close>

text \<open>
  The forms of what the watcher creates. A federated service belongs to no single cluster: it
  has no label of the mirror but the first.
\<close>

definition mirror_label :: "string \<Rightarrow> bool" where
  "mirror_label k \<longleftrightarrow> HasPrefix k SvcMirrorPrefix"

definition mirror_form :: "RemoteClusterServiceWatcher \<Rightarrow> CoreService \<Rightarrow> bool" where
  "mirror_form w svc \<longleftrightarrow> selects (cluster_labels w) (k_Labels svc) \<and>
     (\<forall>k. k |\<in>| fmdom (k_Labels svc) \<longrightarrow> mirror_label k \<longrightarrow>
        k \<in> {MirroredResourceLabel, RemoteClusterNameLabel, MirroredHeadlessSvcNameLabel}) \<and>
     (\<exists>n. k_Name svc = mirrorServiceName w n) \<and>
     RemoteServiceFqName |\<in>| fmdom (annotations_of svc) \<and>
     RemoteResourceVersionAnnotation |\<in>| fmdom (annotations_of svc) \<and>
     list_all (\<lambda>p. kp_NodePort p = 0) (k_Ports svc)"

definition federated_form :: "RemoteClusterServiceWatcher \<Rightarrow> CoreService \<Rightarrow> bool" where
  "federated_form w svc \<longleftrightarrow> fmlookup (k_Labels svc) MirroredResourceLabel = Some ''true'' \<and>
     (\<forall>k. k |\<in>| fmdom (k_Labels svc) \<longrightarrow> mirror_label k \<longrightarrow> k = MirroredResourceLabel) \<and>
     (\<exists>n. k_Name svc = federatedServiceName n \<and>
        (if TargetClusterName (link w) = [] then fmlookup (annotations_of svc) LocalDiscoveryAnnotation = Some n
         else fmlookup (annotations_of svc) RemoteDiscoveryAnnotation = Some (remote_target w n))) \<and>
     list_all (\<lambda>p. kp_NodePort p = 0) (k_Ports svc)"

definition endpoints_form :: "RemoteClusterServiceWatcher \<Rightarrow> CoreEndpoints \<Rightarrow> bool" where
  "endpoints_form w ep \<longleftrightarrow> selects (cluster_labels w) (ke_Labels ep) \<and>
     (\<exists>n. ke_Name ep = mirrorServiceName w n) \<and> RemoteServiceFqName |\<in>| fmdom (ke_Annotations ep)"

definition probe_form :: "RemoteClusterServiceWatcher \<Rightarrow> CoreEndpoints \<Rightarrow> bool" where
  "probe_form w ep \<longleftrightarrow> ke_Name ep = ''probe-gateway-'' @ TargetClusterName (link w) \<and>
     ke_Namespace ep = serviceMirrorNamespace w \<and> ke_Labels ep = fmupd RemoteClusterNameLabel (TargetClusterName (link w)) fmempty"

definition writes_object :: "mirror_call \<Rightarrow> bool" where
  "writes_object c \<longleftrightarrow> (case c of CreateService _ \<Rightarrow> True | UpdateService _ \<Rightarrow> True | CreateEndpoints _ \<Rightarrow> True |
     UpdateEndpoints _ \<Rightarrow> True | CreateNamespace _ _ \<Rightarrow> True | _ \<Rightarrow> False)"

lemma writes_object_simps [simp]:
  "writes_object (CreateService svc)" "writes_object (UpdateService svc)" "writes_object (CreateEndpoints ep)"
  "writes_object (UpdateEndpoints ep)" "writes_object (CreateNamespace n l)"
  "\<not> writes_object (DeleteService ns n)" "\<not> writes_object (DeleteEndpoints ns n)" "\<not> writes_object (GetEndpoints ns n)"
  "\<not> writes_object (GetNamespace n)" "\<not> writes_object (ListServices sel)" "\<not> writes_object GetLink"
  "\<not> writes_object (PatchLinkStatus ms fs)" "\<not> writes_object (LookupIP a)" "\<not> writes_object (RecordEvent ns n t)"
  "\<not> writes_object (QueueAdd ev)" "\<not> writes_object (QueueAddRateLimited ev)" "\<not> writes_object (QueueForget ev)"
  "\<not> writes_object (QueueDone ev)"
  by (simp_all add: writes_object_def)

lemma common_labels:
  "fmlookup (getCommonServiceLabels remote) k =
     (if mirror_label k then if k = MirroredResourceLabel then Some ''true'' else None else fmlookup (k_Labels remote) k)"
proof -
  have "mirror_label MirroredResourceLabel" by (simp add: mirror_label_def HasPrefix_def)
  then show ?thesis by (auto simp: getCommonServiceLabels_def mirror_label_def [symmetric] fmdom_notI)
qed

lemma mirror_label_simps [simp]:
  "mirror_label MirroredResourceLabel" "mirror_label RemoteClusterNameLabel" "mirror_label MirroredHeadlessSvcNameLabel"
  "\<not> mirror_label RemoteDiscoveryLabel" "\<not> mirror_label RemoteServiceLabel"
  by (simp_all add: mirror_label_def HasPrefix_def)

lemma mirror_labels:
  "fmlookup (getMirrorServiceLabels env w remote) k =
     (if k = RemoteClusterNameLabel then Some (TargetClusterName (link w))
      else if isRemoteDiscovery env w (k_Labels remote) \<and> k = RemoteDiscoveryLabel then Some (TargetClusterName (link w))
      else if isRemoteDiscovery env w (k_Labels remote) \<and> k = RemoteServiceLabel then Some (k_Name remote)
      else fmlookup (getCommonServiceLabels remote) k)"
  by (simp add: getMirrorServiceLabels_def Let_def)

lemma remap_node_ports: "list_all (\<lambda>p. kp_NodePort p = 0) (remapRemoteServicePorts ports)"
  by (simp add: remapRemoteServicePorts_def list_all_iff)

lemma mirror_label_dom:
  "k |\<in>| fmdom (getMirrorServiceLabels env w remote) \<Longrightarrow> mirror_label k \<Longrightarrow> k = MirroredResourceLabel \<or> k = RemoteClusterNameLabel"
  by (auto simp: fmlookup_dom_iff mirror_labels common_labels split: if_splits)

lemma mirror_selected: "selects (cluster_labels w) (getMirrorServiceLabels env w remote)"
  by (simp add: selects_def cluster_labels_def mirror_labels common_labels)

lemma mirror_annotations_dom:
  "RemoteServiceFqName |\<in>| fmdom (getMirrorServiceAnnotations w remote)"
  "RemoteResourceVersionAnnotation |\<in>| fmdom (getMirrorServiceAnnotations w remote)"
  by (simp_all add: getMirrorServiceAnnotations_def)

lemma mirror_service_form [intro!]:
  "mirror_form w (mirror_service env w remote)" "mirror_form w (mirror_service env w remote\<lparr>k_ClusterIP := ip\<rparr>)"
  by (auto simp: mirror_form_def mirror_service_def zero_Service_def mirror_selected mirror_annotations_dom remap_node_ports
        dest: mirror_label_dom)

lemma endpoint_mirror_form [intro!]:
  "mirror_form w (endpoint_mirror env w h rv (mirrorServiceName w n) remote)"
  using mirror_selected [of w env remote]
  by (auto simp: mirror_form_def endpoint_mirror_def zero_Service_def remap_node_ports selects_def cluster_labels_def
        dest: mirror_label_dom)

lemma federated_service_form [intro!]: "federated_form w (federated_service w remote)"
  by (auto simp: federated_form_def federated_service_def zero_Service_def getFederatedServiceLabels_def common_labels
        getFederatedServiceAnnotations_def remap_node_ports fmlookup_dom_iff split: if_splits)

lemma leave_annotations_nil: "leave_annotations w n fmempty = Some a \<Longrightarrow> a = fmempty"
  by (auto simp: leave_annotations_def Let_def remoteDiscoveryContains_def remote_target_def split: if_splits)

lemma gateway_annotations_dom: "RemoteServiceFqName |\<in>| fmdom (gateway_annotations w n)"
  by (simp add: gateway_annotations_def Let_def)

lemma endpoint_labels_selected: "selects (cluster_labels w) (getMirrorEndpointLabels w remote)"
  by (simp add: selects_def cluster_labels_def getMirrorEndpointLabels_def common_labels)

text \<open>A condition on the written objects, given their forms; then every program of the watcher meets it.\<close>

locale mirror_calls = call_invariant I
  for I :: "mirror_state \<Rightarrow> bool" +
  fixes w :: RemoteClusterServiceWatcher
    and P :: "mirror_call \<Rightarrow> bool"
  assumes P_other: "\<not> writes_object c \<Longrightarrow> P c"
    and P_mirror: "mirror_form w svc \<Longrightarrow> P (CreateService svc)"
    and P_federated: "federated_form w svc \<Longrightarrow> P (CreateService svc)"
    and P_update: "k_Annotations svc \<noteq> None \<Longrightarrow> P (UpdateService svc)"
    and P_endpoints: "I st \<Longrightarrow> endpoints_form w ep \<Longrightarrow> P (CreateEndpoints (updateReadiness (gatewayAlive st) ep))"
    and P_headless: "headlessServicesEnabled w \<Longrightarrow> endpoints_form w ep \<Longrightarrow> P (CreateEndpoints ep)"
    and P_readiness: "I st \<Longrightarrow> P (UpdateEndpoints (updateReadiness (gatewayAlive st) ep))"
    and P_probe: "probe_form w ep \<Longrightarrow> P (CreateEndpoints ep)" "probe_form w ep \<Longrightarrow> P (UpdateEndpoints ep)"
    and P_namespace: "selects (cluster_labels w) l \<Longrightarrow> P (CreateNamespace n l)"
begin

lemma resolve_emits [emits_intros]: "emits I P (resolveGatewayAddress env w)"
proof -
  have "emits I P (resolve_all env addrs)" for addrs
    by (induction addrs) (auto intro!: emits_rules emits_intros P_other)
  then show ?thesis by (auto simp: resolveGatewayAddress_def intro!: emits_rules emits_intros)
qed

lemma status_emits [emits_intros]:
  "emits I P (patchLinkStatus env status)"
  "emits I P (updateLinkMirrorStatus env w n ns c)" "emits I P (updateLinkFederatedStatus env w n ns c)"
  "emits I P (deleteLinkMirrorStatus env w n ns)" "emits I P (deleteLinkFederatedStatus env w n ns)"
  "emits I P (mirror_status env w remote ok reason msg r)" "emits I P (federated_status env w remote ok reason msg r)"
proof -
  show patch: "emits I P (patchLinkStatus env status)" for status
    by (auto simp: patchLinkStatus_def intro!: emits_rules emits_intros P_other)
  show um: "emits I P (updateLinkMirrorStatus env w n ns c)" for n ns c
    by (auto simp: updateLinkMirrorStatus_def intro!: emits_rules emits_intros patch P_other)
  show uf: "emits I P (updateLinkFederatedStatus env w n ns c)" for n ns c
    by (auto simp: updateLinkFederatedStatus_def intro!: emits_rules emits_intros patch P_other)
  show "emits I P (deleteLinkMirrorStatus env w n ns)"
    by (auto simp: deleteLinkMirrorStatus_def intro!: emits_rules emits_intros patch P_other)
  show "emits I P (deleteLinkFederatedStatus env w n ns)"
    by (auto simp: deleteLinkFederatedStatus_def intro!: emits_rules emits_intros patch P_other)
  show "emits I P (mirror_status env w remote ok reason msg r)"
    by (auto simp: mirror_status_def intro!: emits_rules emits_intros um)
  show "emits I P (federated_status env w remote ok reason msg r)"
    by (auto simp: federated_status_def intro!: emits_rules emits_intros uf)
qed

lemma namespace_emits [emits_intros]: "emits I P (mirrorNamespaceIfNecessary env w ns)"
  unfolding mirrorNamespaceIfNecessary_def
  by (intro emits_rules emits_intros P_namespace) (simp add: selects_def cluster_labels_def)

lemma ensure_emits:
  "(\<And>reason msg. emits I P (status reason msg)) \<Longrightarrow> emits I P (ensure_namespace env w status remote)"
  unfolding ensure_namespace_def by (intro emits_rules emits_intros P_other) simp_all

lemma createMirrorEndpoints_emits:
  assumes "endpoints_form w ep"
  shows "emits I P (createMirrorEndpoints env ep)"
  unfolding createMirrorEndpoints_def
  by (rule emits_reads_bind) (intro emits_rules emits_intros P_endpoints assms)

lemma updateMirrorEndpoints_emits [emits_intros]: "emits I P (updateMirrorEndpoints env ep)"
  unfolding updateMirrorEndpoints_def
  by (rule emits_reads_bind) (intro emits_rules emits_intros P_readiness)

lemma createGatewayEndpoints_emits [emits_intros]: "emits I P (createGatewayEndpoints env w remote)"
  unfolding createGatewayEndpoints_def
  by (intro emits_rules emits_intros createMirrorEndpoints_emits P_other)
     (auto simp: endpoints_form_def endpoint_labels_selected gateway_annotations_dom)

lemma exported_emits [emits_intros]: "emits I P (handleRemoteServiceExported env w remote)"
  unfolding handleRemoteServiceExported_def by (intro emits_rules emits_intros ensure_emits P_mirror mirror_service_form)

lemma update_endpoints_emits [emits_intros]: "emits I P (update_endpoints env w svc ep remote)"
  unfolding update_endpoints_def by (intro emits_rules emits_intros P_other) simp

lemma updated_emits [emits_intros]: "emits I P (handleRemoteExportedServiceUpdated env w a ep remote)"
  unfolding handleRemoteExportedServiceUpdated_def bind_left_identity by (intro emits_rules emits_intros P_update) simp

lemma delete_services_emits [emits_intros]: "emits I P (delete_services env d svcs)"
  by (induction svcs) (auto intro!: emits_rules emits_intros P_other)

lemma unexported_emits [emits_intros]: "emits I P (handleRemoteServiceUnexported env w n ns)"
  unfolding handleRemoteServiceUnexported_def endpoint_mirrors_deleted_def bind_left_identity
  by (intro emits_rules emits_intros P_other) simp

lemma create_federated_emits [emits_intros]: "emits I P (handleCreateFederatedService env w remote)"
  unfolding handleCreateFederatedService_def
  by (intro emits_rules emits_intros ensure_emits P_federated federated_service_form)

lemma join_emits [emits_intros]: "emits I P (handleFederatedServiceJoin env w a remote)"
  unfolding handleFederatedServiceJoin_def bind_left_identity by (intro emits_rules emits_intros P_update) simp

lemma leave_emits [emits_intros]: "emits I P (handleFederatedServiceLeave env w n ns)"
  unfolding handleFederatedServiceLeave_def bind_left_identity
  by (intro emits_rules emits_intros P_update P_other) (auto dest: leave_annotations_nil split: option.splits)

lemma orphans_emits [emits_intros]: "emits I P (cleanupOrphanedServices env w)"
proof -
  have "emits I P (delete_orphans env w srvs)" for srvs
    by (induction srvs) (auto intro!: emits_rules emits_intros P_other)
  then show ?thesis unfolding cleanupOrphanedServices_def by (intro emits_rules emits_intros)
qed

lemma cleanup_emits [emits_intros]: "emits I P (cleanupMirroredResources env w)"
proof -
  have "emits I P (delete_all_endpoints env eps)" for eps
    by (induction eps) (auto intro!: emits_rules emits_intros P_other)
  then show ?thesis unfolding cleanupMirroredResources_def by (intro emits_rules emits_intros)
qed

lemma probe_emits [emits_intros]: "emits I P (createOrUpdateGatewayEndpoints env w addrs)"
  unfolding createOrUpdateGatewayEndpoints_def bind_left_identity
  by (intro emits_rules emits_intros P_probe P_other) (auto simp: probe_form_def)

lemma repair_emits [emits_intros]: "emits I P (repairEndpoints env w)"
proof -
  have "emits I P (repair_service env w addrs svc)" for addrs svc
    unfolding repair_service_def find_endpoints_def by (intro emits_rules emits_intros P_other) simp
  then have "emits I P (repair_services env w addrs svcs)" for addrs svcs
    by (induction svcs) (auto intro!: emits_rules emits_intros)
  then show ?thesis
    unfolding repairEndpoints_def getMirrorServices_def by (intro emits_rules emits_intros P_other) simp_all
qed

section \<open>Headless services and the event loop\<close>

lemma endpoint_mirror_emits [emits_intros]:
  "emits I P (createEndpointMirrorService env w h rv (mirrorServiceName w n) remote)"
proof -
  have "endpoints_form w \<lparr>ke_Name = k_Name m, ke_Namespace = k_Namespace m, ke_ResourceVersion = [], ke_Labels = k_Labels m,
      ke_Annotations = gateway_annotations w fqdn, ke_Subsets = ss\<rparr>"
    if "m = endpoint_mirror env w h rv (mirrorServiceName w n) remote" for m fqdn ss
    using endpoint_mirror_form [of w env h rv n remote] that
    by (auto simp: endpoints_form_def mirror_form_def gateway_annotations_dom)
  then show ?thesis
    unfolding createEndpointMirrorService_def bind_left_identity
    by (intro emits_rules emits_intros createMirrorEndpoints_emits P_mirror endpoint_mirror_form P_other) simp_all
qed

lemma headless_service_emits [emits_intros]: "emits I P (createRemoteHeadlessService env w remote eps)"
  unfolding createRemoteHeadlessService_def bind_left_identity
  by (intro emits_rules emits_intros P_mirror) (auto intro: mirror_service_form)

lemma new_addresses_emits [emits_intros]: "emits I P (new_mirror_addresses env w remote rv addrs)"
  by (induction addrs) (auto intro!: emits_rules emits_intros)

lemma new_subsets_emits [emits_intros]: "emits I P (new_mirror_subsets env w remote rv ss)"
  by (induction ss) (auto intro!: emits_rules emits_intros)

lemma headless_create_emits:
  "headlessServicesEnabled w \<Longrightarrow> emits I P (createHeadlessMirrorEndpoints env w remote eps)"
  unfolding createHeadlessMirrorEndpoints_def
  by (intro emits_rules emits_intros P_headless P_other)
     (auto simp: endpoints_form_def endpoint_labels_selected gateway_annotations_dom)

lemma mirror_addresses_emits [emits_intros]: "emits I P (mirror_addresses env w remote eps addrs)"
  by (induction addrs) (auto intro!: emits_rules emits_intros)

lemma mirror_subsets_emits [emits_intros]: "emits I P (mirror_subsets env w remote eps ss)"
  by (induction ss) (auto intro!: emits_rules emits_intros)

lemma headless_emits:
  "headlessServicesEnabled w \<Longrightarrow> emits I P (createOrUpdateHeadlessEndpoints env w eps)"
  unfolding createOrUpdateHeadlessEndpoints_def updateHeadlessMirrorEndpoints_def
  by (intro emits_rules emits_intros headless_create_emits P_other) simp_all

lemma endpoints_event_emits [emits_intros]: "emits I P (handleCreateOrUpdateEndpoints env w eps)"
  unfolding handleCreateOrUpdateEndpoints_def by (intro emits_rules emits_intros headless_emits)

lemma service_event_emits [emits_intros]: "emits I P (createOrUpdateService env w remote)"
  unfolding createOrUpdateService_def queue_mirror_def queue_federated_def
  by (intro emits_rules emits_intros P_other) simp_all

lemma namespace_event_emits [emits_intros]: "emits I P (handleLocalNamespaceAdded env ns)"
proof -
  have "emits I P (queue_all svcs)" for svcs
    by (induction svcs) (auto intro!: emits_rules emits_intros P_other)
  then show ?thesis unfolding handleLocalNamespaceAdded_def by (intro emits_rules emits_intros)
qed

lemma delete_event_emits [emits_intros]: "emits I P (handleOnDelete env w remote)"
  unfolding handleOnDelete_def by (intro emits_rules emits_intros P_other) simp_all

lemma handle_event_emits [emits_intros]: "emits I P (handle_event env w ev)"
  by (cases ev) (auto intro!: emits_bind emits_intros)

lemma emits_result:
  "emits I P a \<Longrightarrow> emits I P b \<Longrightarrow> (\<And>es. emits I P (c es)) \<Longrightarrow> (\<And>e. emits I P (d e)) \<Longrightarrow>
   emits I P (case r of Panicked \<Rightarrow> a | Done \<Rightarrow> b | Failed (RetryableError es) \<Rightarrow> c es | Failed (PlainError e) \<Rightarrow> d e)"
  by (auto split: mirror_result.split mirror_error.split)

lemma process_event_emits [emits_intros]: "emits I P (process_event env w ev n shutdown)"
  unfolding process_event_def by (intro emits_bind emits_result emits_intros P_other) simp_all

end

section \<open>The objects it creates\<close>

definition typed_call :: "RemoteClusterServiceWatcher \<Rightarrow> mirror_call \<Rightarrow> bool" where
  "typed_call w c = (case c of
     CreateService svc \<Rightarrow> mirror_form w svc \<or> federated_form w svc
   | UpdateService svc \<Rightarrow> k_Annotations svc \<noteq> None
   | CreateEndpoints ep \<Rightarrow> endpoints_form w ep \<or> probe_form w ep
   | CreateNamespace n l \<Rightarrow> selects (cluster_labels w) l
   | _ \<Rightarrow> True)"

lemma readiness_form [simp]: "endpoints_form w (updateReadiness b ep) = endpoints_form w ep"
  by (simp add: updateReadiness_def endpoints_form_def)

interpretation typed: mirror_calls "\<lambda>_. True" w "typed_call w" for w
proof unfold_locales
  show "typed_call w c" if "\<not> writes_object c" for c
    using that by (cases c) (simp_all add: typed_call_def)
qed (simp_all add: typed_call_def)

lemma step_typed: "emits (\<lambda>_. True) (typed_call w) (mirror_step env w op)"
proof -
  have "emits (\<lambda>_. True) (typed_call w) (State (\<lambda>st. ((), f st)))" if "\<And>st. m_calls (f st) = m_calls st" for f
    using that by (simp add: emits_def)
  moreover have "typed_call w (QueueAdd ev)" for ev by (simp add: typed_call_def)
  ultimately show ?thesis
    by (cases op)
       (auto simp: unit_done_def start_events_def stop_events_def on_delete_service_def on_add_endpoints_def
         on_update_endpoints_def on_liveness_def cache_service_def cache_endpoints_def cache_namespace_def
         intro!: typed.emits_rules emits_intros split: option.splits)
qed

lemma run_typed: "emits (\<lambda>_. True) (typed_call w) (mirror_run w ops)"
proof (induction ops)
  case (Cons eo ops)
  then show ?case by (cases eo) (auto intro!: typed.emits_rules step_typed typed.emits_ret)
qed (simp add: typed.emits_ret)


section \<open>Dead gateways\<close>

definition not_ready_call :: "RemoteClusterServiceWatcher \<Rightarrow> mirror_call \<Rightarrow> bool" where
  "not_ready_call w c = (case c of
     CreateEndpoints ep \<Rightarrow> isEmptyEndpoints ep \<or> probe_form w ep \<or> (headlessServicesEnabled w \<and> endpoints_form w ep)
   | UpdateEndpoints ep \<Rightarrow> isEmptyEndpoints ep \<or> probe_form w ep
   | _ \<Rightarrow> True)"

lemma not_ready_empty [simp]: "isEmptyEndpoints (updateReadiness False ep)"
  by (simp add: isEmptyEndpoints_def updateReadiness_def list_all_iff)

interpretation dead: mirror_calls "\<lambda>st. \<not> gatewayAlive st" w "not_ready_call w" for w
proof unfold_locales
  show "not_ready_call w c" if "\<not> writes_object c" for c
    using that by (cases c) (simp_all add: not_ready_call_def)
qed (simp_all add: not_ready_call_def)

end
