(* ===== verification/Cluster_Store.thy ===== *)
theory Cluster_Store
  imports Endpoints_Watcher
begin

text \<open>
  The store of linked clusters (\<open>watcher/cluster_store.go\<close>): a mirror secret with a cluster
  name adds a cluster, the deletion of a secret removes it.

  \<^item> \<open>decodeFn\<close>, which builds the clients of a cluster from its kubeconfig, and the
    registration of the new watcher's handlers are parameters: they return an error or not.
  \<^item> A stop channel is a number, taken from \<open>cs_next\<close>; the closed ones are in \<open>cs_closed\<close>.
    Closing a channel again is a panic: \<open>None\<close>.
  \<^item> The gauges, the log and the goroutines that sync the informers are left out.
\<close>

section \<open>Model\<close>

record Secret =
  sec_Name :: string
  sec_Namespace :: string
  sec_Type :: string
  sec_Labels :: labels
  sec_Annotations :: labels
  sec_Data :: labels

record ClusterConfig =
  TrustDomain :: string
  ClusterDomain :: string

record remoteCluster =
  rc_watcher :: EndpointsWatcher
  rc_config :: ClusterConfig
  rc_stopCh :: nat

record ClusterStore =
  cs_store :: "(string, remoteCluster) fmap"
  cs_enableEndpointSlices :: bool
  cs_next :: nat
  cs_closed :: "nat fset"

record cluster_env =
  ce_decodeFn :: "string \<Rightarrow> string \<Rightarrow> bool \<Rightarrow> string option"
  ce_register :: "string \<Rightarrow> string option"

datatype cluster_error = MissingKubeconfig | MissingAnnotation string | ClusterClientError string

abbreviation MirrorSecretType :: string where
  "MirrorSecretType \<equiv> ''mirror.linkerd.io/remote-kubeconfig''"

abbreviation ConfigKeyName :: string where
  "ConfigKeyName \<equiv> ''kubeconfig''"

abbreviation clusterNameLabel :: string where
  "clusterNameLabel \<equiv> ''multicluster.linkerd.io/cluster-name''"

abbreviation trustDomainAnnotation :: string where
  "trustDomainAnnotation \<equiv> ''multicluster.linkerd.io/trust-domain''"

abbreviation clusterDomainAnnotation :: string where
  "clusterDomainAnnotation \<equiv> ''multicluster.linkerd.io/cluster-domain''"

definition NewClusterStore :: "bool \<Rightarrow> ClusterStore" where
  "NewClusterStore enableEndpointSlices =
     \<lparr>cs_store = fmempty, cs_enableEndpointSlices = enableEndpointSlices, cs_next = 0, cs_closed = {||}\<rparr>"

definition cs_Get :: "ClusterStore \<Rightarrow> string \<Rightarrow> (EndpointsWatcher \<times> ClusterConfig) option" where
  "cs_Get cs clusterName = map_option (\<lambda>cw. (rc_watcher cw, rc_config cw)) (fmlookup (cs_store cs) clusterName)"

definition removeCluster :: "ClusterStore \<Rightarrow> string \<Rightarrow> ClusterStore option" where
  "removeCluster cs clusterName = (case fmlookup (cs_store cs) clusterName of
     None \<Rightarrow> Some cs
   | Some r \<Rightarrow>
       if rc_stopCh r |\<in>| cs_closed cs then None
       else Some (cs\<lparr>cs_store := fmdrop clusterName (cs_store cs),
                     cs_closed := finsert (rc_stopCh r) (cs_closed cs)\<rparr>))"

definition addCluster :: "cluster_env \<Rightarrow> ClusterStore \<Rightarrow> string \<Rightarrow> Secret \<Rightarrow> cluster_error + ClusterStore" where
  "addCluster env cs clusterName secret = (case fmlookup (sec_Data secret) ConfigKeyName of
     None \<Rightarrow> Inl MissingKubeconfig
   | Some data \<Rightarrow> (case fmlookup (sec_Annotations secret) clusterDomainAnnotation of
       None \<Rightarrow> Inl (MissingAnnotation clusterDomainAnnotation)
     | Some clusterDomain \<Rightarrow> (case fmlookup (sec_Annotations secret) trustDomainAnnotation of
         None \<Rightarrow> Inl (MissingAnnotation trustDomainAnnotation)
       | Some trustDomain \<Rightarrow> (case ce_decodeFn env data clusterName (cs_enableEndpointSlices cs) of
           Some err \<Rightarrow> Inl (ClusterClientError err)
         | None \<Rightarrow> (case ce_register env clusterName of
             Some err \<Rightarrow> Inl (ClusterClientError err)
           | None \<Rightarrow> Inr (cs\<lparr>
               cs_store := fmupd clusterName
                 \<lparr>rc_watcher = NewEndpointsWatcher (cs_enableEndpointSlices cs) clusterName,
                  rc_config = \<lparr>TrustDomain = trustDomain, ClusterDomain = clusterDomain\<rparr>,
                  rc_stopCh = cs_next cs\<rparr> (cs_store cs),
               cs_next := Suc (cs_next cs)\<rparr>))))))"

text \<open>The two event handlers of the secret informer; errors are logged.\<close>

definition secret_add :: "cluster_env \<Rightarrow> ClusterStore \<Rightarrow> Secret option \<Rightarrow> ClusterStore" where
  "secret_add env cs obj = (case obj of
     None \<Rightarrow> cs
   | Some secret \<Rightarrow>
       if sec_Type secret \<noteq> MirrorSecretType then cs
       else (case fmlookup (sec_Labels secret) clusterNameLabel of
           None \<Rightarrow> cs
         | Some clusterName \<Rightarrow> (case addCluster env cs clusterName secret of Inl _ \<Rightarrow> cs | Inr cs' \<Rightarrow> cs')))"

definition secret_delete :: "ClusterStore \<Rightarrow> Secret informer_obj \<Rightarrow> ClusterStore option" where
  "secret_delete cs obj = (case informer_object obj of
     None \<Rightarrow> Some cs
   | Some secret \<Rightarrow> (case fmlookup (sec_Labels secret) clusterNameLabel of
       None \<Rightarrow> Some cs
     | Some clusterName \<Rightarrow> removeCluster cs clusterName))"

section \<open>Invariant\<close>

text \<open>
  The stop channels of the stored clusters are open, and no two clusters share one; each
  watcher is that of its cluster.
\<close>

definition cs_ok :: "ClusterStore \<Rightarrow> bool" where
  "cs_ok cs \<longleftrightarrow>
     (\<forall>n r. fmlookup (cs_store cs) n = Some r \<longrightarrow>
        rc_stopCh r < cs_next cs \<and> rc_stopCh r |\<notin>| cs_closed cs \<and> w_cluster (rc_watcher r) = n) \<and>
     (\<forall>n m r s. fmlookup (cs_store cs) n = Some r \<longrightarrow> fmlookup (cs_store cs) m = Some s \<longrightarrow>
        rc_stopCh r = rc_stopCh s \<longrightarrow> n = m) \<and>
     (\<forall>c. c |\<in>| cs_closed cs \<longrightarrow> c < cs_next cs)"

lemma NewClusterStore_ok: "cs_ok (NewClusterStore b)"
  by (simp add: cs_ok_def NewClusterStore_def)

lemma addCluster_ok:
  assumes "cs_ok cs" "addCluster env cs n secret = Inr cs'"
  shows "cs_ok cs'"
proof -
  from assms(2) obtain cfg where cs': "cs' = cs\<lparr>
      cs_store := fmupd n \<lparr>rc_watcher = NewEndpointsWatcher (cs_enableEndpointSlices cs) n, rc_config = cfg,
        rc_stopCh = cs_next cs\<rparr> (cs_store cs), cs_next := Suc (cs_next cs)\<rparr>"
    by (auto simp: addCluster_def split: option.splits)
  from assms(1) show ?thesis
    unfolding cs' cs_ok_def by (fastforce simp: NewEndpointsWatcher_def split: if_splits)
qed

lemma secret_add_ok: "cs_ok cs \<Longrightarrow> cs_ok (secret_add env cs obj)"
  by (auto simp: secret_add_def addCluster_ok split: option.splits sum.splits)

lemma removeCluster_ok:
  assumes "cs_ok cs"
  shows "\<exists>cs'. removeCluster cs n = Some cs' \<and> cs_ok cs' \<and> cs_store cs' = fmdrop n (cs_store cs)"
proof (cases "fmlookup (cs_store cs) n")
  case None
  then have "fmdrop n (cs_store cs) = cs_store cs" by (intro fmap_ext) auto
  with None assms show ?thesis by (simp add: removeCluster_def)
next
  case (Some r)
  with assms show ?thesis by (auto simp: removeCluster_def cs_ok_def)
qed

lemma secret_delete_ok:
  assumes "cs_ok cs"
  shows "\<exists>cs'. secret_delete cs obj = Some cs' \<and> cs_ok cs'"
  using assms removeCluster_ok [OF assms] by (fastforce simp: secret_delete_def split: option.splits)

section \<open>Runs\<close>

datatype secret_event = SecretAdd "Secret option" | SecretDelete "Secret informer_obj"

fun cs_run :: "cluster_env \<Rightarrow> ClusterStore \<Rightarrow> secret_event list \<Rightarrow> ClusterStore option" where
  "cs_run env cs [] = Some cs"
| "cs_run env cs (SecretAdd obj # evs) = cs_run env (secret_add env cs obj) evs"
| "cs_run env cs (SecretDelete obj # evs) = (case secret_delete cs obj of
     None \<Rightarrow> None | Some cs' \<Rightarrow> cs_run env cs' evs)"

lemma cs_run_ok: "cs_ok cs \<Longrightarrow> \<exists>cs'. cs_run env cs evs = Some cs' \<and> cs_ok cs'"
proof (induction env cs evs rule: cs_run.induct)
  case (3 env cs obj evs)
  from secret_delete_ok [OF \<open>cs_ok cs\<close>] obtain cs1 where "secret_delete cs obj = Some cs1" "cs_ok cs1" by blast
  with 3 show ?case by simp
qed (simp_all add: secret_add_ok)

text \<open>
  A deletion does not look at the type of the secret: one that was never a mirror secret,
  and so never added a cluster, removes the cluster it names.
\<close>

lemma other_secret_removes_cluster:
  assumes "cs_ok cs" "sec_Type secret \<noteq> MirrorSecretType" "fmlookup (sec_Labels secret) clusterNameLabel = Some n"
  shows "secret_add env cs (Some secret) = cs \<and>
    (\<exists>cs'. secret_delete cs (Obj secret) = Some cs' \<and> cs_Get cs' n = None)"
  using assms removeCluster_ok [OF assms(1), of n]
  by (auto simp: secret_add_def secret_delete_def informer_object_def cs_Get_def)

end
