(* ===== verification/Federated_Services.thy ===== *)
theory Federated_Services
  imports Cluster_Store Translator_Queue Server_Names
begin

text \<open>
  Federated services (\<open>federated_service_watcher.go\<close>): the annotations of a service name a
  local service and services of linked clusters, and every subscriber has one translator for
  each of them.

  \<^item> The calls the code makes to translators, streams and endpoint watchers are recorded in
    order in \<open>fd_calls\<close>. Their results do not matter to the code: an error of \<open>Subscribe\<close> is
    logged. A watcher is named by its cluster, \<open>None\<close> for the local one.
  \<^item> A translator is a number, taken from \<open>fd_next\<close>; streams and end-of-stream channels are
    numbers as well. The closed channels are in \<open>fd_ended\<close>; a translator closes the channel
    when its queue overflows, which is the event \<open>FedOverflow\<close>.
  \<^item> A nil dereference and the closing of a closed channel are panics: \<open>None\<close>.
  \<^item> Go does not fix the order in which a map is walked: \<open>fe_ids\<close> and \<open>fe_names\<close> list the keys.
\<close>

section \<open>Model: state\<close>

record fed_Config =
  ControllerNS :: string
  IdentityTrustDomain :: string
  EnableH2Upgrade :: bool
  EnableIPv6 :: bool
  ExtEndpointZoneWeights :: bool
  MeshedHttp2ClientParams :: "http2_params option"
  DefaultOpaquePorts :: "uint32 fset"

record remoteDiscoveryID =
  rd_cluster :: string
  rd_service :: ServiceID

instantiation remoteDiscoveryID_ext :: (linorder) linorder
begin

definition less_eq_remoteDiscoveryID_ext :: "'a remoteDiscoveryID_scheme \<Rightarrow> 'a remoteDiscoveryID_scheme \<Rightarrow> bool" where
  "less_eq_remoteDiscoveryID_ext i j \<longleftrightarrow>
     (rd_cluster i, rd_service i, remoteDiscoveryID.more i) \<le> (rd_cluster j, rd_service j, remoteDiscoveryID.more j)"

definition less_remoteDiscoveryID_ext :: "'a remoteDiscoveryID_scheme \<Rightarrow> 'a remoteDiscoveryID_scheme \<Rightarrow> bool" where
  "less_remoteDiscoveryID_ext i j \<longleftrightarrow>
     (rd_cluster i, rd_service i, remoteDiscoveryID.more i) < (rd_cluster j, rd_service j, remoteDiscoveryID.more j)"

instance
proof
  fix i j :: "'a remoteDiscoveryID_scheme"
  assume "i \<le> j" "j \<le> i"
  then have "(rd_cluster i, rd_service i, remoteDiscoveryID.more i) = (rd_cluster j, rd_service j, remoteDiscoveryID.more j)"
    unfolding less_eq_remoteDiscoveryID_ext_def by (rule order_antisym)
  then show "i = j" by (intro remoteDiscoveryID.equality) simp_all
qed (auto simp only: less_eq_remoteDiscoveryID_ext_def less_remoteDiscoveryID_ext_def less_le_not_le
      intro: order_trans linear)

end

record federatedServiceSubscriber =
  fss_port :: Port
  fss_nodeName :: string
  fss_instanceID :: string
  localTranslators :: "(string, listener) fmap"
  remoteTranslators :: "(remoteDiscoveryID, listener) fmap"
  fss_stream :: nat
  fss_endStream :: nat

record federatedService =
  fs_namespace :: string
  localDiscovery :: string
  remoteDiscovery :: "remoteDiscoveryID list"
  fs_subscribers :: "federatedServiceSubscriber list"

datatype fed_call =
    TranslatorNew listener endpointTranslator string nat nat
  | TranslatorStart listener
  | WatcherSubscribe "string option" ServiceID Port string listener
  | WatcherUnsubscribe "string option" ServiceID Port string listener
  | TranslatorNoEndpoints listener bool
  | TranslatorDrainAndStop listener
  | TranslatorStop listener
  | StreamStart nat
  | StreamStop nat
  | EndStreamClose nat

record fed_state =
  fd_calls :: "fed_call list"
  fd_next :: listener
  fd_ended :: "nat fset"

record fed_env =
  fe_config :: fed_Config
  fe_nodes :: "string \<Rightarrow> api_error + labels"
  fe_ids :: "remoteDiscoveryID fset \<Rightarrow> remoteDiscoveryID list"
  fe_names :: "string fset \<Rightarrow> string list"

type_synonym fsw_services = "(ServiceID, federatedService) fmap"

definition fed_log :: "fed_call list \<Rightarrow> fed_state \<Rightarrow> fed_state" where
  "fed_log cs st = st\<lparr>fd_calls := fd_calls st @ cs\<rparr>"

section \<open>Model: annotations\<close>

definition remote_id :: "string \<Rightarrow> string \<Rightarrow> remoteDiscoveryID option" where
  "remote_id ns remote = (case split_on (CHR ''@'') remote of
     [remoteSvc, cluster] \<Rightarrow>
       Some \<lparr>rd_cluster = cluster, rd_service = \<lparr>Namespace = ns, Name = remoteSvc, IPFamily = []\<rparr>\<rparr>
   | _ \<Rightarrow> None)"

definition remoteDiscoveryIDs :: "Service \<Rightarrow> remoteDiscoveryID list" where
  "remoteDiscoveryIDs service = (case fmlookup (svc_Annotations service) RemoteDiscoveryAnnotation of
     None \<Rightarrow> []
   | Some remotes \<Rightarrow> List.map_filter (remote_id (svc_Namespace service)) (split_on (CHR '','') remotes))"

section \<open>Model: subscriptions of one subscriber\<close>

definition remoteDiscoverySubscribe ::
  "fed_env \<Rightarrow> ClusterStore \<Rightarrow> string \<Rightarrow> remoteDiscoveryID \<Rightarrow> federatedServiceSubscriber \<Rightarrow> fed_state \<Rightarrow>
     (federatedServiceSubscriber \<times> fed_state) option" where
  "remoteDiscoverySubscribe env cs ns i sub st = (case cs_Get cs (rd_cluster i) of
     None \<Rightarrow> Some (sub, st)
   | Some (_, remoteConfig) \<Rightarrow>
       let cfg = fe_config env;
           t = fd_next st;
           et = newEndpointTranslator (ControllerNS cfg) (TrustDomain remoteConfig) (EnableH2Upgrade cfg) False
             (EnableIPv6 cfg) (ExtEndpointZoneWeights cfg) (MeshedHttp2ClientParams cfg) (fss_nodeName sub)
             (DefaultOpaquePorts cfg) (fe_nodes env);
           label = ID_String (rd_service i) @ ''.'' @ ns @ ''.svc.'' @ ClusterDomain remoteConfig @ '':'' @ itoa (uint (fss_port sub))
       in Some (sub\<lparr>remoteTranslators := fmupd i t (remoteTranslators sub)\<rparr>,
            (fed_log [TranslatorNew t et label (fss_stream sub) (fss_endStream sub), TranslatorStart t,
               WatcherSubscribe (Some (rd_cluster i))
                 \<lparr>Namespace = Namespace (rd_service i), Name = Name (rd_service i), IPFamily = []\<rparr>
                 (fss_port sub) (fss_instanceID sub) t] st)\<lparr>fd_next := Suc t\<rparr>))"

definition remoteDiscoveryUnsubscribe ::
  "ClusterStore \<Rightarrow> remoteDiscoveryID \<Rightarrow> federatedServiceSubscriber \<Rightarrow> fed_state \<Rightarrow>
     (federatedServiceSubscriber \<times> fed_state) option" where
  "remoteDiscoveryUnsubscribe cs i sub st = (case cs_Get cs (rd_cluster i) of
     None \<Rightarrow> Some (sub, st)
   | Some _ \<Rightarrow> (case fmlookup (remoteTranslators sub) i of
       None \<Rightarrow> None
     | Some t \<Rightarrow>
         Some (sub\<lparr>remoteTranslators := fmdrop i (remoteTranslators sub)\<rparr>,
           fed_log [WatcherUnsubscribe (Some (rd_cluster i)) (rd_service i) (fss_port sub) (fss_instanceID sub) t,
             TranslatorNoEndpoints t True, TranslatorDrainAndStop t] st)))"

definition local_id :: "string \<Rightarrow> string \<Rightarrow> ServiceID" where
  "local_id ns n = \<lparr>Namespace = ns, Name = n, IPFamily = []\<rparr>"

definition localDiscoverySubscribe ::
  "fed_env \<Rightarrow> string \<Rightarrow> string \<Rightarrow> federatedServiceSubscriber \<Rightarrow> fed_state \<Rightarrow>
     (federatedServiceSubscriber \<times> fed_state) option" where
  "localDiscoverySubscribe env ns localDisc sub st =
     (let cfg = fe_config env;
          t = fd_next st;
          et = newEndpointTranslator (ControllerNS cfg) (IdentityTrustDomain cfg) (EnableH2Upgrade cfg) True
            (EnableIPv6 cfg) (ExtEndpointZoneWeights cfg) (MeshedHttp2ClientParams cfg) (fss_nodeName sub)
            (DefaultOpaquePorts cfg) (fe_nodes env)
      in Some (sub\<lparr>localTranslators := fmupd localDisc t (localTranslators sub)\<rparr>,
           (fed_log [TranslatorNew t et localDisc (fss_stream sub) (fss_endStream sub), TranslatorStart t,
              WatcherSubscribe None (local_id ns localDisc) (fss_port sub) (fss_instanceID sub) t] st)
             \<lparr>fd_next := Suc t\<rparr>))"

definition localDiscoveryUnsubscribe ::
  "string \<Rightarrow> string \<Rightarrow> federatedServiceSubscriber \<Rightarrow> fed_state \<Rightarrow> (federatedServiceSubscriber \<times> fed_state) option" where
  "localDiscoveryUnsubscribe ns localDisc sub st = (case fmlookup (localTranslators sub) localDisc of
     None \<Rightarrow> Some (sub, st)
   | Some t \<Rightarrow>
       Some (sub\<lparr>localTranslators := fmdrop localDisc (localTranslators sub)\<rparr>,
         fed_log [WatcherUnsubscribe None (local_id ns localDisc) (fss_port sub) (fss_instanceID sub) t,
           TranslatorNoEndpoints t True, TranslatorDrainAndStop t] st))"

section \<open>Model: one federated service\<close>

text \<open>Loops with a state, which a panic ends.\<close>

fun each_of :: "('a \<Rightarrow> 's \<Rightarrow> 's option) \<Rightarrow> 'a list \<Rightarrow> 's \<Rightarrow> 's option" where
  "each_of f [] s = Some s"
| "each_of f (x # xs) s = (case f x s of None \<Rightarrow> None | Some s' \<Rightarrow> each_of f xs s')"

fun each_sub :: "('b \<Rightarrow> 's \<Rightarrow> ('b \<times> 's) option) \<Rightarrow> 'b list \<Rightarrow> 's \<Rightarrow> ('b list \<times> 's) option" where
  "each_sub f [] st = Some ([], st)"
| "each_sub f (sub # subs) st = (case f sub st of
     None \<Rightarrow> None
   | Some (sub', st1) \<Rightarrow> (case each_sub f subs st1 of
       None \<Rightarrow> None
     | Some (subs', st2) \<Rightarrow> Some (sub' # subs', st2)))"

definition newFederatedService :: "Service \<Rightarrow> federatedService" where
  "newFederatedService service =
     \<lparr>fs_namespace = svc_Namespace service,
      localDiscovery = fm_str (svc_Annotations service) LocalDiscoveryAnnotation,
      remoteDiscovery = remoteDiscoveryIDs service, fs_subscribers = []\<rparr>"

definition update_local ::
  "fed_env \<Rightarrow> string \<Rightarrow> string \<Rightarrow> string \<Rightarrow> federatedServiceSubscriber \<Rightarrow> fed_state \<Rightarrow>
     (federatedServiceSubscriber \<times> fed_state) option" where
  "update_local env ns old new sub st =
     (case (if old \<noteq> [] \<or> new = [] then localDiscoveryUnsubscribe ns old sub st else Some (sub, st)) of
        None \<Rightarrow> None
      | Some (sub1, st1) \<Rightarrow>
          if new \<noteq> [] then localDiscoverySubscribe env ns new sub1 st1 else Some (sub1, st1))"

definition fs_update ::
  "fed_env \<Rightarrow> ClusterStore \<Rightarrow> federatedService \<Rightarrow> Service \<Rightarrow> fed_state \<Rightarrow> (federatedService \<times> fed_state) option" where
  "fs_update env cs fs service st =
     (let ns = fs_namespace fs;
          newRemote = remoteDiscoveryIDs service;
          newLocal = fm_str (svc_Annotations service) LocalDiscoveryAnnotation
      in case each_of (\<lambda>i (subs, st). if i \<in> set (remoteDiscovery fs) then Some (subs, st)
                 else each_sub (remoteDiscoverySubscribe env cs ns i) subs st) newRemote (fs_subscribers fs, st) of
           None \<Rightarrow> None
         | Some x \<Rightarrow> (case each_of (\<lambda>i (subs, st). if i \<in> set newRemote then Some (subs, st)
                 else each_sub (remoteDiscoveryUnsubscribe cs i) subs st) (remoteDiscovery fs) x of
             None \<Rightarrow> None
           | Some (subs, st) \<Rightarrow>
               (case (if localDiscovery fs \<noteq> newLocal
                      then each_sub (update_local env ns (localDiscovery fs) newLocal) subs st
                      else Some (subs, st)) of
                  None \<Rightarrow> None
                | Some (subs, st) \<Rightarrow>
                    Some (fs\<lparr>remoteDiscovery := newRemote, localDiscovery := newLocal, fs_subscribers := subs\<rparr>, st))))"

text \<open>\<open>delete\<close> stops the translators at once and closes the end-of-stream channels.\<close>

definition stop_remote ::
  "ClusterStore \<Rightarrow> federatedServiceSubscriber \<Rightarrow> remoteDiscoveryID \<Rightarrow> fed_state \<Rightarrow> fed_state option" where
  "stop_remote cs sub i st = (case cs_Get cs (rd_cluster i) of
     None \<Rightarrow> Some st
   | Some _ \<Rightarrow> (case fmlookup (remoteTranslators sub) i of
       None \<Rightarrow> None
     | Some t \<Rightarrow> Some (fed_log [WatcherUnsubscribe (Some (rd_cluster i)) (rd_service i) (fss_port sub)
           (fss_instanceID sub) t, TranslatorStop t] st)))"

definition stop_local :: "string \<Rightarrow> federatedServiceSubscriber \<Rightarrow> string \<Rightarrow> fed_state \<Rightarrow> fed_state option" where
  "stop_local ns sub n st = (case fmlookup (localTranslators sub) n of
     None \<Rightarrow> None
   | Some t \<Rightarrow> Some (fed_log [WatcherUnsubscribe None (local_id ns n) (fss_port sub) (fss_instanceID sub) t,
       TranslatorStop t] st))"

definition close_endStream :: "nat \<Rightarrow> fed_state \<Rightarrow> fed_state option" where
  "close_endStream e st =
     (if e |\<in>| fd_ended st then None
      else Some ((fed_log [EndStreamClose e] st)\<lparr>fd_ended := finsert e (fd_ended st)\<rparr>))"

definition delete_sub ::
  "fed_env \<Rightarrow> ClusterStore \<Rightarrow> string \<Rightarrow> federatedServiceSubscriber \<Rightarrow> fed_state \<Rightarrow> fed_state option" where
  "delete_sub env cs ns sub st =
     (case each_of (stop_remote cs sub) (fe_ids env (fmdom (remoteTranslators sub))) st of
        None \<Rightarrow> None
      | Some st1 \<Rightarrow> (case each_of (stop_local ns sub) (fe_names env (fmdom (localTranslators sub))) st1 of
          None \<Rightarrow> None
        | Some st2 \<Rightarrow> close_endStream (fss_endStream sub) st2))"

definition fs_delete :: "fed_env \<Rightarrow> ClusterStore \<Rightarrow> federatedService \<Rightarrow> fed_state \<Rightarrow> fed_state option" where
  "fs_delete env cs fs st = each_of (delete_sub env cs (fs_namespace fs)) (fs_subscribers fs) st"

definition fs_subscribe ::
  "fed_env \<Rightarrow> ClusterStore \<Rightarrow> federatedService \<Rightarrow> Port \<Rightarrow> string \<Rightarrow> string \<Rightarrow> nat \<Rightarrow> nat \<Rightarrow> fed_state \<Rightarrow>
     (federatedService \<times> fed_state) option" where
  "fs_subscribe env cs fs port nodeName instanceID stream endStream st =
     (let sub = \<lparr>fss_port = port, fss_nodeName = nodeName, fss_instanceID = instanceID,
            localTranslators = fmempty, remoteTranslators = fmempty, fss_stream = stream, fss_endStream = endStream\<rparr>
      in case each_of (\<lambda>i (sub, st). remoteDiscoverySubscribe env cs (fs_namespace fs) i sub st)
                (remoteDiscovery fs) (sub, fed_log [StreamStart stream] st) of
           None \<Rightarrow> None
         | Some (sub, st) \<Rightarrow>
             (case (if localDiscovery fs \<noteq> []
                    then localDiscoverySubscribe env (fs_namespace fs) (localDiscovery fs) sub st
                    else Some (sub, st)) of
                None \<Rightarrow> None
              | Some (sub, st) \<Rightarrow> Some (fs\<lparr>fs_subscribers := fs_subscribers fs @ [sub]\<rparr>, st)))"

definition unsubscribe_sub ::
  "fed_env \<Rightarrow> ClusterStore \<Rightarrow> string \<Rightarrow> federatedServiceSubscriber \<Rightarrow> fed_state \<Rightarrow> fed_state option" where
  "unsubscribe_sub env cs ns sub st =
     (case each_of (\<lambda>i (sub, st). remoteDiscoveryUnsubscribe cs i sub st)
             (fe_ids env (fmdom (remoteTranslators sub))) (sub, st) of
        None \<Rightarrow> None
      | Some (sub1, st1) \<Rightarrow>
          (case each_of (\<lambda>n (sub, st). localDiscoveryUnsubscribe ns n sub st)
                  (fe_names env (fmdom (localTranslators sub1))) (sub1, st1) of
             None \<Rightarrow> None
           | Some (_, st2) \<Rightarrow> Some (fed_log [StreamStop (fss_stream sub)] st2)))"

definition fs_unsubscribe ::
  "fed_env \<Rightarrow> ClusterStore \<Rightarrow> federatedService \<Rightarrow> nat \<Rightarrow> fed_state \<Rightarrow> (federatedService \<times> fed_state) option" where
  "fs_unsubscribe env cs fs stream st =
     map_option (Pair (fs\<lparr>fs_subscribers := filter (\<lambda>sub. fss_stream sub \<noteq> stream) (fs_subscribers fs)\<rparr>))
       (each_of (unsubscribe_sub env cs (fs_namespace fs))
          (filter (\<lambda>sub. fss_stream sub = stream) (fs_subscribers fs)) st)"

section \<open>Model: the watcher\<close>

definition fed_put ::
  "fsw_services \<Rightarrow> ServiceID \<Rightarrow> (federatedService \<times> fed_state) option \<Rightarrow> (fsw_services \<times> fed_state) option" where
  "fed_put svcs i r = map_option (\<lambda>(fs, st). (fmupd i fs svcs, st)) r"

definition fed_Subscribe ::
  "fed_env \<Rightarrow> ClusterStore \<Rightarrow> fsw_services \<Rightarrow> fed_state \<Rightarrow> string \<Rightarrow> string \<Rightarrow> Port \<Rightarrow> string \<Rightarrow> string \<Rightarrow> nat \<Rightarrow> nat \<Rightarrow>
     (bool \<times> fsw_services \<times> fed_state) option" where
  "fed_Subscribe env cs svcs st service namespace port nodeName instanceID stream endStream =
     (case fmlookup svcs (local_id namespace service) of
        None \<Rightarrow> Some (False, svcs, st)
      | Some fs \<Rightarrow> map_option (Pair True) (fed_put svcs (local_id namespace service)
          (fs_subscribe env cs fs port nodeName instanceID stream endStream st)))"

definition fed_Unsubscribe ::
  "fed_env \<Rightarrow> ClusterStore \<Rightarrow> fsw_services \<Rightarrow> fed_state \<Rightarrow> string \<Rightarrow> string \<Rightarrow> nat \<Rightarrow> (fsw_services \<times> fed_state) option" where
  "fed_Unsubscribe env cs svcs st service namespace stream =
     (case fmlookup svcs (local_id namespace service) of
        None \<Rightarrow> Some (svcs, st)
      | Some fs \<Rightarrow> fed_put svcs (local_id namespace service) (fs_unsubscribe env cs fs stream st))"

definition fed_remove ::
  "fed_env \<Rightarrow> ClusterStore \<Rightarrow> fsw_services \<Rightarrow> fed_state \<Rightarrow> ServiceID \<Rightarrow> (fsw_services \<times> fed_state) option" where
  "fed_remove env cs svcs st i = (case fmlookup svcs i of
     None \<Rightarrow> Some (svcs, st)
   | Some fs \<Rightarrow> map_option (Pair (fmdrop i svcs)) (fs_delete env cs fs st))"

definition fed_addService ::
  "fed_env \<Rightarrow> ClusterStore \<Rightarrow> fsw_services \<Rightarrow> fed_state \<Rightarrow> Service \<Rightarrow> (fsw_services \<times> fed_state) option" where
  "fed_addService env cs svcs st service =
     (if isFederatedService service
      then fed_put svcs (svc_ID service)
        (fs_update env cs (case fmlookup svcs (svc_ID service) of Some fs \<Rightarrow> fs | None \<Rightarrow> newFederatedService service)
           service st)
      else fed_remove env cs svcs st (svc_ID service))"

definition fed_deleteService ::
  "fed_env \<Rightarrow> ClusterStore \<Rightarrow> fsw_services \<Rightarrow> fed_state \<Rightarrow> Service informer_obj \<Rightarrow> (fsw_services \<times> fed_state) option" where
  "fed_deleteService env cs svcs st obj = (case informer_object obj of
     None \<Rightarrow> Some (svcs, st)
   | Some service \<Rightarrow> fed_remove env cs svcs st (svc_ID service))"

section \<open>Runs\<close>

datatype fed_op =
    FedAdd Service
  | FedDelete "Service informer_obj"
  | FedSubscribe string string Port string string nat nat
  | FedUnsubscribe string string nat
  | FedOverflow nat

fun fed_step :: "fed_env \<Rightarrow> ClusterStore \<Rightarrow> fsw_services \<times> fed_state \<Rightarrow> fed_op \<Rightarrow> (fsw_services \<times> fed_state) option" where
  "fed_step env cs (svcs, st) (FedAdd service) = fed_addService env cs svcs st service"
| "fed_step env cs (svcs, st) (FedDelete obj) = fed_deleteService env cs svcs st obj"
| "fed_step env cs (svcs, st) (FedSubscribe n ns port node inst stream e) =
     map_option snd (fed_Subscribe env cs svcs st n ns port node inst stream e)"
| "fed_step env cs (svcs, st) (FedUnsubscribe n ns stream) = fed_Unsubscribe env cs svcs st n ns stream"
| "fed_step env cs (svcs, st) (FedOverflow e) = Some (svcs, st\<lparr>fd_ended := finsert e (fd_ended st)\<rparr>)"

fun fed_run :: "fed_env \<Rightarrow> ClusterStore \<Rightarrow> fsw_services \<times> fed_state \<Rightarrow> fed_op list \<Rightarrow> (fsw_services \<times> fed_state) option" where
  "fed_run env cs w [] = Some w"
| "fed_run env cs w (op # ops) = (case fed_step env cs w op of None \<Rightarrow> None | Some w' \<Rightarrow> fed_run env cs w' ops)"

definition fed_init :: "fsw_services \<times> fed_state" where
  "fed_init = (fmempty, \<lparr>fd_calls = [], fd_next = 0, fd_ended = {||}\<rparr>)"

section \<open>Specification: the life of a translator\<close>

record t_info =
  ti_end :: nat
  ti_cluster :: "string option"
  ti_service :: ServiceID
  ti_port :: Port
  ti_instance :: string

datatype t_state = TFresh | TCreated nat | TStarted nat | TOpen t_info | TLeft | TDraining | TClosed | TBad

text \<open>
  A translator is created, started and subscribed, in this order; later it is unsubscribed
  from where it was subscribed and then either told that there are no endpoints and drained,
  or stopped. Any other call on it is bad.
\<close>

fun t_step :: "listener \<Rightarrow> t_state \<Rightarrow> fed_call \<Rightarrow> t_state" where
  "t_step t s (TranslatorNew t' et label stream e) =
     (if t' \<noteq> t then s else if s = TFresh then TCreated e else TBad)"
| "t_step t s (TranslatorStart t') =
     (if t' \<noteq> t then s else case s of TCreated e \<Rightarrow> TStarted e | _ \<Rightarrow> TBad)"
| "t_step t s (WatcherSubscribe c i port inst t') =
     (if t' \<noteq> t then s else case s of
        TStarted e \<Rightarrow> TOpen \<lparr>ti_end = e, ti_cluster = c, ti_service = i, ti_port = port, ti_instance = inst\<rparr>
      | _ \<Rightarrow> TBad)"
| "t_step t s (WatcherUnsubscribe c i port inst t') =
     (if t' \<noteq> t then s else case s of
        TOpen ti \<Rightarrow> if ti = \<lparr>ti_end = ti_end ti, ti_cluster = c, ti_service = i, ti_port = port, ti_instance = inst\<rparr>
          then TLeft else TBad
      | _ \<Rightarrow> TBad)"
| "t_step t s (TranslatorNoEndpoints t' ex) = (if t' \<noteq> t then s else if s = TLeft then TDraining else TBad)"
| "t_step t s (TranslatorDrainAndStop t') = (if t' \<noteq> t then s else if s = TDraining then TClosed else TBad)"
| "t_step t s (TranslatorStop t') = (if t' \<noteq> t then s else if s = TLeft then TClosed else TBad)"
| "t_step t s _ = s"

definition t_state :: "fed_state \<Rightarrow> listener \<Rightarrow> t_state" where
  "t_state st t = foldl (t_step t) TFresh (fd_calls st)"

datatype fed_target = LocalT string | RemoteT remoteDiscoveryID

fun sub_lookup :: "federatedServiceSubscriber \<Rightarrow> fed_target \<Rightarrow> listener option" where
  "sub_lookup sub (LocalT n) = fmlookup (localTranslators sub) n"
| "sub_lookup sub (RemoteT i) = fmlookup (remoteTranslators sub) i"

fun target_info :: "string \<Rightarrow> federatedServiceSubscriber \<Rightarrow> fed_target \<Rightarrow> t_info" where
  "target_info ns sub (LocalT n) =
     \<lparr>ti_end = fss_endStream sub, ti_cluster = None, ti_service = local_id ns n, ti_port = fss_port sub,
      ti_instance = fss_instanceID sub\<rparr>"
| "target_info ns sub (RemoteT i) =
     \<lparr>ti_end = fss_endStream sub, ti_cluster = Some (rd_cluster i), ti_service = rd_service i,
      ti_port = fss_port sub, ti_instance = fss_instanceID sub\<rparr>"

definition known :: "ClusterStore \<Rightarrow> remoteDiscoveryID list \<Rightarrow> remoteDiscoveryID fset" where
  "known cs ids = ffilter (\<lambda>i. cs_Get cs (rd_cluster i) \<noteq> None) (fset_of_list ids)"

definition locals :: "string \<Rightarrow> string fset" where
  "locals n = (if n = [] then {||} else {|n|})"

definition fed_env_ok :: "fed_env \<Rightarrow> bool" where
  "fed_env_ok env \<longleftrightarrow>
     (\<forall>S. distinct (fe_ids env S) \<and> set (fe_ids env S) = fset S) \<and>
     (\<forall>S. distinct (fe_names env S) \<and> set (fe_names env S) = fset S)"

section \<open>Effects on translators\<close>

lemma t_state_log: "t_state (fed_log cs st) t = foldl (t_step t) (t_state st t) cs"
  by (simp add: t_state_def fed_log_def)

lemma t_state_update [simp]:
  "t_state (st\<lparr>fd_next := n\<rparr>) = t_state st" "t_state (st\<lparr>fd_ended := e\<rparr>) = t_state st"
  by (simp_all add: t_state_def fun_eq_iff)

lemma fed_log_simps [simp]: "fd_next (fed_log cs st) = fd_next st" "fd_ended (fed_log cs st) = fd_ended st"
  by (simp_all add: fed_log_def)

definition states_ok :: "fed_state \<Rightarrow> bool" where
  "states_ok st \<longleftrightarrow> (\<forall>t. if t < fd_next st then t_state st t = TClosed \<or> (\<exists>ti. t_state st t = TOpen ti)
     else t_state st t = TFresh)"

definition opened :: "t_info \<Rightarrow> fed_state \<Rightarrow> fed_state \<Rightarrow> bool" where
  "opened ti st st' \<longleftrightarrow> t_state st' = (t_state st)(fd_next st := TOpen ti) \<and> fd_next st' = Suc (fd_next st) \<and>
     fd_ended st' = fd_ended st"

definition closed :: "listener \<Rightarrow> fed_state \<Rightarrow> fed_state \<Rightarrow> bool" where
  "closed t st st' \<longleftrightarrow> t_state st' = (t_state st)(t := TClosed) \<and> fd_next st' = fd_next st \<and> fd_ended st' = fd_ended st"

lemma opened_log:
  assumes "states_ok st"
  shows "opened \<lparr>ti_end = e, ti_cluster = c, ti_service = i, ti_port = port, ti_instance = inst\<rparr> st
    ((fed_log [TranslatorNew (fd_next st) et label stream e, TranslatorStart (fd_next st),
        WatcherSubscribe c i port inst (fd_next st)] st)\<lparr>fd_next := Suc (fd_next st)\<rparr>)"
proof -
  have "t_state st (fd_next st) = TFresh" using assms unfolding states_ok_def by (metis less_irrefl)
  then show ?thesis by (simp add: opened_def t_state_log fun_eq_iff)
qed

lemma closed_log:
  assumes "t_state st t = TOpen \<lparr>ti_end = e, ti_cluster = c, ti_service = i, ti_port = port, ti_instance = inst\<rparr>"
  shows "closed t st (fed_log [WatcherUnsubscribe c i port inst t, TranslatorNoEndpoints t True,
      TranslatorDrainAndStop t] st)"
    and "closed t st (fed_log [WatcherUnsubscribe c i port inst t, TranslatorStop t] st)"
  using assms by (auto simp: closed_def t_state_log fun_eq_iff)

definition fed_frame :: "nat set \<Rightarrow> fed_state \<Rightarrow> fed_state \<Rightarrow> bool" where
  "fed_frame E st st' \<longleftrightarrow> (\<forall>t ti. ti_end ti \<notin> E \<longrightarrow> (t_state st' t = TOpen ti \<longleftrightarrow> t_state st t = TOpen ti))"

lemma fed_frame_refl [simp]: "fed_frame E st st"
  by (simp add: fed_frame_def)

lemma fed_frame_trans: "fed_frame E st st1 \<Longrightarrow> fed_frame F st1 st2 \<Longrightarrow> fed_frame (E \<union> F) st st2"
  by (simp add: fed_frame_def)

lemma fed_frame_mono: "fed_frame E st st' \<Longrightarrow> E \<subseteq> F \<Longrightarrow> fed_frame F st st'"
  unfolding fed_frame_def by blast

lemma opened_ok: "states_ok st \<Longrightarrow> opened ti st st' \<Longrightarrow> states_ok st'"
  by (auto simp: states_ok_def opened_def less_Suc_eq split: if_splits)

lemma closed_ok:
  assumes "states_ok st" "closed t st st'" "t_state st t = TOpen ti"
  shows "states_ok st'"
proof -
  have "t < fd_next st" using assms(1,3) unfolding states_ok_def by (metis t_state.distinct(5))
  with assms show ?thesis by (auto simp: states_ok_def closed_def)
qed

section \<open>One subscriber\<close>

definition rd_ok :: "remoteDiscoveryID \<Rightarrow> bool" where
  "rd_ok i \<longleftrightarrow> IPFamily (rd_service i) = []"

text \<open>
  The translators that are open and send to the subscriber's stream are those it has, each
  subscribed to the service it is filed under.
\<close>

definition sub_inv :: "string \<Rightarrow> fed_state \<Rightarrow> federatedServiceSubscriber \<Rightarrow> bool" where
  "sub_inv ns st sub \<longleftrightarrow> (\<forall>t ti. ti_end ti = fss_endStream sub \<longrightarrow>
     (t_state st t = TOpen ti \<longleftrightarrow> (\<exists>tgt. sub_lookup sub tgt = Some t \<and> ti = target_info ns sub tgt)))"

definition doms :: "string fset \<Rightarrow> remoteDiscoveryID fset \<Rightarrow> federatedServiceSubscriber \<Rightarrow> bool" where
  "doms L R sub \<longleftrightarrow> fmdom (localTranslators sub) = L \<and> fmdom (remoteTranslators sub) = R"

lemma ti_end_info [simp]: "ti_end (target_info ns sub tgt) = fss_endStream sub"
  by (cases tgt) simp_all

lemma target_info_inj: "target_info ns sub tgt = target_info ns sub tgt' \<Longrightarrow> tgt = tgt'"
  by (cases tgt; cases tgt') (auto simp: local_id_def intro: remoteDiscoveryID.equality)

lemma sub_inv_open: "sub_inv ns st sub \<Longrightarrow> sub_lookup sub tgt = Some t \<Longrightarrow> t_state st t = TOpen (target_info ns sub tgt)"
  unfolding sub_inv_def using ti_end_info by blast

lemma sub_inv_frame:
  "sub_inv ns st sub \<Longrightarrow> fed_frame E st st' \<Longrightarrow> fss_endStream sub \<notin> E \<Longrightarrow> sub_inv ns st' sub"
  unfolding sub_inv_def fed_frame_def by metis


lemma sub_open:
  assumes ok: "states_ok st" and inv: "sub_inv ns st sub" and opn: "opened (target_info ns sub tgt) st st'"
    and free: "sub_lookup sub tgt = None"
    and lk: "\<And>tgt'. sub_lookup sub' tgt' = (if tgt' = tgt then Some (fd_next st) else sub_lookup sub tgt')"
    and info: "target_info ns sub' = target_info ns sub" and e: "fss_endStream sub' = fss_endStream sub"
  shows "states_ok st' \<and> sub_inv ns st' sub' \<and> fed_frame {fss_endStream sub} st st'"
proof (intro conjI)
  have fresh: "t_state st (fd_next st) = TFresh" using ok unfolding states_ok_def by (metis less_irrefl)
  then have new: "sub_lookup sub tgt' \<noteq> Some (fd_next st)" for tgt' using sub_inv_open [OF inv, of tgt'] by auto
  have st': "t_state st' = (t_state st)(fd_next st := TOpen (target_info ns sub tgt))" using opn by (simp add: opened_def)
  show "states_ok st'" using opened_ok ok opn by blast
  show "sub_inv ns st' sub'"
    unfolding sub_inv_def
  proof (intro allI impI)
    fix t and ti :: t_info
    assume ti: "ti_end ti = fss_endStream sub'"
    show "t_state st' t = TOpen ti \<longleftrightarrow> (\<exists>tgt. sub_lookup sub' tgt = Some t \<and> ti = target_info ns sub' tgt)"
    proof (cases "t = fd_next st")
      case True
      with new show ?thesis by (auto simp: st' lk info)
    next
      case False
      with inv ti e have "t_state st' t = TOpen ti \<longleftrightarrow> (\<exists>tgt. sub_lookup sub tgt = Some t \<and> ti = target_info ns sub tgt)"
        by (simp add: sub_inv_def st')
      also have "\<dots> \<longleftrightarrow> (\<exists>tgt. sub_lookup sub' tgt = Some t \<and> ti = target_info ns sub' tgt)"
        using False free unfolding lk info by (metis option.distinct(1) option.inject)
      finally show ?thesis .
    qed
  qed
  show "fed_frame {fss_endStream sub} st st'" unfolding fed_frame_def st' using fresh by auto
qed

lemma sub_close:
  assumes ok: "states_ok st" and inv: "sub_inv ns st sub" and cls: "closed t st st'"
    and own: "sub_lookup sub tgt = Some t"
    and lk: "\<And>tgt'. sub_lookup sub' tgt' = (if tgt' = tgt then None else sub_lookup sub tgt')"
    and info: "target_info ns sub' = target_info ns sub" and e: "fss_endStream sub' = fss_endStream sub"
  shows "states_ok st' \<and> sub_inv ns st' sub' \<and> fed_frame {fss_endStream sub} st st'"
proof (intro conjI)
  have opn: "t_state st t = TOpen (target_info ns sub tgt)" using sub_inv_open [OF inv own] .
  have st': "t_state st' = (t_state st)(t := TClosed)" using cls by (simp add: closed_def)
  have only: "tgt' = tgt" if "sub_lookup sub tgt' = Some t" for tgt'
    using sub_inv_open [OF inv that] opn target_info_inj by auto
  show "states_ok st'" using closed_ok [OF ok cls opn] .
  show "sub_inv ns st' sub'"
    unfolding sub_inv_def
  proof (intro allI impI)
    fix u and ti :: t_info
    assume ti: "ti_end ti = fss_endStream sub'"
    show "t_state st' u = TOpen ti \<longleftrightarrow> (\<exists>tgt. sub_lookup sub' tgt = Some u \<and> ti = target_info ns sub' tgt)"
    proof (cases "u = t")
      case True
      with only show ?thesis by (auto simp: st' lk)
    next
      case False
      with inv ti e have "t_state st' u = TOpen ti \<longleftrightarrow> (\<exists>tgt. sub_lookup sub tgt = Some u \<and> ti = target_info ns sub tgt)"
        by (simp add: sub_inv_def st')
      also have "\<dots> \<longleftrightarrow> (\<exists>tgt. sub_lookup sub' tgt = Some u \<and> ti = target_info ns sub' tgt)"
        using False own unfolding lk info by (metis option.distinct(1) option.inject)
      finally show ?thesis .
    qed
  qed
  show "fed_frame {fss_endStream sub} st st'" unfolding fed_frame_def st' using opn by auto
qed

text \<open>What a call on one subscriber leaves: the invariant, the keys of its maps, and all else as it was.\<close>

definition sub_step ::
  "string \<Rightarrow> string fset \<Rightarrow> remoteDiscoveryID fset \<Rightarrow> federatedServiceSubscriber \<Rightarrow> fed_state \<Rightarrow>
     federatedServiceSubscriber \<Rightarrow> fed_state \<Rightarrow> bool" where
  "sub_step ns L R sub st sub' st' \<longleftrightarrow> states_ok st' \<and> sub_inv ns st' sub' \<and> doms L R sub' \<and>
     fss_endStream sub' = fss_endStream sub \<and> fss_stream sub' = fss_stream sub \<and> fd_ended st' = fd_ended st \<and>
     fed_frame {fss_endStream sub} st st'"

definition sub_pre ::
  "string \<Rightarrow> string fset \<Rightarrow> remoteDiscoveryID fset \<Rightarrow> federatedServiceSubscriber \<Rightarrow> fed_state \<Rightarrow> bool" where
  "sub_pre ns L R sub st \<longleftrightarrow> states_ok st \<and> sub_inv ns st sub \<and> doms L R sub"

lemma sub_step_refl: "sub_pre ns L R sub st \<Longrightarrow> sub_step ns L R sub st sub st"
  by (simp add: sub_pre_def sub_step_def)

lemma sub_step_pre: "sub_step ns L R sub st sub' st' \<Longrightarrow> sub_pre ns L R sub' st'"
  by (simp add: sub_pre_def sub_step_def)

lemma sub_step_trans:
  assumes "sub_step ns L R sub st sub1 st1" "sub_step ns L' R' sub1 st1 sub2 st2"
  shows "sub_step ns L' R' sub st sub2 st2"
  using assms fed_frame_trans [of "{fss_endStream sub}" st st1 "{fss_endStream sub}" st2] by (simp add: sub_step_def)

lemma rd_ok_service:
  "rd_ok i \<Longrightarrow> \<lparr>Namespace = Namespace (rd_service i), Name = Name (rd_service i), IPFamily = []\<rparr> = rd_service i"
  by (simp add: rd_ok_def)

lemma target_info_same:
  "fss_endStream sub' = fss_endStream sub \<Longrightarrow> fss_port sub' = fss_port sub \<Longrightarrow> fss_instanceID sub' = fss_instanceID sub \<Longrightarrow>
     target_info ns sub' = target_info ns sub"
  by (rule ext) (rename_tac tgt, case_tac tgt; simp)

lemma remoteDiscoverySubscribe_step:
  assumes "sub_pre ns L R sub st" "rd_ok i" "i |\<notin>| R"
  shows "\<exists>sub' st'. remoteDiscoverySubscribe env cs ns i sub st = Some (sub', st') \<and>
    sub_step ns L (if cs_Get cs (rd_cluster i) = None then R else finsert i R) sub st sub' st'"
proof (cases "cs_Get cs (rd_cluster i)")
  case None
  with assms(1) show ?thesis by (simp add: remoteDiscoverySubscribe_def sub_step_refl)
next
  case (Some wc)
  obtain w cfg where wc: "wc = (w, cfg)" by fastforce
  let ?sub = "sub\<lparr>remoteTranslators := fmupd i (fd_next st) (remoteTranslators sub)\<rparr>"
  obtain st' where r: "remoteDiscoverySubscribe env cs ns i sub st = Some (?sub, st')"
    and opn: "opened (target_info ns sub (RemoteT i)) st st'"
    using Some assms(1,2) opened_log [of st]
    by (auto simp: remoteDiscoverySubscribe_def Let_def rd_ok_service sub_pre_def wc)
  have "sub_lookup sub (RemoteT i) = None" using assms by (auto simp: sub_pre_def doms_def fmdom_notD)
  with assms(1) opn have "states_ok st' \<and> sub_inv ns st' ?sub \<and> fed_frame {fss_endStream sub} st st'"
    by (intro sub_open [where tgt = "RemoteT i"]) (auto simp: sub_pre_def intro: target_info_same, case_tac tgt', auto)
  with r opn assms(1) Some show ?thesis
    by (auto simp: sub_step_def sub_pre_def doms_def opened_def)
qed


lemma remoteDiscoveryUnsubscribe_step:
  assumes "sub_pre ns L R sub st" "cs_Get cs (rd_cluster i) \<noteq> None \<longleftrightarrow> i |\<in>| R"
  shows "\<exists>sub' st'. remoteDiscoveryUnsubscribe cs i sub st = Some (sub', st') \<and>
    sub_step ns L (R |-| {|i|}) sub st sub' st'"
proof (cases "i |\<in>| R")
  case False
  then have "R |-| {|i|} = R" by auto
  moreover from False have "cs_Get cs (rd_cluster i) = None" using assms(2) by blast
  ultimately show ?thesis using assms by (simp add: remoteDiscoveryUnsubscribe_def sub_step_refl)
next
  case True
  let ?sub = "sub\<lparr>remoteTranslators := fmdrop i (remoteTranslators sub)\<rparr>"
  from True assms obtain t where t: "fmlookup (remoteTranslators sub) i = Some t"
    by (auto simp: sub_pre_def doms_def fmlookup_dom_iff)
  then have own: "sub_lookup sub (RemoteT i) = Some t" by simp
  let ?st = "fed_log [WatcherUnsubscribe (Some (rd_cluster i)) (rd_service i) (fss_port sub) (fss_instanceID sub) t,
      TranslatorNoEndpoints t True, TranslatorDrainAndStop t] st"
  have cls: "closed t st ?st"
    using sub_inv_open [OF _ own, of ns st] assms(1) by (intro closed_log(1)) (simp add: sub_pre_def)
  with assms(1) own have "states_ok ?st \<and> sub_inv ns ?st ?sub \<and> fed_frame {fss_endStream sub} st ?st"
    by (intro sub_close [where tgt = "RemoteT i"]) (auto simp: sub_pre_def intro: target_info_same, case_tac tgt', auto)
  with True t cls assms show ?thesis
    by (auto simp: remoteDiscoveryUnsubscribe_def sub_step_def sub_pre_def doms_def closed_def)
qed

lemma localDiscoverySubscribe_step:
  assumes "sub_pre ns L R sub st" "n |\<notin>| L"
  shows "\<exists>sub' st'. localDiscoverySubscribe env ns n sub st = Some (sub', st') \<and>
    sub_step ns (finsert n L) R sub st sub' st'"
proof -
  let ?sub = "sub\<lparr>localTranslators := fmupd n (fd_next st) (localTranslators sub)\<rparr>"
  obtain st' where r: "localDiscoverySubscribe env ns n sub st = Some (?sub, st')"
    and opn: "opened (target_info ns sub (LocalT n)) st st'"
    using assms(1) opened_log [of st] by (auto simp: localDiscoverySubscribe_def Let_def sub_pre_def)
  have "sub_lookup sub (LocalT n) = None" using assms by (auto simp: sub_pre_def doms_def fmdom_notD)
  with assms(1) opn have "states_ok st' \<and> sub_inv ns st' ?sub \<and> fed_frame {fss_endStream sub} st st'"
    by (intro sub_open [where tgt = "LocalT n"]) (auto simp: sub_pre_def intro: target_info_same, case_tac tgt', auto)
  with r opn assms(1) show ?thesis by (auto simp: sub_step_def sub_pre_def doms_def opened_def)
qed

lemma localDiscoveryUnsubscribe_step:
  assumes "sub_pre ns L R sub st"
  shows "\<exists>sub' st'. localDiscoveryUnsubscribe ns n sub st = Some (sub', st') \<and> sub_step ns (L |-| {|n|}) R sub st sub' st'"
proof (cases "n |\<in>| L")
  case False
  then have "L |-| {|n|} = L" by auto
  with False assms sub_step_refl [OF assms] show ?thesis
    by (auto simp: localDiscoveryUnsubscribe_def sub_pre_def doms_def split: option.splits intro: fmdomI)
next
  case True
  let ?sub = "sub\<lparr>localTranslators := fmdrop n (localTranslators sub)\<rparr>"
  from True assms obtain t where t: "fmlookup (localTranslators sub) n = Some t"
    by (auto simp: sub_pre_def doms_def fmlookup_dom_iff)
  then have own: "sub_lookup sub (LocalT n) = Some t" by simp
  let ?st = "fed_log [WatcherUnsubscribe None (local_id ns n) (fss_port sub) (fss_instanceID sub) t,
      TranslatorNoEndpoints t True, TranslatorDrainAndStop t] st"
  have cls: "closed t st ?st"
    using sub_inv_open [OF _ own, of ns st] assms(1) by (intro closed_log(1)) (simp add: sub_pre_def)
  with assms(1) own have "states_ok ?st \<and> sub_inv ns ?st ?sub \<and> fed_frame {fss_endStream sub} st ?st"
    by (intro sub_close [where tgt = "LocalT n"]) (auto simp: sub_pre_def intro: target_info_same, case_tac tgt', auto)
  with t cls assms show ?thesis
    by (auto simp: localDiscoveryUnsubscribe_def sub_step_def sub_pre_def doms_def closed_def)
qed

lemma update_local_step:
  assumes "sub_pre ns (locals old) R sub st" "old \<noteq> new"
  shows "\<exists>sub' st'. update_local env ns old new sub st = Some (sub', st') \<and> sub_step ns (locals new) R sub st sub' st'"
proof -
  have "\<exists>sub1 st1. (if old \<noteq> [] \<or> new = [] then localDiscoveryUnsubscribe ns old sub st else Some (sub, st)) = Some (sub1, st1) \<and>
    sub_step ns {||} R sub st sub1 st1"
  proof (cases "old \<noteq> [] \<or> new = []")
    case True
    then have "locals old |-| {|old|} = {||}" by (auto simp: locals_def)
    with True localDiscoveryUnsubscribe_step [OF assms(1), of old] show ?thesis by simp
  next
    case False
    with sub_step_refl [OF assms(1)] show ?thesis by (simp add: locals_def)
  qed
  then obtain sub1 st1 where 1: "(if old \<noteq> [] \<or> new = [] then localDiscoveryUnsubscribe ns old sub st else Some (sub, st)) = Some (sub1, st1)"
    and s1: "sub_step ns {||} R sub st sub1 st1" by blast
  show ?thesis
  proof (cases "new = []")
    case True
    with 1 s1 show ?thesis by (simp add: update_local_def locals_def)
  next
    case False
    from localDiscoverySubscribe_step [OF sub_step_pre [OF s1], of new env] obtain sub2 st2
      where "localDiscoverySubscribe env ns new sub1 st1 = Some (sub2, st2)" "sub_step ns {|new|} R sub1 st1 sub2 st2"
      by auto
    with False 1 sub_step_trans [OF s1] show ?thesis by (auto simp: update_local_def locals_def)
  qed
qed

section \<open>Loops\<close>

text \<open>The subscribers of a service: each with its invariant, and no two with one stream.\<close>

definition subs_pre ::
  "string \<Rightarrow> string fset \<Rightarrow> remoteDiscoveryID fset \<Rightarrow> federatedServiceSubscriber list \<Rightarrow> fed_state \<Rightarrow> bool" where
  "subs_pre ns L R subs st \<longleftrightarrow> states_ok st \<and> distinct (map fss_endStream subs) \<and>
     (\<forall>sub \<in> set subs. sub_inv ns st sub \<and> doms L R sub)"

definition subs_step ::
  "string \<Rightarrow> string fset \<Rightarrow> remoteDiscoveryID fset \<Rightarrow> federatedServiceSubscriber list \<Rightarrow> fed_state \<Rightarrow>
     federatedServiceSubscriber list \<Rightarrow> fed_state \<Rightarrow> bool" where
  "subs_step ns L R subs st subs' st' \<longleftrightarrow> subs_pre ns L R subs' st' \<and>
     map fss_endStream subs' = map fss_endStream subs \<and> map fss_stream subs' = map fss_stream subs \<and>
     fd_ended st' = fd_ended st \<and> fed_frame (fss_endStream ` set subs) st st'"

lemma subs_step_refl: "subs_pre ns L R subs st \<Longrightarrow> subs_step ns L R subs st subs st"
  by (simp add: subs_step_def)

lemma subs_step_pre: "subs_step ns L R subs st subs' st' \<Longrightarrow> subs_pre ns L R subs' st'"
  by (simp add: subs_step_def)

lemma ends_eq: "map fss_endStream subs' = map fss_endStream subs \<Longrightarrow> fss_endStream ` set subs' = fss_endStream ` set subs"
  by (metis set_map)

lemma subs_step_trans:
  assumes "subs_step ns L R subs st subs1 st1" "subs_step ns L' R' subs1 st1 subs2 st2"
  shows "subs_step ns L' R' subs st subs2 st2"
  using assms fed_frame_trans [of "fss_endStream ` set subs" st st1 "fss_endStream ` set subs" st2] ends_eq [of subs1 subs]
  by (simp add: subs_step_def)

lemma each_sub_step:
  assumes step: "\<And>sub st. sub_pre ns L R sub st \<Longrightarrow> \<exists>sub' st'. f sub st = Some (sub', st') \<and> sub_step ns L' R' sub st sub' st'"
    and pre: "subs_pre ns L R subs st"
  shows "\<exists>subs' st'. each_sub f subs st = Some (subs', st') \<and> subs_step ns L' R' subs st subs' st'"
  using pre
proof (induction subs arbitrary: st)
  case Nil
  then show ?case by (simp add: subs_step_def subs_pre_def)
next
  case (Cons sub subs)
  then have pre: "sub_pre ns L R sub st" and dist: "fss_endStream sub \<notin> fss_endStream ` set subs"
    by (auto simp: subs_pre_def sub_pre_def)
  from step [OF pre] obtain sub' st1 where 1: "f sub st = Some (sub', st1)" and s1: "sub_step ns L' R' sub st sub' st1"
    by (elim exE conjE) (rule that)
  have fr1: "fed_frame {fss_endStream sub} st st1" and e: "fss_endStream sub' = fss_endStream sub"
    using s1 by (simp_all add: sub_step_def)
  have inv1: "sub_inv ns st1 s" if s: "s \<in> set subs" for s
  proof (rule sub_inv_frame [OF _ fr1])
    show "sub_inv ns st s" using Cons.prems s by (simp add: subs_pre_def)
    show "fss_endStream s \<notin> {fss_endStream sub}" using s dist by (metis imageI singletonD)
  qed
  have "subs_pre ns L R subs st1" using Cons.prems s1 inv1 by (simp add: subs_pre_def sub_step_def)
  from Cons.IH [OF this] obtain subs' st2 where 2: "each_sub f subs st1 = Some (subs', st2)"
    and s2: "subs_step ns L' R' subs st1 subs' st2" by (elim exE conjE) (rule that)
  have fr2: "fed_frame (fss_endStream ` set subs) st1 st2" using s2 by (simp add: subs_step_def)
  have "sub_inv ns st2 sub'"
    by (rule sub_inv_frame [OF _ fr2]) (use s1 dist in \<open>simp_all add: sub_step_def\<close>)
  moreover have "fed_frame (insert (fss_endStream sub) (fss_endStream ` set subs)) st st2"
    using fed_frame_trans [OF fr1 fr2] by simp
  ultimately have "subs_step ns L' R' (sub # subs) st (sub' # subs') st2"
    using s1 s2 dist ends_eq [of subs' subs] Cons.prems by (simp add: subs_step_def subs_pre_def sub_step_def)
  with 1 2 show ?case by simp
qed

lemma known_simps [simp]:
  "i |\<in>| known cs ids \<longleftrightarrow> i \<in> set ids \<and> cs_Get cs (rd_cluster i) \<noteq> None"
  by (auto simp: known_def fset_of_list_elem)

lemma known_Nil [simp]: "known cs [] = {||}"
  by (intro fset_eqI) simp

lemma subscribe_loop:
  assumes "distinct new" "list_all rd_ok new"
    and "subs_pre ns L (known cs (old @ filter (\<lambda>i. i \<notin> set new) seen)) subs st" "set seen \<inter> set new = {}"
  shows "\<exists>subs' st'. each_of (\<lambda>i (subs, st). if i \<in> set old then Some (subs, st)
      else each_sub (remoteDiscoverySubscribe env cs ns i) subs st) new (subs, st) = Some (subs', st') \<and>
    subs_step ns L (known cs (old @ seen @ new)) subs st subs' st'"
  using assms
proof (induction new arbitrary: seen subs st)
  case Nil
  then show ?case by (simp add: subs_step_refl)
next
  case (Cons i new)
  let ?R = "known cs (old @ seen)"
  have seen: "filter (\<lambda>j. j \<notin> set (i # new)) seen = seen" using Cons.prems(4) by (auto simp: filter_id_conv)
  have pre: "subs_pre ns L ?R subs st" using Cons.prems(3) unfolding seen .
  have "\<exists>subs1 st1. (if i \<in> set old then Some (subs, st) else each_sub (remoteDiscoverySubscribe env cs ns i) subs st) = Some (subs1, st1) \<and>
    subs_step ns L (known cs (old @ seen @ [i])) subs st subs1 st1"
  proof (cases "i \<in> set old")
    case True
    then have "known cs (old @ seen @ [i]) = ?R" by (intro fset_eqI) auto
    with True subs_step_refl [OF pre] show ?thesis by simp
  next
    case False
    with Cons.prems(4) have "i |\<notin>| ?R" by auto
    moreover have "known cs (old @ seen @ [i]) = (if cs_Get cs (rd_cluster i) = None then ?R else finsert i ?R)"
      by (intro fset_eqI) auto
    ultimately show ?thesis
      using each_sub_step [OF remoteDiscoverySubscribe_step pre] False Cons.prems(2) by simp
  qed
  then obtain subs1 st1 where 1: "(if i \<in> set old then Some (subs, st) else each_sub (remoteDiscoverySubscribe env cs ns i) subs st) = Some (subs1, st1)"
    and s1: "subs_step ns L (known cs (old @ seen @ [i])) subs st subs1 st1" by blast
  have "filter (\<lambda>j. j \<notin> set new) (seen @ [i]) = seen @ [i]" using Cons.prems(1,4) by (auto simp: filter_id_conv)
  with subs_step_pre [OF s1] have "subs_pre ns L (known cs (old @ filter (\<lambda>j. j \<notin> set new) (seen @ [i]))) subs1 st1" by simp
  with Cons.prems(1,2,4) obtain subs2 st2
    where "each_of (\<lambda>i (subs, st). if i \<in> set old then Some (subs, st)
        else each_sub (remoteDiscoverySubscribe env cs ns i) subs st) new (subs1, st1) = Some (subs2, st2)"
      "subs_step ns L (known cs (old @ (seen @ [i]) @ new)) subs1 st1 subs2 st2"
    using Cons.IH [of "seen @ [i]" subs1 st1] by auto
  with 1 subs_step_trans [OF s1] show ?case by auto
qed

lemma unsubscribe_loop_subs:
  assumes "distinct old" "subs_pre ns L R subs st"
    and "\<And>i. i \<in> set old \<Longrightarrow> cs_Get cs (rd_cluster i) \<noteq> None \<longleftrightarrow> i |\<in>| R"
  shows "\<exists>subs' st'. each_of (\<lambda>i (subs, st). if i \<in> set new then Some (subs, st)
      else each_sub (remoteDiscoveryUnsubscribe cs i) subs st) old (subs, st) = Some (subs', st') \<and>
    subs_step ns L (R |-| fset_of_list (filter (\<lambda>i. i \<notin> set new) old)) subs st subs' st'"
  using assms
proof (induction old arbitrary: R subs st)
  case Nil
  then show ?case by (simp add: subs_step_refl)
next
  case (Cons i old)
  let ?R = "if i \<in> set new then R else R |-| {|i|}"
  have "\<exists>subs1 st1. (if i \<in> set new then Some (subs, st) else each_sub (remoteDiscoveryUnsubscribe cs i) subs st) = Some (subs1, st1) \<and>
    subs_step ns L ?R subs st subs1 st1"
    using each_sub_step [OF remoteDiscoveryUnsubscribe_step Cons.prems(2)] Cons.prems(3) [of i]
      subs_step_refl [OF Cons.prems(2)] by simp
  then obtain subs1 st1 where 1: "(if i \<in> set new then Some (subs, st) else each_sub (remoteDiscoveryUnsubscribe cs i) subs st) = Some (subs1, st1)"
    and s1: "subs_step ns L ?R subs st subs1 st1" by blast
  have "cs_Get cs (rd_cluster j) \<noteq> None \<longleftrightarrow> j |\<in>| ?R" if "j \<in> set old" for j
    using Cons.prems(1) Cons.prems(3) [of j] that by auto
  from Cons.IH [OF _ subs_step_pre [OF s1] this] Cons.prems(1) obtain subs2 st2
    where 2: "each_of (\<lambda>i (subs, st). if i \<in> set new then Some (subs, st)
        else each_sub (remoteDiscoveryUnsubscribe cs i) subs st) old (subs1, st1) = Some (subs2, st2)"
      and s2: "subs_step ns L (?R |-| fset_of_list (filter (\<lambda>i. i \<notin> set new) old)) subs1 st1 subs2 st2" by auto
  have "?R |-| fset_of_list (filter (\<lambda>i. i \<notin> set new) old) = R |-| fset_of_list (filter (\<lambda>i. i \<notin> set new) (i # old))"
    by auto
  with 1 2 subs_step_trans [OF s1 s2] show ?case by auto
qed

section \<open>One federated service\<close>

definition fs_ok :: "ClusterStore \<Rightarrow> federatedService \<Rightarrow> fed_state \<Rightarrow> bool" where
  "fs_ok cs fs st \<longleftrightarrow> distinct (remoteDiscovery fs) \<and> list_all rd_ok (remoteDiscovery fs) \<and>
     subs_pre (fs_namespace fs) (locals (localDiscovery fs)) (known cs (remoteDiscovery fs)) (fs_subscribers fs) st"

definition fs_ends :: "federatedService \<Rightarrow> nat set" where
  "fs_ends fs = fss_endStream ` set (fs_subscribers fs)"

lemma remote_id_ok: "remote_id ns r = Some i \<Longrightarrow> rd_ok i"
  by (auto simp: remote_id_def rd_ok_def split: list.splits)

lemma remoteDiscoveryIDs_ok: "list_all rd_ok (remoteDiscoveryIDs service)"
  by (auto simp: remoteDiscoveryIDs_def list_all_iff in_set_map_filter remote_id_ok split: option.splits)

lemma fs_update_ok:
  assumes ok: "fs_ok cs fs st" and dist: "distinct (remoteDiscoveryIDs service)"
  shows "\<exists>fs' st'. fs_update env cs fs service st = Some (fs', st') \<and> fs_ok cs fs' st' \<and>
    fs_namespace fs' = fs_namespace fs \<and> remoteDiscovery fs' = remoteDiscoveryIDs service \<and>
    localDiscovery fs' = fm_str (svc_Annotations service) LocalDiscoveryAnnotation \<and>
    fs_ends fs' = fs_ends fs \<and> fd_ended st' = fd_ended st \<and> fed_frame (fs_ends fs) st st'"
proof -
  let ?ns = "fs_namespace fs" and ?old = "remoteDiscovery fs" and ?new = "remoteDiscoveryIDs service"
  let ?l = "localDiscovery fs" and ?l' = "fm_str (svc_Annotations service) LocalDiscoveryAnnotation"
  have pre: "subs_pre ?ns (locals ?l) (known cs (?old @ filter (\<lambda>i. i \<notin> set ?new) [])) (fs_subscribers fs) st"
    using ok by (simp add: fs_ok_def)
  obtain subs1 st1 where 1: "each_of (\<lambda>i (subs, st). if i \<in> set ?old then Some (subs, st)
        else each_sub (remoteDiscoverySubscribe env cs ?ns i) subs st) ?new (fs_subscribers fs, st) = Some (subs1, st1)"
    and s1: "subs_step ?ns (locals ?l) (known cs (?old @ ?new)) (fs_subscribers fs) st subs1 st1"
    using subscribe_loop [OF dist remoteDiscoveryIDs_ok pre, of env] by auto
  have "cs_Get cs (rd_cluster i) \<noteq> None \<longleftrightarrow> i |\<in>| known cs (?old @ ?new)" if "i \<in> set ?old" for i
    using that by (simp only: known_simps) simp
  moreover have "known cs (?old @ ?new) |-| fset_of_list (filter (\<lambda>i. i \<notin> set ?new) ?old) = known cs ?new"
    by (intro fset_eqI) (auto simp: fset_of_list_elem)
  ultimately obtain subs2 st2 where 2: "each_of (\<lambda>i (subs, st). if i \<in> set ?new then Some (subs, st)
        else each_sub (remoteDiscoveryUnsubscribe cs i) subs st) ?old (subs1, st1) = Some (subs2, st2)"
    and s2: "subs_step ?ns (locals ?l) (known cs ?new) subs1 st1 subs2 st2"
    using unsubscribe_loop_subs [OF _ subs_step_pre [OF s1], of ?old cs ?new] ok unfolding fs_ok_def by auto
  obtain subs3 st3 where 3: "(if ?l \<noteq> ?l' then each_sub (update_local env ?ns ?l ?l') subs2 st2 else Some (subs2, st2)) = Some (subs3, st3)"
    and s3: "subs_step ?ns (locals ?l') (known cs ?new) subs2 st2 subs3 st3"
    using each_sub_step [where f = "update_local env ?ns ?l ?l'" and R' = "known cs ?new",
        OF update_local_step subs_step_pre [OF s2]]
      subs_step_refl [OF subs_step_pre [OF s2]] by (cases "?l = ?l'") auto
  have s: "subs_step ?ns (locals ?l') (known cs ?new) (fs_subscribers fs) st subs3 st3"
    using subs_step_trans [OF subs_step_trans [OF s1 s2] s3] .
  let ?fs = "fs\<lparr>remoteDiscovery := ?new, localDiscovery := ?l', fs_subscribers := subs3\<rparr>"
  have "fs_update env cs fs service st = Some (?fs, st3)" using 1 2 3 by (simp add: fs_update_def Let_def)
  moreover have "fs_ok cs ?fs st3" using subs_step_pre [OF s] dist remoteDiscoveryIDs_ok by (simp add: fs_ok_def)
  moreover have "fs_ends ?fs = fs_ends fs" "fd_ended st3 = fd_ended st" "fed_frame (fs_ends fs) st st3"
    using s ends_eq [of subs3 "fs_subscribers fs"] by (simp_all add: subs_step_def fs_ends_def)
  ultimately show ?thesis by (intro exI [of _ ?fs] exI [of _ st3]) simp
qed

definition no_open :: "nat \<Rightarrow> fed_state \<Rightarrow> bool" where
  "no_open e st \<longleftrightarrow> (\<forall>t ti. ti_end ti = e \<longrightarrow> t_state st t \<noteq> TOpen ti)"

lemma sub_lookup_empty: "doms {||} {||} sub \<Longrightarrow> sub_lookup sub tgt = None"
  by (cases tgt) (auto simp: doms_def fmdom_notD)

lemma sub_inv_empty: "doms {||} {||} sub \<Longrightarrow> sub_inv ns st sub \<longleftrightarrow> no_open (fss_endStream sub) st"
  by (auto simp: sub_inv_def no_open_def sub_lookup_empty)

lemma no_open_frame: "no_open e st \<Longrightarrow> fed_frame E st st' \<Longrightarrow> e \<notin> E \<Longrightarrow> no_open e st'"
  unfolding no_open_def fed_frame_def by metis

lemma subscribe_ids:
  assumes "distinct ids" "list_all rd_ok ids" "sub_pre ns L R sub st" "\<And>i. i \<in> set ids \<Longrightarrow> i |\<notin>| R"
  shows "\<exists>sub' st'. each_of (\<lambda>i (sub, st). remoteDiscoverySubscribe env cs ns i sub st) ids (sub, st) = Some (sub', st') \<and>
    sub_step ns L (R |\<union>| known cs ids) sub st sub' st'"
  using assms
proof (induction ids arbitrary: R sub st)
  case Nil
  then show ?case by (simp add: sub_step_refl)
next
  case (Cons i ids)
  let ?R = "if cs_Get cs (rd_cluster i) = None then R else finsert i R"
  obtain sub1 st1 where 1: "remoteDiscoverySubscribe env cs ns i sub st = Some (sub1, st1)"
    and s1: "sub_step ns L ?R sub st sub1 st1"
    using remoteDiscoverySubscribe_step [OF Cons.prems(3), of i env cs] Cons.prems(2,4) by auto
  have "j |\<notin>| ?R" if "j \<in> set ids" for j using Cons.prems(1) Cons.prems(4) [of j] that by auto
  with Cons.prems(1,2) obtain sub2 st2
    where 2: "each_of (\<lambda>i (sub, st). remoteDiscoverySubscribe env cs ns i sub st) ids (sub1, st1) = Some (sub2, st2)"
      and s2: "sub_step ns L (?R |\<union>| known cs ids) sub1 st1 sub2 st2"
    using Cons.IH [OF _ _ sub_step_pre [OF s1]] by auto
  have "?R |\<union>| known cs ids = R |\<union>| known cs (i # ids)" by (intro fset_eqI) auto
  with 1 2 sub_step_trans [OF s1 s2] show ?case by auto
qed

lemma fs_subscribe_ok:
  assumes ok: "fs_ok cs fs st" and fresh: "e \<notin> fs_ends fs" "no_open e st"
  shows "\<exists>fs' st'. fs_subscribe env cs fs port node inst stream e st = Some (fs', st') \<and> fs_ok cs fs' st' \<and>
    fs_namespace fs' = fs_namespace fs \<and> remoteDiscovery fs' = remoteDiscovery fs \<and>
    localDiscovery fs' = localDiscovery fs \<and> fs_ends fs' = insert e (fs_ends fs) \<and> fd_ended st' = fd_ended st \<and>
    fed_frame {e} st st'"
proof -
  let ?ns = "fs_namespace fs" and ?l = "localDiscovery fs" and ?ids = "remoteDiscovery fs" and ?st = "fed_log [StreamStart stream] st"
  let ?sub = "\<lparr>fss_port = port, fss_nodeName = node, fss_instanceID = inst, localTranslators = fmempty,
    remoteTranslators = fmempty, fss_stream = stream, fss_endStream = e\<rparr>"
  have ts: "t_state ?st = t_state st" by (simp add: fun_eq_iff t_state_log)
  have doms: "doms {||} {||} ?sub" by (simp add: doms_def)
  have "states_ok ?st" using ok by (simp add: fs_ok_def subs_pre_def states_ok_def ts)
  moreover have "no_open e ?st" using fresh(2) by (simp add: no_open_def ts)
  ultimately have pre: "sub_pre ?ns {||} {||} ?sub ?st"
    using doms sub_inv_empty [OF doms, of ?ns ?st] by (simp add: sub_pre_def)
  have "distinct ?ids" "list_all rd_ok ?ids" using ok by (simp_all add: fs_ok_def)
  from subscribe_ids [OF this pre, of env cs] obtain sub1 st1
    where 1: "each_of (\<lambda>i (sub, st). remoteDiscoverySubscribe env cs ?ns i sub st) ?ids (?sub, ?st) = Some (sub1, st1)"
      and s1: "sub_step ?ns {||} (known cs ?ids) ?sub ?st sub1 st1" by auto
  obtain sub2 st2 where 2: "(if ?l \<noteq> [] then localDiscoverySubscribe env ?ns ?l sub1 st1 else Some (sub1, st1)) = Some (sub2, st2)"
    and s2: "sub_step ?ns (locals ?l) (known cs ?ids) sub1 st1 sub2 st2"
    using localDiscoverySubscribe_step [OF sub_step_pre [OF s1], of ?l env] sub_step_refl [OF sub_step_pre [OF s1]]
    by (cases "?l = []") (auto simp: locals_def)
  note s = sub_step_trans [OF s1 s2]
  let ?fs = "fs\<lparr>fs_subscribers := fs_subscribers fs @ [sub2]\<rparr>"
  have e: "fss_endStream sub2 = e" and fr: "fed_frame {e} st st2" using s by (simp_all add: sub_step_def fed_frame_def ts)
  have "sub_inv ?ns st2 sub" if "sub \<in> set (fs_subscribers fs)" for sub
    by (rule sub_inv_frame [OF _ fr]) (use ok fresh(1) that in \<open>auto simp: fs_ok_def subs_pre_def fs_ends_def\<close>)
  with ok s e fresh(1) have "fs_ok cs ?fs st2"
    by (simp add: fs_ok_def subs_pre_def sub_step_def fs_ends_def)
  moreover have "fs_subscribe env cs fs port node inst stream e st = Some (?fs, st2)"
    using 1 2 by (simp add: fs_subscribe_def Let_def)
  moreover have "fd_ended st2 = fd_ended st" using s by (simp add: sub_step_def)
  ultimately show ?thesis using e fr by (intro exI [of _ ?fs] exI [of _ st2]) (simp add: fs_ends_def)
qed

section \<open>Leaving\<close>

text \<open>What is left of a subscriber that has gone: no open translator; its channel is closed if \<open>X\<close> says so.\<close>

definition sub_gone :: "(nat \<Rightarrow> nat fset) \<Rightarrow> federatedServiceSubscriber \<Rightarrow> fed_state \<Rightarrow> fed_state \<Rightarrow> bool" where
  "sub_gone X sub st st' \<longleftrightarrow> states_ok st' \<and> no_open (fss_endStream sub) st' \<and>
     fd_ended st' = X (fss_endStream sub) |\<union>| fd_ended st \<and> fed_frame {fss_endStream sub} st st'"

lemma each_of_subs:
  assumes step: "\<And>sub st. sub_pre ns L R sub st \<Longrightarrow> fss_endStream sub |\<notin>| fd_ended st \<Longrightarrow>
      \<exists>st'. f sub st = Some st' \<and> sub_gone X sub st st'"
    and X: "\<And>e. fset (X e) \<subseteq> {e}"
    and pre: "subs_pre ns L R subs st" "\<forall>sub \<in> set subs. fss_endStream sub |\<notin>| fd_ended st"
  shows "\<exists>st'. each_of f subs st = Some st' \<and> states_ok st' \<and> (\<forall>sub \<in> set subs. no_open (fss_endStream sub) st') \<and>
    fset (fd_ended st') \<subseteq> fss_endStream ` set subs \<union> fset (fd_ended st) \<and> fed_frame (fss_endStream ` set subs) st st'"
  using pre
proof (induction subs arbitrary: st)
  case Nil
  then show ?case by (simp add: subs_pre_def)
next
  case (Cons sub subs)
  have pre: "sub_pre ns L R sub st" and new: "fss_endStream sub |\<notin>| fd_ended st"
    and dist: "fss_endStream sub \<notin> fss_endStream ` set subs"
    using Cons.prems by (simp_all add: subs_pre_def sub_pre_def)
  obtain st1 where 1: "f sub st = Some st1" and g: "sub_gone X sub st st1"
    using step [OF pre new] by (elim exE conjE) (rule that)
  have fr1: "fed_frame {fss_endStream sub} st st1" and end1: "fd_ended st1 = X (fss_endStream sub) |\<union>| fd_ended st"
    using g by (simp_all add: sub_gone_def)
  have "sub_inv ns st1 s" if s: "s \<in> set subs" for s
  proof (rule sub_inv_frame [OF _ fr1])
    show "sub_inv ns st s" using Cons.prems s by (simp add: subs_pre_def)
    show "fss_endStream s \<notin> {fss_endStream sub}" using s dist by (metis imageI singletonD)
  qed
  then have pre1: "subs_pre ns L R subs st1" using Cons.prems g by (simp add: subs_pre_def sub_gone_def)
  have "fss_endStream s |\<notin>| fd_ended st1" if s: "s \<in> set subs" for s
  proof -
    have "fss_endStream s \<noteq> fss_endStream sub" using s dist by (metis imageI)
    with X [of "fss_endStream sub"] Cons.prems(2) s show ?thesis by (auto simp: end1)
  qed
  with Cons.IH [OF pre1] obtain st2 where 2: "each_of f subs st1 = Some st2" "states_ok st2"
    "\<forall>sub \<in> set subs. no_open (fss_endStream sub) st2"
    "fset (fd_ended st2) \<subseteq> fss_endStream ` set subs \<union> fset (fd_ended st1)" "fed_frame (fss_endStream ` set subs) st1 st2"
    by blast
  have "no_open (fss_endStream sub) st2"
    using no_open_frame [OF _ 2(5) dist] g by (simp add: sub_gone_def)
  moreover have "fset (fd_ended st2) \<subseteq> insert (fss_endStream sub) (fss_endStream ` set subs) \<union> fset (fd_ended st)"
    using 2(4) X [of "fss_endStream sub"] unfolding end1 by auto
  moreover have "fed_frame (insert (fss_endStream sub) (fss_endStream ` set subs)) st st2"
    using fed_frame_trans [OF fr1 2(5)] by simp
  ultimately show ?case using 1 2(1-3) by simp
qed

lemma unsubscribe_ids:
  assumes "distinct ids" "sub_pre ns L R sub st" "\<And>i. i \<in> set ids \<Longrightarrow> i |\<in>| R"
    and "\<And>i. i |\<in>| R \<Longrightarrow> cs_Get cs (rd_cluster i) \<noteq> None"
  shows "\<exists>sub' st'. each_of (\<lambda>i (sub, st). remoteDiscoveryUnsubscribe cs i sub st) ids (sub, st) = Some (sub', st') \<and>
    sub_step ns L (R |-| fset_of_list ids) sub st sub' st'"
  using assms
proof (induction ids arbitrary: R sub st)
  case Nil
  then show ?case by (simp add: sub_step_refl)
next
  case (Cons i ids)
  have "cs_Get cs (rd_cluster i) \<noteq> None \<longleftrightarrow> i |\<in>| R" using Cons.prems(3,4) by (metis list.set_intros(1))
  from remoteDiscoveryUnsubscribe_step [OF Cons.prems(2) this] obtain sub1 st1
    where 1: "remoteDiscoveryUnsubscribe cs i sub st = Some (sub1, st1)"
      and s1: "sub_step ns L (R |-| {|i|}) sub st sub1 st1" by blast
  have "j |\<in>| R |-| {|i|}" if "j \<in> set ids" for j using Cons.prems(1) Cons.prems(3) [of j] that by auto
  moreover have "cs_Get cs (rd_cluster j) \<noteq> None" if "j |\<in>| R |-| {|i|}" for j
    using Cons.prems(4) that by (meson fminusE)
  ultimately obtain sub2 st2
    where 2: "each_of (\<lambda>i (sub, st). remoteDiscoveryUnsubscribe cs i sub st) ids (sub1, st1) = Some (sub2, st2)"
      and s2: "sub_step ns L ((R |-| {|i|}) |-| fset_of_list ids) sub1 st1 sub2 st2"
    using Cons.IH [OF _ sub_step_pre [OF s1]] Cons.prems(1) by (metis distinct.simps(2))
  have "(R |-| {|i|}) |-| fset_of_list ids = R |-| fset_of_list (i # ids)" by auto
  with 1 2 sub_step_trans [OF s1 s2] show ?case by auto
qed

lemma unsubscribe_names:
  assumes "sub_pre ns L R sub st"
  shows "\<exists>sub' st'. each_of (\<lambda>n (sub, st). localDiscoveryUnsubscribe ns n sub st) names (sub, st) = Some (sub', st') \<and>
    sub_step ns (L |-| fset_of_list names) R sub st sub' st'"
  using assms
proof (induction names arbitrary: L sub st)
  case Nil
  then show ?case by (simp add: sub_step_refl)
next
  case (Cons n names)
  from localDiscoveryUnsubscribe_step [OF Cons.prems, of n] obtain sub1 st1
    where 1: "localDiscoveryUnsubscribe ns n sub st = Some (sub1, st1)"
      and s1: "sub_step ns (L |-| {|n|}) R sub st sub1 st1" by blast
  from Cons.IH [OF sub_step_pre [OF s1]] obtain sub2 st2
    where 2: "each_of (\<lambda>n (sub, st). localDiscoveryUnsubscribe ns n sub st) names (sub1, st1) = Some (sub2, st2)"
      and s2: "sub_step ns ((L |-| {|n|}) |-| fset_of_list names) R sub1 st1 sub2 st2" by blast
  have "(L |-| {|n|}) |-| fset_of_list names = L |-| fset_of_list (n # names)" by auto
  with 1 2 sub_step_trans [OF s1 s2] show ?case by auto
qed

lemma fset_of_list_eq: "set xs = fset S \<Longrightarrow> fset_of_list xs = S"
  by (metis fset_inject fset_of_list.rep_eq)

lemma unsubscribe_sub_gone:
  assumes env: "fed_env_ok env" and pre: "sub_pre ns L R sub st"
    and R: "\<And>i. i |\<in>| R \<Longrightarrow> cs_Get cs (rd_cluster i) \<noteq> None"
  shows "\<exists>st'. unsubscribe_sub env cs ns sub st = Some st' \<and> sub_gone (\<lambda>_. {||}) sub st st'"
proof -
  have dR: "fmdom (remoteTranslators sub) = R" using pre by (simp add: sub_pre_def doms_def)
  have ids: "distinct (fe_ids env R)" "fset_of_list (fe_ids env R) = R" "set (fe_ids env R) = fset R"
    using env by (simp_all add: fed_env_ok_def fset_of_list_eq)
  obtain sub1 st1 where 1: "each_of (\<lambda>i (sub, st). remoteDiscoveryUnsubscribe cs i sub st) (fe_ids env R) (sub, st) = Some (sub1, st1)"
    and s1: "sub_step ns L {||} sub st sub1 st1"
    using unsubscribe_ids [OF ids(1) pre _ R] ids(2,3) by auto
  have dL: "fmdom (localTranslators sub1) = L" using s1 by (simp add: sub_step_def doms_def)
  have names: "fset_of_list (fe_names env L) = L" using env by (simp add: fed_env_ok_def fset_of_list_eq)
  obtain sub2 st2 where 2: "each_of (\<lambda>n (sub, st). localDiscoveryUnsubscribe ns n sub st) (fe_names env L) (sub1, st1) = Some (sub2, st2)"
    and s2: "sub_step ns {||} {||} sub1 st1 sub2 st2"
    using unsubscribe_names [OF sub_step_pre [OF s1], of "fe_names env L"] by (auto simp: names)
  note s = sub_step_trans [OF s1 s2]
  let ?st = "fed_log [StreamStop (fss_stream sub)] st2"
  have ts: "t_state ?st = t_state st2" by (simp add: fun_eq_iff t_state_log)
  have "no_open (fss_endStream sub) st2" using s sub_inv_empty [of sub2 ns st2] by (simp add: sub_step_def)
  then have "sub_gone (\<lambda>_. {||}) sub st ?st"
    using s by (simp add: sub_gone_def sub_step_def no_open_def states_ok_def fed_frame_def ts)
  with 1 2 dR dL show ?thesis by (simp add: unsubscribe_sub_def)
qed

text \<open>\<open>delete\<close> does not update the maps of the subscriber; the loop is followed with a copy that is.\<close>

lemma stop_ids:
  assumes "distinct ids" "sub_pre ns L R g st" "\<And>i. i \<in> set ids \<Longrightarrow> i |\<in>| R"
    and "\<And>i. i |\<in>| R \<Longrightarrow> cs_Get cs (rd_cluster i) \<noteq> None"
    and "\<And>i. i |\<in>| R \<Longrightarrow> fmlookup (remoteTranslators sub) i = fmlookup (remoteTranslators g) i"
    and "fss_endStream g = fss_endStream sub" "fss_port g = fss_port sub" "fss_instanceID g = fss_instanceID sub"
  shows "\<exists>g' st'. each_of (stop_remote cs sub) ids st = Some st' \<and> sub_step ns L (R |-| fset_of_list ids) g st g' st' \<and>
    localTranslators g' = localTranslators g \<and> fss_port g' = fss_port g \<and> fss_instanceID g' = fss_instanceID g"
  using assms
proof (induction ids arbitrary: R g st)
  case Nil
  then show ?case using sub_step_refl by (auto intro!: exI [of _ g])
next
  case (Cons i ids)
  have iR: "i |\<in>| R" using Cons.prems(3) by simp
  then obtain t where t: "fmlookup (remoteTranslators g) i = Some t"
    using Cons.prems(2) by (auto simp: sub_pre_def doms_def fmlookup_dom_iff)
  then have own: "sub_lookup g (RemoteT i) = Some t" by simp
  let ?g = "g\<lparr>remoteTranslators := fmdrop i (remoteTranslators g)\<rparr>"
  let ?st = "fed_log [WatcherUnsubscribe (Some (rd_cluster i)) (rd_service i) (fss_port sub) (fss_instanceID sub) t,
      TranslatorStop t] st"
  have cls: "closed t st ?st"
    using sub_inv_open [OF _ own, of ns st] Cons.prems(2,7,8) by (intro closed_log(2)) (simp add: sub_pre_def)
  have "states_ok ?st \<and> sub_inv ns ?st ?g \<and> fed_frame {fss_endStream g} st ?st"
    by (rule sub_close [where tgt = "RemoteT i", OF _ _ cls own])
       (use Cons.prems(2) in \<open>auto simp: sub_pre_def intro: target_info_same\<close>, case_tac tgt', auto)
  with cls Cons.prems(2) have s1: "sub_step ns L (R |-| {|i|}) g st ?g ?st"
    by (auto simp: sub_step_def sub_pre_def doms_def closed_def)
  have stop: "stop_remote cs sub i st = Some ?st"
    using Cons.prems(4) [OF iR] Cons.prems(5) [OF iR] t by (auto simp: stop_remote_def split: option.splits)
  have "\<exists>g' st'. each_of (stop_remote cs sub) ids ?st = Some st' \<and>
      sub_step ns L ((R |-| {|i|}) |-| fset_of_list ids) ?g ?st g' st' \<and>
      localTranslators g' = localTranslators ?g \<and> fss_port g' = fss_port ?g \<and> fss_instanceID g' = fss_instanceID ?g"
  proof (rule Cons.IH [OF _ sub_step_pre [OF s1]])
    show "distinct ids" using Cons.prems(1) by simp
    show "j |\<in>| R |-| {|i|}" if "j \<in> set ids" for j using Cons.prems(1) Cons.prems(3) [of j] that by auto
    show "cs_Get cs (rd_cluster j) \<noteq> None" if "j |\<in>| R |-| {|i|}" for j using Cons.prems(4) that by (meson fminusE)
    show "fmlookup (remoteTranslators sub) j = fmlookup (remoteTranslators ?g) j" if "j |\<in>| R |-| {|i|}" for j
      using Cons.prems(5) [of j] that by auto
  qed (use Cons.prems(6-8) in simp_all)
  then obtain g' st' where 2: "each_of (stop_remote cs sub) ids ?st = Some st'"
    and s2: "sub_step ns L ((R |-| {|i|}) |-| fset_of_list ids) ?g ?st g' st'"
    and same: "localTranslators g' = localTranslators g" "fss_port g' = fss_port g" "fss_instanceID g' = fss_instanceID g"
    by auto
  have "(R |-| {|i|}) |-| fset_of_list ids = R |-| fset_of_list (i # ids)" by auto
  with stop 2 sub_step_trans [OF s1 s2] same show ?case by auto
qed

lemma stop_names:
  assumes "distinct names" "sub_pre ns L R g st" "\<And>n. n \<in> set names \<Longrightarrow> n |\<in>| L"
    and "\<And>n. n |\<in>| L \<Longrightarrow> fmlookup (localTranslators sub) n = fmlookup (localTranslators g) n"
    and "fss_endStream g = fss_endStream sub" "fss_port g = fss_port sub" "fss_instanceID g = fss_instanceID sub"
  shows "\<exists>g' st'. each_of (stop_local ns sub) names st = Some st' \<and> sub_step ns (L |-| fset_of_list names) R g st g' st'"
  using assms
proof (induction names arbitrary: L g st)
  case Nil
  then show ?case using sub_step_refl [OF Nil.prems(2)] by auto
next
  case (Cons n names)
  have nL: "n |\<in>| L" using Cons.prems(3) by simp
  then obtain t where t: "fmlookup (localTranslators g) n = Some t"
    using Cons.prems(2) by (auto simp: sub_pre_def doms_def fmlookup_dom_iff)
  then have own: "sub_lookup g (LocalT n) = Some t" by simp
  let ?g = "g\<lparr>localTranslators := fmdrop n (localTranslators g)\<rparr>"
  let ?st = "fed_log [WatcherUnsubscribe None (local_id ns n) (fss_port sub) (fss_instanceID sub) t, TranslatorStop t] st"
  have cls: "closed t st ?st"
    using sub_inv_open [OF _ own, of ns st] Cons.prems(2,6,7) by (intro closed_log(2)) (simp add: sub_pre_def)
  have "states_ok ?st \<and> sub_inv ns ?st ?g \<and> fed_frame {fss_endStream g} st ?st"
    by (rule sub_close [where tgt = "LocalT n", OF _ _ cls own])
       (use Cons.prems(2) in \<open>auto simp: sub_pre_def intro: target_info_same\<close>, case_tac tgt', auto)
  with cls Cons.prems(2) have s1: "sub_step ns (L |-| {|n|}) R g st ?g ?st"
    by (auto simp: sub_step_def sub_pre_def doms_def closed_def)
  have stop: "stop_local ns sub n st = Some ?st" using Cons.prems(4) [OF nL] t by (simp add: stop_local_def)
  have "\<exists>g' st'. each_of (stop_local ns sub) names ?st = Some st' \<and>
      sub_step ns ((L |-| {|n|}) |-| fset_of_list names) R ?g ?st g' st'"
  proof (rule Cons.IH [OF _ sub_step_pre [OF s1]])
    show "distinct names" using Cons.prems(1) by simp
    show "m |\<in>| L |-| {|n|}" if "m \<in> set names" for m using Cons.prems(1) Cons.prems(3) [of m] that by auto
    show "fmlookup (localTranslators sub) m = fmlookup (localTranslators ?g) m" if "m |\<in>| L |-| {|n|}" for m
      using Cons.prems(4) [of m] that by auto
  qed (use Cons.prems(5-7) in simp_all)
  then obtain g' st' where 2: "each_of (stop_local ns sub) names ?st = Some st'"
    and s2: "sub_step ns ((L |-| {|n|}) |-| fset_of_list names) R ?g ?st g' st'" by auto
  have "(L |-| {|n|}) |-| fset_of_list names = L |-| fset_of_list (n # names)" by auto
  with stop 2 sub_step_trans [OF s1 s2] show ?case by auto
qed

lemma delete_sub_gone:
  assumes env: "fed_env_ok env" and pre: "sub_pre ns L R sub st"
    and R: "\<And>i. i |\<in>| R \<Longrightarrow> cs_Get cs (rd_cluster i) \<noteq> None" and e: "fss_endStream sub |\<notin>| fd_ended st"
  shows "\<exists>st'. delete_sub env cs ns sub st = Some st' \<and> sub_gone (\<lambda>e. {|e|}) sub st st'"
proof -
  have d: "fmdom (remoteTranslators sub) = R" "fmdom (localTranslators sub) = L"
    using pre by (simp_all add: sub_pre_def doms_def)
  have ids: "distinct (fe_ids env R)" "fset_of_list (fe_ids env R) = R" "set (fe_ids env R) = fset R"
    and names: "distinct (fe_names env L)" "fset_of_list (fe_names env L) = L" "set (fe_names env L) = fset L"
    using env by (simp_all add: fed_env_ok_def fset_of_list_eq)
  obtain g1 st1 where 1: "each_of (stop_remote cs sub) (fe_ids env R) st = Some st1"
    and s1: "sub_step ns L {||} sub st g1 st1"
    and same: "localTranslators g1 = localTranslators sub" "fss_port g1 = fss_port sub" "fss_instanceID g1 = fss_instanceID sub"
    using stop_ids [OF ids(1) pre _ R, of sub] ids(2,3) by auto
  obtain g2 st2 where 2: "each_of (stop_local ns sub) (fe_names env L) st1 = Some st2"
    and s2: "sub_step ns {||} {||} g1 st1 g2 st2"
    using stop_names [OF names(1) sub_step_pre [OF s1], of sub] names(2,3) same s1 by (auto simp: sub_step_def)
  note s = sub_step_trans [OF s1 s2]
  let ?st = "(fed_log [EndStreamClose (fss_endStream sub)] st2)\<lparr>fd_ended := finsert (fss_endStream sub) (fd_ended st2)\<rparr>"
  have ts: "t_state ?st = t_state st2" by (simp add: fun_eq_iff t_state_log)
  have "no_open (fss_endStream sub) st2" using s sub_inv_empty [of g2 ns st2] by (simp add: sub_step_def)
  then have "sub_gone (\<lambda>e. {|e|}) sub st ?st"
    using s ts by (simp add: sub_gone_def sub_step_def no_open_def states_ok_def fed_frame_def)
  with 1 2 d e s show ?thesis by (simp add: delete_sub_def close_endStream_def sub_step_def)
qed

lemma fs_delete_ok:
  assumes env: "fed_env_ok env" and ok: "fs_ok cs fs st" and e: "\<And>e. e \<in> fs_ends fs \<Longrightarrow> e |\<notin>| fd_ended st"
  shows "\<exists>st'. fs_delete env cs fs st = Some st' \<and> states_ok st' \<and> (\<forall>e \<in> fs_ends fs. no_open e st') \<and>
    fset (fd_ended st') \<subseteq> fs_ends fs \<union> fset (fd_ended st) \<and> fed_frame (fs_ends fs) st st'"
proof -
  let ?R = "known cs (remoteDiscovery fs)"
  have R: "cs_Get cs (rd_cluster i) \<noteq> None" if "i |\<in>| ?R" for i using that by (simp only: known_simps) simp
  let ?ns = "fs_namespace fs" and ?L = "locals (localDiscovery fs)"
  have step: "\<exists>st'. delete_sub env cs ?ns sub st = Some st' \<and> sub_gone (\<lambda>e. {|e|}) sub st st'"
    if "sub_pre ?ns ?L ?R sub st" "fss_endStream sub |\<notin>| fd_ended st" for sub st
    using delete_sub_gone [OF env that(1) R that(2)] .
  have X: "fset {|e|} \<subseteq> {e}" for e :: nat by simp
  have "subs_pre ?ns ?L ?R (fs_subscribers fs) st" using ok by (simp add: fs_ok_def)
  moreover have "\<forall>sub \<in> set (fs_subscribers fs). fss_endStream sub |\<notin>| fd_ended st" using e by (simp add: fs_ends_def)
  ultimately obtain st' where "each_of (delete_sub env cs ?ns) (fs_subscribers fs) st = Some st'" "states_ok st'"
    "\<forall>sub \<in> set (fs_subscribers fs). no_open (fss_endStream sub) st'"
    "fset (fd_ended st') \<subseteq> fss_endStream ` set (fs_subscribers fs) \<union> fset (fd_ended st)"
    "fed_frame (fss_endStream ` set (fs_subscribers fs)) st st'"
    using each_of_subs [where ns = ?ns and L = ?L and R = ?R and X = "\<lambda>e. {|e|}", OF step X] by blast
  then show ?thesis by (simp add: fs_delete_def fs_ends_def)
qed

lemma fs_unsubscribe_ok:
  assumes env: "fed_env_ok env" and ok: "fs_ok cs fs st" and e: "\<And>e. e \<in> fs_ends fs \<Longrightarrow> e |\<notin>| fd_ended st"
  shows "\<exists>fs' st'. fs_unsubscribe env cs fs stream st = Some (fs', st') \<and> fs_ok cs fs' st' \<and>
    fs_namespace fs' = fs_namespace fs \<and> remoteDiscovery fs' = remoteDiscovery fs \<and>
    localDiscovery fs' = localDiscovery fs \<and> fs_ends fs' \<subseteq> fs_ends fs \<and> fset (fd_ended st') \<subseteq> fset (fd_ended st) \<union> (fs_ends fs - fs_ends fs') \<and>
    (\<forall>e \<in> fs_ends fs - fs_ends fs'. no_open e st') \<and> fed_frame (fs_ends fs - fs_ends fs') st st'"
proof -
  let ?R = "known cs (remoteDiscovery fs)" and ?L = "locals (localDiscovery fs)" and ?ns = "fs_namespace fs"
  let ?out = "filter (\<lambda>sub. fss_stream sub = stream) (fs_subscribers fs)"
  let ?in = "filter (\<lambda>sub. fss_stream sub \<noteq> stream) (fs_subscribers fs)"
  let ?fs = "fs\<lparr>fs_subscribers := ?in\<rparr>"
  have R: "cs_Get cs (rd_cluster i) \<noteq> None" if "i |\<in>| ?R" for i using that by (simp only: known_simps) simp
  have step: "\<exists>st'. unsubscribe_sub env cs ?ns sub st = Some st' \<and> sub_gone (\<lambda>_. {||}) sub st st'"
    if "sub_pre ?ns ?L ?R sub st" "fss_endStream sub |\<notin>| fd_ended st" for sub st
    using unsubscribe_sub_gone [OF env that(1) R] .
  have pre: "subs_pre ?ns ?L ?R (fs_subscribers fs) st" using ok by (simp add: fs_ok_def)
  then have inj: "inj_on fss_endStream (set (fs_subscribers fs))" by (simp add: subs_pre_def distinct_map)
  have ends: "fss_endStream ` set ?out = fs_ends fs - fs_ends ?fs"
    using inj by (auto simp: fs_ends_def inj_on_def)
  have X: "fset {||} \<subseteq> {e}" for e :: nat by simp
  have "subs_pre ?ns ?L ?R ?out st" using pre by (auto simp: subs_pre_def distinct_map_filter)
  moreover have "\<forall>sub \<in> set ?out. fss_endStream sub |\<notin>| fd_ended st" using e by (simp add: fs_ends_def)
  ultimately obtain st' where 1: "each_of (unsubscribe_sub env cs ?ns) ?out st = Some st'" and ok': "states_ok st'"
    and gone: "\<forall>sub \<in> set ?out. no_open (fss_endStream sub) st'"
    and ended: "fset (fd_ended st') \<subseteq> fss_endStream ` set ?out \<union> fset (fd_ended st)"
    and fr: "fed_frame (fss_endStream ` set ?out) st st'"
    using each_of_subs [where ns = ?ns and L = ?L and R = ?R and X = "\<lambda>_. {||}", OF step X] by blast
  have "sub_inv ?ns st' sub" if "sub \<in> set ?in" for sub
  proof (rule sub_inv_frame [OF _ fr])
    show "sub_inv ?ns st sub" using pre that by (simp add: subs_pre_def)
    show "fss_endStream sub \<notin> fss_endStream ` set ?out" using that unfolding ends by (simp add: fs_ends_def)
  qed
  with pre ok' ok have "fs_ok cs ?fs st'" by (auto simp: fs_ok_def subs_pre_def distinct_map_filter)
  moreover have "fs_unsubscribe env cs fs stream st = Some (?fs, st')" using 1 by (simp add: fs_unsubscribe_def)
  moreover have "fs_ends ?fs \<subseteq> fs_ends fs" by (auto simp: fs_ends_def)
  moreover have "\<forall>e \<in> fs_ends fs - fs_ends ?fs. no_open e st'" using gone unfolding ends [symmetric] by blast
  ultimately show ?thesis using ended fr unfolding ends by (intro exI [of _ ?fs] exI [of _ st']) auto
qed

section \<open>All federated services\<close>

definition ends_at :: "fsw_services \<Rightarrow> ServiceID \<Rightarrow> nat set" where
  "ends_at svcs i = (case fmlookup svcs i of None \<Rightarrow> {} | Some fs \<Rightarrow> fs_ends fs)"

text \<open>
  \<open>used\<close> are the end-of-stream channels seen so far. Every open translator belongs to a
  subscriber of a federated service.
\<close>

definition fed_inv :: "ClusterStore \<Rightarrow> nat set \<Rightarrow> fsw_services \<Rightarrow> fed_state \<Rightarrow> bool" where
  "fed_inv cs used svcs st \<longleftrightarrow> states_ok st \<and> fset (fd_ended st) \<subseteq> used \<and>
     (\<forall>i fs. fmlookup svcs i = Some fs \<longrightarrow> fs_ok cs fs st \<and> fs_namespace fs = Namespace i) \<and>
     (\<forall>i. ends_at svcs i \<subseteq> used \<and> ends_at svcs i \<inter> fset (fd_ended st) = {}) \<and>
     (\<forall>i j. i \<noteq> j \<longrightarrow> ends_at svcs i \<inter> ends_at svcs j = {}) \<and>
     (\<forall>t ti. t_state st t = TOpen ti \<longrightarrow> (\<exists>i. ti_end ti \<in> ends_at svcs i))"

lemma fs_ok_frame:
  assumes "fs_ok cs fs st" "fed_frame E st st'" "fs_ends fs \<inter> E = {}" "states_ok st'"
  shows "fs_ok cs fs st'"
proof -
  have "sub_inv (fs_namespace fs) st' sub" if "sub \<in> set (fs_subscribers fs)" for sub
    by (rule sub_inv_frame [OF _ assms(2)]) (use assms(1,3) that in \<open>auto simp: fs_ok_def subs_pre_def fs_ends_def\<close>)
  with assms(1,4) show ?thesis by (simp add: fs_ok_def subs_pre_def)
qed

lemma fed_inv_change:
  assumes inv: "fed_inv cs used svcs st" and same: "\<And>j. j \<noteq> i \<Longrightarrow> fmlookup svcs' j = fmlookup svcs j"
    and at: "\<And>fs. fmlookup svcs' i = Some fs \<Longrightarrow> fs_ok cs fs st' \<and> fs_namespace fs = Namespace i"
    and st': "states_ok st'" and ends: "ends_at svcs' i \<subseteq> ends_at svcs i \<union> N" and N: "N \<inter> used = {}"
    and ended: "fset (fd_ended st') \<subseteq> fset (fd_ended st) \<union> (ends_at svcs i - ends_at svcs' i)"
    and gone: "\<And>e. e \<in> (ends_at svcs i \<union> N) - ends_at svcs' i \<Longrightarrow> no_open e st'"
    and fr: "fed_frame (ends_at svcs i \<union> N) st st'"
  shows "fed_inv cs (used \<union> N) svcs' st'"
proof -
  have at_j: "ends_at svcs' j = ends_at svcs j" if "j \<noteq> i" for j using same [OF that] by (simp add: ends_at_def)
  have used: "ends_at svcs j \<subseteq> used" "ends_at svcs j \<inter> fset (fd_ended st) = {}" for j
    using inv by (simp_all add: fed_inv_def)
  have apart: "ends_at svcs j \<inter> (ends_at svcs i \<union> N) = {}" if "j \<noteq> i" for j
  proof -
    have "ends_at svcs j \<inter> ends_at svcs i = {}" using inv that unfolding fed_inv_def by blast
    with N used(1) [of j] show ?thesis by blast
  qed
  have old: "fset (fd_ended st) \<subseteq> used" using inv by (simp add: fed_inv_def)
  have "fs_ok cs fs st' \<and> fs_namespace fs = Namespace j" if j: "fmlookup svcs' j = Some fs" for j fs
  proof (cases "j = i")
    case True
    with at j show ?thesis by blast
  next
    case False
    with j same have fs: "fmlookup svcs j = Some fs" by simp
    then have "fs_ends fs \<inter> (ends_at svcs i \<union> N) = {}" using apart [OF False] by (simp add: ends_at_def)
    with inv fs st' show ?thesis using fs_ok_frame [OF _ fr] by (simp add: fed_inv_def)
  qed
  moreover have "ends_at svcs' j \<subseteq> used \<union> N" for j using ends used(1) [of j] at_j [of j] used(1) [of i] by (cases "j = i") auto
  moreover have "ends_at svcs' j \<inter> fset (fd_ended st') = {}" for j
  proof (cases "j = i")
    case True
    with ends ended used(2) [of i] N old show ?thesis by blast
  next
    case False
    with ended used(2) [of j] apart [OF False] at_j [OF False] show ?thesis by blast
  qed
  moreover have "ends_at svcs' j \<inter> ends_at svcs' k = {}" if jk: "j \<noteq> k" for j k
  proof -
    consider "j = i" "k \<noteq> i" | "j \<noteq> i" "k = i" | "j \<noteq> i" "k \<noteq> i" using jk by blast
    then show ?thesis
    proof cases
      case 1
      with apart [of k] ends at_j [of k] show ?thesis by auto
    next
      case 2
      with apart [of j] ends at_j [of j] show ?thesis by auto
    next
      case 3
      have "ends_at svcs j \<inter> ends_at svcs k = {}" using inv jk unfolding fed_inv_def by blast
      with 3 at_j show ?thesis by simp
    qed
  qed
  moreover have "\<exists>j. ti_end ti \<in> ends_at svcs' j" if t: "t_state st' t = TOpen ti" for t ti
  proof (cases "ti_end ti \<in> ends_at svcs i \<union> N")
    case True
    with gone t have "ti_end ti \<in> ends_at svcs' i" unfolding no_open_def by blast
    then show ?thesis by blast
  next
    case False
    with fr t have "t_state st t = TOpen ti" by (simp add: fed_frame_def)
    with inv obtain j where j: "ti_end ti \<in> ends_at svcs j" unfolding fed_inv_def by blast
    with False have "j \<noteq> i" by auto
    with j at_j show ?thesis by auto
  qed
  ultimately show ?thesis using st' ended old used(1) [of i] unfolding fed_inv_def by blast
qed

lemma fresh_no_open: "fed_inv cs used svcs st \<Longrightarrow> e \<notin> used \<Longrightarrow> no_open e st"
  unfolding fed_inv_def no_open_def by blast

lemma fed_invD:
  assumes "fed_inv cs used svcs st" "fmlookup svcs i = Some fs"
  shows "fs_ok cs fs st" "fs_namespace fs = Namespace i" "fs_ends fs \<subseteq> used"
    "\<And>e. e \<in> fs_ends fs \<Longrightarrow> e |\<notin>| fd_ended st" "ends_at svcs i = fs_ends fs"
proof -
  show e: "ends_at svcs i = fs_ends fs" using assms(2) by (simp add: ends_at_def)
  show "fs_ok cs fs st" "fs_namespace fs = Namespace i" using assms by (simp_all add: fed_inv_def)
  have "ends_at svcs i \<subseteq> used \<and> ends_at svcs i \<inter> fset (fd_ended st) = {}" using assms(1) by (simp add: fed_inv_def)
  then show "fs_ends fs \<subseteq> used" "\<And>e. e \<in> fs_ends fs \<Longrightarrow> e |\<notin>| fd_ended st" unfolding e by auto
qed

definition discovery :: "fsw_services \<Rightarrow> ServiceID \<Rightarrow> (string \<times> remoteDiscoveryID list) option" where
  "discovery svcs i = map_option (\<lambda>fs. (localDiscovery fs, remoteDiscovery fs)) (fmlookup svcs i)"

lemma fed_remove_ok:
  assumes env: "fed_env_ok env" and inv: "fed_inv cs used svcs st"
  shows "\<exists>svcs' st'. fed_remove env cs svcs st i = Some (svcs', st') \<and> fed_inv cs used svcs' st' \<and>
    (\<forall>j. discovery svcs' j = (if j = i then None else discovery svcs j))"
proof (cases "fmlookup svcs i")
  case None
  with inv show ?thesis by (auto simp: fed_remove_def discovery_def)
next
  case (Some fs)
  note D = fed_invD [OF inv Some]
  obtain st' where 1: "fs_delete env cs fs st = Some st'" "states_ok st'" "\<forall>e \<in> fs_ends fs. no_open e st'"
    "fset (fd_ended st') \<subseteq> fs_ends fs \<union> fset (fd_ended st)" "fed_frame (fs_ends fs) st st'"
    using fs_delete_ok [OF env D(1,4)] by blast
  have none: "ends_at (fmdrop i svcs) i = {}" by (simp add: ends_at_def)
  have "fed_inv cs (used \<union> {}) (fmdrop i svcs) st'"
    by (rule fed_inv_change [OF inv, where i = i]) (use 1 in \<open>auto simp: none D(5)\<close>)
  with 1(1) Some show ?thesis by (auto simp: fed_remove_def discovery_def)
qed

lemma fed_addService_ok:
  assumes env: "fed_env_ok env" and inv: "fed_inv cs used svcs st" and dist: "distinct (remoteDiscoveryIDs service)"
  shows "\<exists>svcs' st'. fed_addService env cs svcs st service = Some (svcs', st') \<and> fed_inv cs used svcs' st' \<and>
    (\<forall>j. discovery svcs' j = (if j = svc_ID service
       then if isFederatedService service
            then Some (fm_str (svc_Annotations service) LocalDiscoveryAnnotation, remoteDiscoveryIDs service) else None
       else discovery svcs j))"
proof (cases "isFederatedService service")
  case False
  with fed_remove_ok [OF env inv, of "svc_ID service"] show ?thesis by (simp add: fed_addService_def)
next
  case True
  let ?i = "svc_ID service"
  let ?fs = "case fmlookup svcs ?i of Some fs \<Rightarrow> fs | None \<Rightarrow> newFederatedService service"
  have "fs_ok cs ?fs st \<and> fs_namespace ?fs = Namespace ?i \<and> ends_at svcs ?i = fs_ends ?fs"
  proof (cases "fmlookup svcs ?i")
    case None
    have "states_ok st" using inv by (simp add: fed_inv_def)
    with None dist show ?thesis
      by (simp add: newFederatedService_def fs_ok_def subs_pre_def remoteDiscoveryIDs_ok svc_ID_def ends_at_def fs_ends_def)
  next
    case (Some fs)
    with fed_invD [OF inv Some] show ?thesis by simp
  qed
  then have ok: "fs_ok cs ?fs st" and ns: "fs_namespace ?fs = Namespace ?i" and ends: "ends_at svcs ?i = fs_ends ?fs"
    by blast+
  obtain fs' st' where 1: "fs_update env cs ?fs service st = Some (fs', st')" "fs_ok cs fs' st'"
    "fs_namespace fs' = fs_namespace ?fs" "remoteDiscovery fs' = remoteDiscoveryIDs service"
    "localDiscovery fs' = fm_str (svc_Annotations service) LocalDiscoveryAnnotation"
    "fs_ends fs' = fs_ends ?fs" "fd_ended st' = fd_ended st" "fed_frame (fs_ends ?fs) st st'"
    using fs_update_ok [OF ok dist, of env] by blast
  have st': "states_ok st'" using 1(2) by (simp add: fs_ok_def subs_pre_def)
  have at: "ends_at (fmupd ?i fs' svcs) ?i = fs_ends ?fs" by (simp add: ends_at_def 1(6))
  have "fed_inv cs (used \<union> {}) (fmupd ?i fs' svcs) st'"
    by (rule fed_inv_change [OF inv, where i = ?i]) (use 1 st' ns in \<open>simp_all add: at ends\<close>)
  moreover have "fed_addService env cs svcs st service = Some (fmupd ?i fs' svcs, st')"
    using True 1(1) by (simp add: fed_addService_def fed_put_def)
  ultimately show ?thesis using True 1(4,5) by (simp add: discovery_def)
qed

lemma fed_Subscribe_ok:
  assumes env: "fed_env_ok env" and inv: "fed_inv cs used svcs st" and fresh: "e \<notin> used"
  shows "\<exists>b svcs' st'. fed_Subscribe env cs svcs st n ns port node inst stream e = Some (b, svcs', st') \<and>
    fed_inv cs (used \<union> {e}) svcs' st' \<and> (\<forall>j. discovery svcs' j = discovery svcs j)"
proof (cases "fmlookup svcs (local_id ns n)")
  case None
  have "fed_inv cs (used \<union> {e}) svcs st"
    by (rule fed_inv_change [OF inv, where i = "local_id ns n"])
       (use inv fresh fresh_no_open [OF inv fresh] None in \<open>auto simp: fed_inv_def ends_at_def\<close>)
  with None show ?thesis by (auto simp: fed_Subscribe_def)
next
  case (Some fs)
  let ?i = "local_id ns n"
  note D = fed_invD [OF inv Some]
  have "e \<notin> fs_ends fs" using D(3) fresh by blast
  then obtain fs' st' where 1: "fs_subscribe env cs fs port node inst stream e st = Some (fs', st')" "fs_ok cs fs' st'"
    "fs_namespace fs' = fs_namespace fs" "remoteDiscovery fs' = remoteDiscovery fs" "localDiscovery fs' = localDiscovery fs"
    "fs_ends fs' = insert e (fs_ends fs)" "fd_ended st' = fd_ended st" "fed_frame {e} st st'"
    using fs_subscribe_ok [OF D(1) _ fresh_no_open [OF inv fresh], of env port node inst stream] by blast
  have st': "states_ok st'" using 1(2) by (simp add: fs_ok_def subs_pre_def)
  have at: "ends_at (fmupd ?i fs' svcs) ?i = insert e (fs_ends fs)" by (simp add: ends_at_def 1(6))
  have "fed_inv cs (used \<union> {e}) (fmupd ?i fs' svcs) st'"
    by (rule fed_inv_change [OF inv, where i = ?i])
       (use 1 st' D(2) fresh fed_frame_mono [OF 1(8), of "fs_ends fs \<union> {e}"] in \<open>auto simp: at D(5)\<close>)
  moreover have "fed_Subscribe env cs svcs st n ns port node inst stream e = Some (True, fmupd ?i fs' svcs, st')"
    using Some 1(1) by (simp add: fed_Subscribe_def fed_put_def)
  moreover have "discovery (fmupd ?i fs' svcs) j = discovery svcs j" for j
    using Some 1(4,5) by (cases "j = ?i") (simp_all add: discovery_def)
  ultimately show ?thesis by blast
qed

lemma fed_Unsubscribe_ok:
  assumes env: "fed_env_ok env" and inv: "fed_inv cs used svcs st"
  shows "\<exists>svcs' st'. fed_Unsubscribe env cs svcs st n ns stream = Some (svcs', st') \<and> fed_inv cs used svcs' st' \<and>
    (\<forall>j. discovery svcs' j = discovery svcs j)"
proof (cases "fmlookup svcs (local_id ns n)")
  case None
  with inv show ?thesis by (simp add: fed_Unsubscribe_def)
next
  case (Some fs)
  let ?i = "local_id ns n"
  note D = fed_invD [OF inv Some]
  obtain fs' st' where 1: "fs_unsubscribe env cs fs stream st = Some (fs', st')" "fs_ok cs fs' st'"
    "fs_namespace fs' = fs_namespace fs" "remoteDiscovery fs' = remoteDiscovery fs" "localDiscovery fs' = localDiscovery fs"
    "fs_ends fs' \<subseteq> fs_ends fs" "fset (fd_ended st') \<subseteq> fset (fd_ended st) \<union> (fs_ends fs - fs_ends fs')"
    "\<forall>e \<in> fs_ends fs - fs_ends fs'. no_open e st'" "fed_frame (fs_ends fs - fs_ends fs') st st'"
    using fs_unsubscribe_ok [OF env D(1,4), of stream] by blast
  have st': "states_ok st'" using 1(2) by (simp add: fs_ok_def subs_pre_def)
  have at: "ends_at (fmupd ?i fs' svcs) ?i = fs_ends fs'" by (simp add: ends_at_def)
  have "fed_inv cs (used \<union> {}) (fmupd ?i fs' svcs) st'"
    by (rule fed_inv_change [OF inv, where i = ?i])
       (use 1 st' D(2) fed_frame_mono [OF 1(9), of "fs_ends fs"] in \<open>auto simp: at D(5)\<close>)
  moreover have "fed_Unsubscribe env cs svcs st n ns stream = Some (fmupd ?i fs' svcs, st')"
    using Some 1(1) by (simp add: fed_Unsubscribe_def fed_put_def)
  moreover have "discovery (fmupd ?i fs' svcs) j = discovery svcs j" for j
    using Some 1(4,5) by (cases "j = ?i") (simp_all add: discovery_def)
  ultimately show ?thesis by auto
qed

text \<open>What the annotations want of a service after an operation.\<close>

fun fed_wanted :: "ServiceID \<Rightarrow> (string \<times> remoteDiscoveryID list) option \<Rightarrow> fed_op \<Rightarrow> (string \<times> remoteDiscoveryID list) option" where
  "fed_wanted i w (FedAdd service) = (if i = svc_ID service
     then if isFederatedService service
          then Some (fm_str (svc_Annotations service) LocalDiscoveryAnnotation, remoteDiscoveryIDs service) else None
     else w)"
| "fed_wanted i w (FedDelete obj) = (case informer_object obj of
     None \<Rightarrow> w | Some service \<Rightarrow> if i = svc_ID service then None else w)"
| "fed_wanted i w _ = w"

fun op_ends :: "fed_op \<Rightarrow> nat list" where
  "op_ends (FedSubscribe n ns port node inst stream e) = [e]"
| "op_ends _ = []"

fun op_ok :: "fed_op \<Rightarrow> bool" where
  "op_ok (FedAdd service) = distinct (remoteDiscoveryIDs service)"
| "op_ok (FedOverflow e) = False"
| "op_ok _ = True"

lemma fed_step_ok:
  assumes env: "fed_env_ok env" and inv: "fed_inv cs used svcs st" and ok: "op_ok op" and fresh: "set (op_ends op) \<inter> used = {}"
  shows "\<exists>svcs' st'. fed_step env cs (svcs, st) op = Some (svcs', st') \<and> fed_inv cs (used \<union> set (op_ends op)) svcs' st' \<and>
    (\<forall>j. discovery svcs' j = fed_wanted j (discovery svcs j) op)"
proof (cases op)
  case (FedAdd service)
  with fed_addService_ok [OF env inv, of service] ok show ?thesis by simp
next
  case (FedDelete obj)
  with fed_remove_ok [OF env inv] inv show ?thesis
    by (cases "informer_object obj") (simp_all add: fed_deleteService_def)
next
  case (FedSubscribe n ns port node inst stream e)
  with fed_Subscribe_ok [OF env inv, of e n ns port node inst stream] fresh show ?thesis by auto
next
  case (FedUnsubscribe n ns stream)
  with fed_Unsubscribe_ok [OF env inv, of n ns stream] show ?thesis by simp
next
  case (FedOverflow e)
  with ok show ?thesis by simp
qed

lemma fed_run_ok:
  assumes env: "fed_env_ok env" and "fed_inv cs used svcs st" "list_all op_ok ops" "distinct (concat (map op_ends ops))"
    and "set (concat (map op_ends ops)) \<inter> used = {}"
  shows "\<exists>used' svcs' st'. fed_run env cs (svcs, st) ops = Some (svcs', st') \<and> fed_inv cs used' svcs' st' \<and>
    (\<forall>j. discovery svcs' j = foldl (fed_wanted j) (discovery svcs j) ops)"
  using assms(2-)
proof (induction ops arbitrary: used svcs st)
  case Nil
  then show ?case by auto
next
  case (Cons op ops)
  have "op_ok op" "set (op_ends op) \<inter> used = {}" using Cons.prems(2,4) by auto
  from fed_step_ok [OF env Cons.prems(1) this] obtain svcs1 st1
    where 1: "fed_step env cs (svcs, st) op = Some (svcs1, st1)" and inv: "fed_inv cs (used \<union> set (op_ends op)) svcs1 st1"
      and w: "\<forall>j. discovery svcs1 j = fed_wanted j (discovery svcs j) op" by blast
  have "list_all op_ok ops" "distinct (concat (map op_ends ops))"
    "set (concat (map op_ends ops)) \<inter> (used \<union> set (op_ends op)) = {}"
    using Cons.prems(2-4) by auto
  from Cons.IH [OF inv this] 1 w show ?case by simp
qed

lemma fed_inv_init: "fed_inv cs {} fmempty \<lparr>fd_calls = [], fd_next = 0, fd_ended = {||}\<rparr>"
  by (simp add: fed_inv_def states_ok_def t_state_def ends_at_def)

lemma fed_run_init:
  assumes "fed_env_ok env" "list_all op_ok ops" "distinct (concat (map op_ends ops))"
  obtains used svcs st where "fed_run env cs fed_init ops = Some (svcs, st)" "fed_inv cs used svcs st"
    "\<forall>i. discovery svcs i = foldl (fed_wanted i) None ops"
proof -
  have "set (concat (map op_ends ops)) \<inter> {} = {}" by simp
  from fed_run_ok [OF assms(1) fed_inv_init assms(2,3) this, of cs] obtain used svcs st
    where "fed_run env cs fed_init ops = Some (svcs, st)" "fed_inv cs used svcs st"
      "\<forall>j. discovery svcs j = foldl (fed_wanted j) (discovery fmempty j) ops"
    unfolding fed_init_def by blast
  then show thesis using that by (simp add: discovery_def)
qed

lemma fed_inv_open:
  assumes inv: "fed_inv cs used svcs st"
  shows "t_state st t = TOpen ti \<longleftrightarrow> (\<exists>i fs sub tgt. fmlookup svcs i = Some fs \<and> sub \<in> set (fs_subscribers fs) \<and>
    sub_lookup sub tgt = Some t \<and> ti = target_info (Namespace i) sub tgt)" (is "?l \<longleftrightarrow> ?r")
proof
  assume l: ?l
  with inv obtain i where "ti_end ti \<in> ends_at svcs i" unfolding fed_inv_def by blast
  then obtain fs sub where fs: "fmlookup svcs i = Some fs" and sub: "sub \<in> set (fs_subscribers fs)"
    and e: "ti_end ti = fss_endStream sub"
    by (auto simp: ends_at_def fs_ends_def split: option.splits)
  have "sub_inv (Namespace i) st sub" using fed_invD(1,2) [OF inv fs] sub by (simp add: fs_ok_def subs_pre_def)
  with l e obtain tgt where "sub_lookup sub tgt = Some t" "ti = target_info (Namespace i) sub tgt"
    unfolding sub_inv_def by blast
  with fs sub show ?r by blast
next
  assume ?r
  then obtain i fs sub tgt where fs: "fmlookup svcs i = Some fs" and sub: "sub \<in> set (fs_subscribers fs)"
    and t: "sub_lookup sub tgt = Some t" and ti: "ti = target_info (Namespace i) sub tgt" by blast
  have "sub_inv (Namespace i) st sub" using fed_invD(1,2) [OF inv fs] sub by (simp add: fs_ok_def subs_pre_def)
  with t ti show ?l using sub_inv_open by simp
qed


section \<open>A cluster that is linked late\<close>

lemma each_sub_keeps:
  assumes "each_sub f subs st = Some (subs', st')" "\<exists>sub \<in> set subs. Q sub"
    and "\<And>sub st sub' st'. f sub st = Some (sub', st') \<Longrightarrow> Q sub \<Longrightarrow> Q sub'"
  shows "\<exists>sub \<in> set subs'. Q sub"
  using assms(1,2)
proof (induction subs arbitrary: st subs' st')
  case (Cons sub subs)
  from Cons.prems(1) obtain sub1 st1 subs2 st2 where 1: "f sub st = Some (sub1, st1)"
    "each_sub f subs st1 = Some (subs2, st2)" "subs' = sub1 # subs2"
    by (auto split: option.splits)
  show ?case
  proof (cases "Q sub")
    case True
    with 1 assms(3) [OF 1(1)] show ?thesis by simp
  next
    case False
    with Cons.prems(2) Cons.IH [OF 1(2)] 1(3) show ?thesis by simp
  qed
qed simp

lemma each_sub_None: "\<exists>sub \<in> set subs. \<forall>st. f sub st = None \<Longrightarrow> each_sub f subs st = None"
proof (induction subs arbitrary: st)
  case (Cons sub subs)
  then show ?case
    by (cases "\<forall>st. f sub st = None") (simp, force split: option.splits)
qed simp

lemma each_of_keeps:
  assumes "each_of f xs s = Some s'" "Q s" "\<And>x s s'. x \<in> set xs \<Longrightarrow> f x s = Some s' \<Longrightarrow> Q s \<Longrightarrow> Q s'"
  shows "Q s'"
  using assms
proof (induction xs arbitrary: s)
  case (Cons x xs)
  then obtain s1 where 1: "f x s = Some s1" "each_of f xs s1 = Some s'" by (auto split: option.splits)
  then have "Q s1" using Cons.prems(2,3) by (metis list.set_intros(1))
  with 1(2) show ?case using Cons.IH Cons.prems(3) by (metis list.set_intros(2))
qed simp

lemma each_of_None:
  assumes "x \<in> set xs" "Q s" "\<And>s. Q s \<Longrightarrow> f x s = None"
    and "\<And>y s s'. y \<in> set xs \<Longrightarrow> f y s = Some s' \<Longrightarrow> Q s \<Longrightarrow> Q s'"
  shows "each_of f xs s = None"
  using assms
proof (induction xs arbitrary: s)
  case (Cons y ys)
  show ?case
  proof (cases "f y s")
    case (Some s')
    with Cons.prems(2,3) have "x \<noteq> y" by auto
    moreover have "Q s'" using Cons.prems(2,4) Some by (metis list.set_intros(1))
    moreover have "each_of f ys s' = None" if "x \<in> set ys" "Q s'"
      using Cons.IH [OF that Cons.prems(3)] Cons.prems(4) by (metis list.set_intros(2))
    ultimately show ?thesis using Cons.prems(1) Some by simp
  qed simp
qed simp

definition lacks :: "remoteDiscoveryID \<Rightarrow> federatedServiceSubscriber \<Rightarrow> bool" where
  "lacks i sub \<longleftrightarrow> fmlookup (remoteTranslators sub) i = None"

lemma missing_translator_panics:
  assumes "i \<in> set (remoteDiscovery fs)" "i \<notin> set (remoteDiscoveryIDs service)" "\<exists>sub \<in> set (fs_subscribers fs). lacks i sub"
    and "cs_Get cs (rd_cluster i) \<noteq> None"
  shows "fs_update env cs fs service st = None"
proof -
  let ?Q = "\<lambda>(subs, st :: fed_state). \<exists>sub \<in> set subs. lacks i sub" and ?ns = "fs_namespace fs"
  let ?new = "remoteDiscoveryIDs service" and ?old = "remoteDiscovery fs"
  let ?f = "\<lambda>i (subs, st). if i \<in> set ?old then Some (subs, st) else each_sub (remoteDiscoverySubscribe env cs ?ns i) subs st"
  let ?g = "\<lambda>i (subs, st). if i \<in> set ?new then Some (subs, st) else each_sub (remoteDiscoveryUnsubscribe cs i) subs st"
  have sub: "lacks i sub'" if "j \<noteq> i" "remoteDiscoverySubscribe env cs ?ns j sub st = Some (sub', st')" "lacks i sub"
    for j sub sub' st st'
    using that by (auto simp: remoteDiscoverySubscribe_def Let_def lacks_def split: option.splits)
  have unsub: "lacks i sub'" if "remoteDiscoveryUnsubscribe cs j sub st = Some (sub', st')" "lacks i sub" for j sub sub' st st'
    using that by (auto simp: remoteDiscoveryUnsubscribe_def lacks_def split: option.splits)
  have f: "?Q s'" if "?f j s = Some s'" "?Q s" for j s s'
  proof (cases "j \<in> set ?old")
    case False
    with assms(1) have j: "j \<noteq> i" by auto
    obtain subs st0 subs' st0' where s: "s = (subs, st0)" "s' = (subs', st0')" by (metis surj_pair)
    have "each_sub (remoteDiscoverySubscribe env cs ?ns j) subs st0 = Some (subs', st0')" "\<exists>sub \<in> set subs. lacks i sub"
      using that False by (simp_all add: s)
    from each_sub_keeps [OF this sub [OF j]] show ?thesis by (simp add: s)
  qed (use that in auto)
  have g: "?Q s'" if "?g j s = Some s'" "?Q s" for j s s'
  proof (cases "j \<in> set ?new")
    case False
    obtain subs st0 subs' st0' where s: "s = (subs, st0)" "s' = (subs', st0')" by (metis surj_pair)
    have "each_sub (remoteDiscoveryUnsubscribe cs j) subs st0 = Some (subs', st0')" "\<exists>sub \<in> set subs. lacks i sub"
      using that False by (simp_all add: s)
    from each_sub_keeps [OF this unsub] show ?thesis by (simp add: s)
  qed (use that in auto)
  have "?g i s = None" if "?Q s" for s
  proof -
    have "\<forall>st. remoteDiscoveryUnsubscribe cs i sub st = None" if "lacks i sub" for sub
      using that assms(4) by (auto simp: remoteDiscoveryUnsubscribe_def lacks_def split: option.splits)
    moreover obtain subs st0 where s: "s = (subs, st0)" by (metis surj_pair)
    ultimately have "\<exists>sub \<in> set subs. \<forall>st. remoteDiscoveryUnsubscribe cs i sub st = None" using that by auto
    with assms(2) show ?thesis by (simp add: s each_sub_None)
  qed
  then have "each_of ?g ?old s = None" if "?Q s" for s
    using each_of_None [where Q = ?Q and f = ?g, OF assms(1) that] g by blast
  moreover have "?Q s'" if "each_of ?f ?new (fs_subscribers fs, st) = Some s'" for s'
    using each_of_keeps [where Q = ?Q, OF that] assms(3) f by simp
  ultimately show ?thesis
    by (simp add: fs_update_def Let_def split: option.splits)
qed

text \<open>
  C34. A cluster that is linked late brings the controller down. A client that asked for a
  federated service while the cluster of one of its remote services was unknown has no
  translator for it. Once the cluster is known, an update of the service that drops this
  remote service calls the missing translator: a nil dereference.
\<close>

theorem late_cluster_panics:
  assumes "fed_env_ok env" and "list_all op_ok ops" and "distinct (concat (map op_ends ops))"
    and run: "fed_run env cs fed_init ops = Some (svcs, st)"
    and fs: "fmlookup svcs (svc_ID service) = Some fs" and "fs_subscribers fs \<noteq> []"
    and "i \<in> set (remoteDiscovery fs)" and "cs_Get cs (rd_cluster i) = None"
    and "cs_Get cs' (rd_cluster i) \<noteq> None" and "isFederatedService service" and "i \<notin> set (remoteDiscoveryIDs service)"
  shows "fed_step env cs' (svcs, st) (FedAdd service) = None"
proof -
  obtain used where inv: "fed_inv cs used svcs st" using fed_run_init [OF assms(1-3), of cs] run by auto
  obtain sub where sub: "sub \<in> set (fs_subscribers fs)" using assms(6) by (meson hd_in_set)
  have "fmdom (remoteTranslators sub) = known cs (remoteDiscovery fs)"
    using fed_invD(1) [OF inv fs] sub by (simp add: fs_ok_def subs_pre_def doms_def)
  with assms(8) have "lacks i sub" unfolding lacks_def by (intro fmdom_notD) simp
  with sub missing_translator_panics [OF assms(7,11) _ assms(9)] have "fs_update env cs' fs service st = None" by blast
  with fs assms(10) show ?thesis by (simp add: fed_addService_def fed_put_def)
qed

section \<open>A sample\<close>

definition sample_fed_env :: fed_env where
  "sample_fed_env =
     \<lparr>fe_config = \<lparr>ControllerNS = ''linkerd'', IdentityTrustDomain = ''cluster.local'', EnableH2Upgrade = True,
        EnableIPv6 = False, ExtEndpointZoneWeights = False, MeshedHttp2ClientParams = None, DefaultOpaquePorts = {||}\<rparr>,
      fe_nodes = (\<lambda>_. Inr fmempty), fe_ids = sorted_list_of_fset, fe_names = sorted_list_of_fset\<rparr>"

definition sample_federated :: "labels \<Rightarrow> Service" where
  "sample_federated annotations =
     \<lparr>svc_Name = ''web-federated'', svc_Namespace = ''ns'', svc_UID = ''u'', svc_Labels = fmempty,
      svc_Annotations = annotations, svc_DeletionTimestamp = None, svc_Type = ''ClusterIP'', svc_Ports = [],
      svc_InternalTrafficPolicy = None, svc_Selector = None, svc_ClusterIP = ''10.1.0.1'', svc_ClusterIPs = [],
      svc_IPFamilies = []\<rparr>"

definition sample_secret :: Secret where
  "sample_secret =
     \<lparr>sec_Name = ''cluster-credentials-west'', sec_Namespace = ''linkerd'', sec_Type = MirrorSecretType,
      sec_Labels = fmupd clusterNameLabel ''west'' fmempty,
      sec_Annotations = fmupd trustDomainAnnotation ''cluster.local'' (fmupd clusterDomainAnnotation ''cluster.local'' fmempty),
      sec_Data = fmupd ConfigKeyName ''config'' fmempty\<rparr>"

definition west_store :: ClusterStore where
  "west_store = secret_add \<lparr>ce_decodeFn = (\<lambda>_ _ _. None), ce_register = (\<lambda>_. None)\<rparr> (NewClusterStore True) (Some sample_secret)"

abbreviation both_annotations :: labels where
  "both_annotations \<equiv> fmupd RemoteDiscoveryAnnotation ''web@west'' (fmupd LocalDiscoveryAnnotation ''web'' fmempty)"

abbreviation local_annotation :: labels where
  "local_annotation \<equiv> fmupd LocalDiscoveryAnnotation ''web'' fmempty"

definition web_west :: remoteDiscoveryID where
  "web_west = \<lparr>rd_cluster = ''west'', rd_service = \<lparr>Namespace = ''ns'', Name = ''web'', IPFamily = []\<rparr>\<rparr>"

lemma sample_fed_env_ok: "fed_env_ok sample_fed_env"
  by (simp add: fed_env_ok_def sample_fed_env_def sorted_list_of_fset.rep_eq)

lemma west_known: "cs_Get west_store ''west'' \<noteq> None" "cs_Get (NewClusterStore True) c = None"
  by (simp_all add: west_store_def secret_add_def sample_secret_def addCluster_def cs_Get_def NewClusterStore_def)

lemma sample_ids:
  "remoteDiscoveryIDs (sample_federated both_annotations) = [web_west]"
  "remoteDiscoveryIDs (sample_federated local_annotation) = []"
  by (simp_all add: remoteDiscoveryIDs_def sample_federated_def remote_id_def web_west_def List.map_filter_def)

lemma sample_federated_simps:
  "isFederatedService (sample_federated both_annotations)" "isFederatedService (sample_federated local_annotation)"
  "svc_ID (sample_federated a) = local_id ''ns'' ''web-federated''"
  "fm_str (svc_Annotations (sample_federated both_annotations)) LocalDiscoveryAnnotation = ''web''"
  by (simp_all add: isFederatedService_def sample_federated_def svc_ID_def local_id_def)

abbreviation sample_ops :: "fed_op list" where
  "sample_ops \<equiv> [FedAdd (sample_federated both_annotations),
     FedSubscribe ''web-federated'' ''ns'' 80 ''node'' [] 7 7]"


theorem late_cluster_panics_witness:
  "\<exists>svcs st. fed_run sample_fed_env (NewClusterStore True) fed_init sample_ops = Some (svcs, st) \<and>
     fed_step sample_fed_env west_store (svcs, st) (FedAdd (sample_federated local_annotation)) = None"
proof -
  let ?cs = "NewClusterStore True" and ?new = "sample_federated local_annotation"
  have ops: "list_all op_ok sample_ops" "distinct (concat (map op_ends sample_ops))" by (simp_all add: sample_ids)
  obtain used svcs st where run: "fed_run sample_fed_env ?cs fed_init sample_ops = Some (svcs, st)"
    using fed_run_init [OF sample_fed_env_ok ops, of ?cs] by blast
  from run have "\<exists>fs. fmlookup svcs (svc_ID ?new) = Some fs \<and> fs_subscribers fs \<noteq> [] \<and> remoteDiscovery fs = [web_west]"
    by (auto simp: fed_init_def fed_addService_def fed_put_def fed_Subscribe_def sample_federated_simps fs_update_def
          newFederatedService_def sample_ids fs_subscribe_def remoteDiscoverySubscribe_def west_known(2) Let_def
          localDiscoverySubscribe_def)
  then obtain fs where fs: "fmlookup svcs (svc_ID ?new) = Some fs" "fs_subscribers fs \<noteq> []" "remoteDiscovery fs = [web_west]"
    by blast
  have "fed_step sample_fed_env west_store (svcs, st) (FedAdd ?new) = None"
    by (rule late_cluster_panics [OF sample_fed_env_ok ops run fs(1,2), of web_west])
       (simp_all only: fs(3) west_known sample_ids sample_federated_simps list.set simp_thms insert_iff empty_iff web_west_def
          remoteDiscoveryID.select_convs option.distinct not_False_eq_True)
  with run show ?thesis by blast
qed

end
