(* ===== verification/Mirror_Federation.thy ===== *)
theory Mirror_Federation
  imports Mirror_Writes Federated_Services
begin

text \<open>
  Federated services end to end: the service mirror writes the members of a federated service
  into its annotations, and the destination controller reads them there.
\<close>

section \<open>Turns\<close>

text \<open>
  A turn of a watcher: it reacts to a change of a remote service, handles the events it queued
  for it, and then its cache shows what it wrote. The API server accepts everything.
\<close>

definition accepts :: "mirror_env \<Rightarrow> bool" where
  "accepts env \<longleftrightarrow> (\<forall>h c. me_write env h c = None) \<and> me_cacheError env = None"

text \<open>The service the API server has under a key after an accepted call.\<close>

definition stored :: "string \<times> string \<Rightarrow> CoreService option \<Rightarrow> mirror_call \<Rightarrow> CoreService option" where
  "stored key cur c = (case c of
     CreateService svc \<Rightarrow> if (k_Namespace svc, k_Name svc) = key then Some svc else cur
   | UpdateService svc \<Rightarrow> if (k_Namespace svc, k_Name svc) = key then Some svc else cur
   | DeleteService ns n \<Rightarrow> if (ns, n) = key then None else cur
   | _ \<Rightarrow> cur)"

definition cached :: "mirror_state \<Rightarrow> string \<times> string \<Rightarrow> CoreService option" where
  "cached st key = Option.bind (fmlookup (m_serviceCache st) key) (fmlookup (m_services st))"

definition queued :: "mirror_call list \<Rightarrow> mirror_event list" where
  "queued cs = List.map_filter (\<lambda>c. case c of QueueAdd ev \<Rightarrow> Some ev | _ \<Rightarrow> None) cs"

definition calls_since :: "mirror_state \<Rightarrow> mirror_state \<Rightarrow> mirror_call list" where
  "calls_since st st' = drop (length (m_calls st)) (m_calls st')"

fun handle_all :: "mirror_env \<Rightarrow> RemoteClusterServiceWatcher \<Rightarrow> mirror_event list \<Rightarrow> mirror_state \<Rightarrow> mirror_state" where
  "handle_all env w [] st = st"
| "handle_all env w (ev # evs) st = handle_all env w evs (snd (run_state (handle_event env w ev) st))"

definition turn :: "mirror_env \<Rightarrow> RemoteClusterServiceWatcher \<Rightarrow> string \<times> string \<Rightarrow> 'a mirror \<Rightarrow> mirror_state \<Rightarrow> mirror_state" where
  "turn env w key m st =
     (let st1 = snd (run_state m st);
          st2 = handle_all env w (queued (calls_since st st1)) st1
      in snd (run_state (cache_service (fst key) (snd key) (foldl (stored key) (cached st key) (calls_since st st2))) st2))"

datatype member_change =
    ServiceSeen mirror_env RemoteClusterServiceWatcher CoreService
  | ServiceDeleted mirror_env RemoteClusterServiceWatcher CoreService

fun member_turn :: "string \<times> string \<Rightarrow> mirror_state \<Rightarrow> member_change \<Rightarrow> mirror_state" where
  "member_turn key st (ServiceSeen env w r) = turn env w key (createOrUpdateService env w r) st"
| "member_turn key st (ServiceDeleted env w r) = turn env w key (handleOnDelete env w r) st"

text \<open>The clusters whose service is a member; the local cluster is the empty name.\<close>

fun member_wanted :: "string set \<Rightarrow> member_change \<Rightarrow> string set" where
  "member_wanted C (ServiceSeen env w r) =
     (if isFederatedServiceMember env w (k_Labels r) then insert (TargetClusterName (link w)) C
      else C - {TargetClusterName (link w)})"
| "member_wanted C (ServiceDeleted env w r) =
     (if isFederatedServiceMember env w (k_Labels r) then C - {TargetClusterName (link w)} else C)"

section \<open>Annotations\<close>

definition name_ok :: "string \<Rightarrow> bool" where
  "name_ok s \<longleftrightarrow> CHR '','' \<notin> set s \<and> CHR ''@'' \<notin> set s"

definition target :: "string \<Rightarrow> string \<Rightarrow> string" where
  "target n c = n @ ''@'' @ c"

lemma remote_target_eq: "remote_target w n = target n (TargetClusterName (link w))"
  by (simp add: remote_target_def target_def)

lemma target_inj [simp]: "target n c = target n d \<longleftrightarrow> c = d"
  by (simp add: target_def)

lemma target_no_comma: "name_ok n \<Longrightarrow> name_ok c \<Longrightarrow> CHR '','' \<notin> set (target n c)"
  by (simp add: name_ok_def target_def)

lemma target_id: "name_ok n \<Longrightarrow> name_ok c \<Longrightarrow>
  remote_id ns (target n c) = Some \<lparr>rd_cluster = c, rd_service = \<lparr>Namespace = ns, Name = n, IPFamily = []\<rparr>\<rparr>"
  by (simp add: remote_id_def target_def name_ok_def split_on_sep split_on_no_sep)

text \<open>The annotations that name the clusters \<open>cs\<close> (and the local one, if \<open>l\<close>) as members.\<close>

definition member_annotations :: "string \<Rightarrow> bool \<Rightarrow> string list \<Rightarrow> labels \<Rightarrow> bool" where
  "member_annotations n l cs a \<longleftrightarrow> distinct cs \<and> (\<forall>c \<in> set cs. c \<noteq> [] \<and> name_ok c) \<and>
     fm_str a RemoteDiscoveryAnnotation = join_with '','' (map (target n) cs) \<and>
     fm_str a LocalDiscoveryAnnotation = (if l then n else [])"

lemma split_targets:
  assumes "name_ok n" "\<forall>c \<in> set cs. name_ok c"
  shows "split_on (CHR '','') (join_with '','' (map (target n) cs)) = (if cs = [] then [[]] else map (target n) cs)"
  using assms target_no_comma by (auto intro!: split_join)

lemma contains_targets:
  assumes "name_ok n" "\<forall>c \<in> set cs. name_ok c"
  shows "remoteDiscoveryContains (join_with '','' (map (target n) cs)) (target n c) \<longleftrightarrow> c \<in> set cs"
  by (auto simp: remoteDiscoveryContains_def split_targets [OF assms]) (simp add: target_def)

lemma join_targets_empty: "join_with '','' (map (target n) cs) = [] \<longleftrightarrow> cs = []"
  by (cases cs rule: remdups_adj.cases) (auto simp: target_def)

lemma join_with_snoc: "cs \<noteq> [] \<Longrightarrow> join_with sep (cs @ [x]) = join_with sep cs @ sep @ x"
  by (induction sep cs rule: join_with.induct) auto

lemma filter_targets: "filter (\<lambda>m. m \<noteq> target n c) (map (target n) cs) = map (target n) (removeAll c cs)"
  by (induction cs) auto

lemma join_member:
  assumes a: "member_annotations n l cs a" and n: "name_ok n" and c: "name_ok (TargetClusterName (link w))" (is "name_ok ?c")
  shows "case join_annotations w n a of
      None \<Rightarrow> ?c \<noteq> [] \<and> ?c \<in> set cs
    | Some a' \<Rightarrow> if ?c = [] then member_annotations n True cs a'
        else ?c \<notin> set cs \<and> member_annotations n l (cs @ [?c]) a'"
proof -
  have cs: "\<forall>c \<in> set cs. name_ok c" using a by (simp add: member_annotations_def)
  show ?thesis
    using a c join_targets_empty [of n cs]
    by (auto simp: join_annotations_def Let_def member_annotations_def remote_target_eq contains_targets [OF n cs]
          join_with_snoc)
qed

lemma leave_member:
  assumes a: "member_annotations n l cs a" and n: "name_ok n" and c: "name_ok (TargetClusterName (link w))" (is "name_ok ?c")
  shows "case leave_annotations w n a of
      None \<Rightarrow> ?c \<noteq> [] \<and> ?c \<notin> set cs
    | Some a' \<Rightarrow> if ?c = [] then member_annotations n False cs a'
        else ?c \<in> set cs \<and> member_annotations n l (removeAll ?c cs) a'"
proof -
  have cs: "\<forall>c \<in> set cs. name_ok c" using a by (simp add: member_annotations_def)
  have "cs \<noteq> []" if "?c \<in> set cs" using that by auto
  then show ?thesis
    using a c
    by (auto simp: leave_annotations_def Let_def member_annotations_def remote_target_eq contains_targets [OF n cs]
          split_targets [OF n cs] filter_targets distinct_removeAll fm_str_def)
qed

text \<open>What the destination controller reads from the service.\<close>

definition as_Service :: "CoreService \<Rightarrow> Service" where
  "as_Service svc =
     \<lparr>svc_Name = k_Name svc, svc_Namespace = k_Namespace svc, svc_UID = [], svc_Labels = k_Labels svc,
      svc_Annotations = annotations_of svc, svc_DeletionTimestamp = None, svc_Type = [], svc_Ports = [],
      svc_InternalTrafficPolicy = None, svc_Selector = None, svc_ClusterIP = k_ClusterIP svc, svc_ClusterIPs = [],
      svc_IPFamilies = []\<rparr>"

definition member_id :: "string \<Rightarrow> string \<Rightarrow> string \<Rightarrow> remoteDiscoveryID" where
  "member_id ns n c = \<lparr>rd_cluster = c, rd_service = \<lparr>Namespace = ns, Name = n, IPFamily = []\<rparr>\<rparr>"

lemma map_filter_targets:
  assumes "name_ok n" "\<forall>c \<in> set cs. name_ok c"
  shows "List.map_filter (remote_id ns) (map (target n) cs) = map (member_id ns n) cs"
  using assms by (induction cs) (simp_all add: List.map_filter_simps target_id member_id_def)

lemma ids_of_members:
  assumes "member_annotations n l cs (annotations_of svc)" "name_ok n"
  shows "remoteDiscoveryIDs (as_Service svc) = map (member_id (k_Namespace svc) n) cs"
proof -
  have cs: "\<forall>c \<in> set cs. name_ok c" using assms by (simp add: member_annotations_def)
  have a: "fm_str (annotations_of svc) RemoteDiscoveryAnnotation = join_with '','' (map (target n) cs)"
    using assms by (simp add: member_annotations_def)
  show ?thesis
  proof (cases "fmlookup (annotations_of svc) RemoteDiscoveryAnnotation")
    case None
    with a have "cs = []" using join_targets_empty [of n cs] by (simp add: fm_str_def)
    with None show ?thesis by (simp add: remoteDiscoveryIDs_def as_Service_def)
  next
    case (Some s)
    with a have s: "s = join_with '','' (map (target n) cs)" by (simp add: fm_str_def)
    have "List.map_filter (remote_id (k_Namespace svc)) [[]] = []" by (simp add: List.map_filter_simps remote_id_def)
    with Some show ?thesis
      by (simp add: remoteDiscoveryIDs_def as_Service_def s split_targets [OF assms(2) cs] map_filter_targets [OF assms(2) cs])
  qed
qed

section \<open>Handlers on an accepting API server\<close>

text \<open>Calls that neither write a service nor queue an event, and programs that only make such calls.\<close>

definition silent :: "mirror_call \<Rightarrow> bool" where
  "silent c \<longleftrightarrow> (case c of CreateService _ \<Rightarrow> False | UpdateService _ \<Rightarrow> False | DeleteService _ _ \<Rightarrow> False |
     QueueAdd _ \<Rightarrow> False | _ \<Rightarrow> True)"

definition appends :: "(mirror_call \<Rightarrow> bool) \<Rightarrow> 'a mirror \<Rightarrow> bool" where
  "appends P m \<longleftrightarrow> (\<forall>st. \<exists>x cs. run_state m st = (x, st\<lparr>m_calls := m_calls st @ cs\<rparr>) \<and> list_all P cs)"

abbreviation quiet :: "'a mirror \<Rightarrow> bool" where
  "quiet m \<equiv> appends silent m"

lemma stored_silent: "list_all silent cs \<Longrightarrow> foldl (stored key) cur cs = cur"
proof (induction cs)
  case (Cons c cs)
  then show ?case by (cases c) (simp_all add: stored_def silent_def)
qed simp

lemma queued_silent: "list_all silent cs \<Longrightarrow> queued cs = []"
proof (induction cs)
  case (Cons c cs)
  then show ?case by (cases c) (simp_all add: queued_def silent_def List.map_filter_simps)
qed (simp add: queued_def List.map_filter_simps)

lemma appends_ret: "appends P (ret x)"
  unfolding appends_def by (intro allI exI [of _ x] exI [of _ "[]"]) simp

lemma appends_call: "P c \<Longrightarrow> appends P (call f c)"
  unfolding appends_def call_def by (intro allI, rule exI, rule exI [of _ "[c]"]) simp

lemma appends_reads: "appends P (reads f)"
  unfolding appends_def reads_def by (intro allI, rule exI, rule exI [of _ "[]"]) simp

lemma appends_bind:
  assumes "appends P m" "\<And>x. appends P (f x)"
  shows "appends P (State_Monad.bind m f)"
  unfolding appends_def
proof
  fix st
  obtain x cs where 1: "run_state m st = (x, st\<lparr>m_calls := m_calls st @ cs\<rparr>)" "list_all P cs"
    using assms(1) unfolding appends_def by blast
  let ?st = "st\<lparr>m_calls := m_calls st @ cs\<rparr>"
  obtain y ds where "run_state (f x) ?st = (y, ?st\<lparr>m_calls := m_calls ?st @ ds\<rparr>)" "list_all P ds"
    using assms(2) [of x, unfolded appends_def, THEN spec, of ?st] by (elim exE conjE) (rule that)
  with 1 show "\<exists>x cs. run_state (State_Monad.bind m f) st = (x, st\<lparr>m_calls := m_calls st @ cs\<rparr>) \<and> list_all P cs"
    by (intro exI [of _ y] exI [of _ "cs @ ds"]) simp
qed

lemma quiet_status:
  "quiet (federated_status env w r ok reason msg x)" "quiet (deleteLinkFederatedStatus env w n ns)"
  by (auto simp: federated_status_def updateLinkFederatedStatus_def deleteLinkFederatedStatus_def patchLinkStatus_def
        api_write_def silent_def intro!: appends_bind appends_call appends_ret appends_reads split: prod.splits)

lemma appends_run:
  assumes "appends P m"
  obtains x cs where "run_state m st = (x, st\<lparr>m_calls := m_calls st @ cs\<rparr>)" "list_all P cs"
  using assms unfolding appends_def by (elim allE [of _ st] exE conjE) (rule that)

lemma quiet_run_unit:
  assumes "quiet (m :: unit mirror)"
  obtains cs where "run_state m st = ((), st\<lparr>m_calls := m_calls st @ cs\<rparr>)" "list_all silent cs"
  using assms by (rule appends_run [of silent m st]) (metis (full_types) old.unit.exhaust that)

lemma ensure_quiet:
  assumes "accepts env" "\<And>reason msg. quiet (status reason msg)"
  obtains cs where "run_state (ensure_namespace env w status r) st = (None, st\<lparr>m_calls := m_calls st @ cs\<rparr>)" "list_all silent cs"
proof (cases "namespaceCreationEnabled w")
  case True
  show ?thesis
  proof (cases "k_Namespace r |\<in>| m_namespaces st")
    case True
    with \<open>namespaceCreationEnabled w\<close> assms(1) show ?thesis
      by (intro that [of "[]"]) (simp_all add: ensure_namespace_def mirrorNamespaceIfNecessary_def local_namespace_def
            reads_def accepts_def)
  next
    case False
    with \<open>namespaceCreationEnabled w\<close> assms(1) show ?thesis
      by (intro that [of "[CreateNamespace (k_Namespace r) _]"])
         (simp_all add: ensure_namespace_def mirrorNamespaceIfNecessary_def local_namespace_def
            reads_def accepts_def api_write_def call_def silent_def)
  qed
next
  case False
  with assms(1) show ?thesis
    by (intro that [of "[GetNamespace (k_Namespace r)]"])
       (simp_all add: ensure_namespace_def accepts_def api_write_def call_def silent_def)
qed

lemma service_at_run [simp]:
  "fmlookup (m_services st) a = Some svc \<Longrightarrow> run_state (service_at a) st = (svc, st)"
  by (simp add: service_at_def reads_def)

lemma write_run [simp]: "accepts env \<Longrightarrow> run_state (api_write env c) st = (None, st\<lparr>m_calls := m_calls st @ [c]\<rparr>)"
  by (simp add: api_write_def call_def accepts_def)

lemma create_run:
  assumes "accepts env" "k_ClusterIP r \<noteq> ClusterIPNone"
  obtains cs ds where "run_state (handleCreateFederatedService env w r) st =
      (Done, st\<lparr>m_calls := m_calls st @ cs @ CreateService (federated_service w r) # ds\<rparr>)" "list_all silent cs" "list_all silent ds"
proof -
  obtain cs where cs: "run_state (ensure_namespace env w (\<lambda>reason msg. federated_status env w r False reason msg None) r) st =
      (None, st\<lparr>m_calls := m_calls st @ cs\<rparr>)" "list_all silent cs"
    using assms(1) quiet_status(1) by (rule ensure_quiet)
  let ?st = "st\<lparr>m_calls := m_calls st @ cs @ [CreateService (federated_service w r)]\<rparr>"
  obtain ds where ds: "run_state (federated_status env w r True ''Mirrored'' [] (Some (federated_service w r))) ?st =
      ((), ?st\<lparr>m_calls := m_calls ?st @ ds\<rparr>)" "list_all silent ds"
    using quiet_status(1) by (rule quiet_run_unit)
  from assms cs ds have "run_state (handleCreateFederatedService env w r) st =
      (Done, st\<lparr>m_calls := m_calls st @ cs @ CreateService (federated_service w r) # ds\<rparr>)"
    by (simp add: handleCreateFederatedService_def create_service_def call_def accepts_def)
  with cs ds that show thesis by blast
qed

lemma join_run:
  assumes "accepts env" "k_ClusterIP r \<noteq> ClusterIPNone" and svc: "fmlookup (m_services st) a = Some svc"
    and a: "k_Annotations svc = Some ann"
  shows "case join_annotations w (k_Name r) ann of
      None \<Rightarrow> run_state (handleFederatedServiceJoin env w a r) st = (Done, st)
    | Some ann' \<Rightarrow> (\<exists>cs. run_state (handleFederatedServiceJoin env w a r) st =
        (Done, st\<lparr>m_services := fmupd a (svc\<lparr>k_Annotations := Some ann'\<rparr>) (m_services st),
           m_calls := m_calls st @ UpdateService (svc\<lparr>k_Annotations := Some ann'\<rparr>) # cs\<rparr>) \<and> list_all silent cs)"
proof (cases "join_annotations w (k_Name r) ann")
  case None
  with assms show ?thesis by (simp add: handleFederatedServiceJoin_def)
next
  case (Some ann')
  let ?svc = "svc\<lparr>k_Annotations := Some ann'\<rparr>"
  let ?st = "st\<lparr>m_services := fmupd a ?svc (m_services st), m_calls := m_calls st @ [UpdateService ?svc]\<rparr>"
  obtain ds where ds: "run_state (federated_status env w r True ''Mirrored'' [] (Some ?svc)) ?st =
      ((), ?st\<lparr>m_calls := m_calls ?st @ ds\<rparr>)" "list_all silent ds"
    using quiet_status(1) by (rule quiet_run_unit)
  with assms Some show ?thesis
    by (auto simp: handleFederatedServiceJoin_def set_service_def intro!: exI [of _ ds])
qed

lemma local_service_run:
  "accepts env \<Longrightarrow> run_state (local_service env ns n) st =
     (case fmlookup (m_serviceCache st) (ns, n) of None \<Rightarrow> Inl KNotFound | Some a \<Rightarrow> Inr a, st)"
  by (simp add: local_service_def reads_def cache_get_def accepts_def)

lemma leave_absent:
  assumes "accepts env" "fmlookup (m_serviceCache st) (ns, federatedServiceName n) = None"
  obtains cs where "run_state (handleFederatedServiceLeave env w n ns) st = (Done, st\<lparr>m_calls := m_calls st @ cs\<rparr>)"
    "list_all silent cs"
proof -
  obtain cs where "run_state (deleteLinkFederatedStatus env w n ns) st = ((), st\<lparr>m_calls := m_calls st @ cs\<rparr>)" "list_all silent cs"
    using quiet_status(2) by (rule quiet_run_unit)
  with assms that show thesis by (simp add: handleFederatedServiceLeave_def local_service_run)
qed

lemma leave_run:
  assumes "accepts env" "fmlookup (m_serviceCache st) (ns, federatedServiceName n) = Some a"
    and svc: "fmlookup (m_services st) a = Some svc" "k_Annotations svc = Some ann"
  obtains cs where "list_all silent cs"
    "case leave_annotations w n ann of
       None \<Rightarrow> run_state (handleFederatedServiceLeave env w n ns) st = (Done, st\<lparr>m_calls := m_calls st @ cs\<rparr>)
     | Some ann' \<Rightarrow> \<exists>ds. list_all silent ds \<and> run_state (handleFederatedServiceLeave env w n ns) st =
         (Done, st\<lparr>m_services := fmupd a (svc\<lparr>k_Annotations := Some ann'\<rparr>) (m_services st),
            m_calls := m_calls st @ cs @
              (if fm_str ann' RemoteDiscoveryAnnotation = [] \<and> fm_str ann' LocalDiscoveryAnnotation = []
               then DeleteService ns (federatedServiceName n) else UpdateService (svc\<lparr>k_Annotations := Some ann'\<rparr>)) # ds\<rparr>)"
proof -
  obtain cs where cs: "run_state (deleteLinkFederatedStatus env w n ns) st = ((), st\<lparr>m_calls := m_calls st @ cs\<rparr>)" "list_all silent cs"
    using quiet_status(2) by (rule quiet_run_unit)
  show thesis
  proof (cases "leave_annotations w n ann")
    case None
    with cs assms show thesis by (intro that [of cs]) (simp_all add: handleFederatedServiceLeave_def local_service_run)
  next
    case (Some ann')
    let ?st = "st\<lparr>m_services := fmupd a (svc\<lparr>k_Annotations := Some ann'\<rparr>) (m_services st),
      m_calls := m_calls st @ cs @ [DeleteService ns (federatedServiceName n)]\<rparr>"
    obtain ds where ds: "run_state (deleteLinkFederatedStatus env w n ns) ?st = ((), ?st\<lparr>m_calls := m_calls ?st @ ds\<rparr>)"
      "list_all silent ds"
      using quiet_status(2) by (rule quiet_run_unit)
    show thesis
    proof (cases "fm_str ann' RemoteDiscoveryAnnotation = [] \<and> fm_str ann' LocalDiscoveryAnnotation = []")
      case True
      with cs ds Some assms show thesis
        by (intro that [of cs]) (auto simp: handleFederatedServiceLeave_def local_service_run set_service_def intro!: exI [of _ ds])
    next
      case False
      with cs Some assms show thesis
        by (intro that [of cs]) (auto simp: handleFederatedServiceLeave_def local_service_run set_service_def intro!: exI [of _ "[]"])
    qed
  qed
qed

section \<open>One turn\<close>

lemma stored_queue: "foldl (stored key) cur (map QueueAdd evs) = cur"
  by (induction evs) (simp_all add: stored_def)

lemma queued_map: "queued (map QueueAdd evs) = evs"
  by (induction evs) (simp_all add: queued_def List.map_filter_simps)

lemma turn_eq:
  assumes "run_state m st = (x, st\<lparr>m_calls := m_calls st @ map QueueAdd evs\<rparr>)"
    and "handle_all env w evs (st\<lparr>m_calls := m_calls st @ map QueueAdd evs\<rparr>) = st2"
    and "m_calls st2 = m_calls st @ map QueueAdd evs @ rest"
  shows "turn env w key m st = snd (run_state (cache_service (fst key) (snd key) (foldl (stored key) (cached st key) rest)) st2)"
  using assms by (simp add: turn_def calls_since_def queued_map Let_def stored_queue)

definition members :: "string \<Rightarrow> string \<Rightarrow> bool \<Rightarrow> string list \<Rightarrow> CoreService \<Rightarrow> bool" where
  "members ns n l cs svc \<longleftrightarrow> k_Namespace svc = ns \<and> k_Name svc = federatedServiceName n \<and>
     MirroredResourceLabel |\<in>| fmdom (k_Labels svc) \<and> (\<exists>ann. k_Annotations svc = Some ann \<and> member_annotations n l cs ann)"

definition member_state :: "string \<Rightarrow> string \<Rightarrow> bool \<Rightarrow> string list \<Rightarrow> mirror_state \<Rightarrow> bool" where
  "member_state ns n l cs st \<longleftrightarrow>
     (\<forall>key. key \<noteq> (ns, federatedServiceName n) \<longrightarrow> fmlookup (m_serviceCache st) key = None) \<and>
     (if \<not> l \<and> cs = [] then fmlookup (m_serviceCache st) (ns, federatedServiceName n) = None
      else \<exists>a svc. fmlookup (m_serviceCache st) (ns, federatedServiceName n) = Some a \<and>
        fmlookup (m_services st) a = Some svc \<and> members ns n l cs svc)"

lemma cache_member_state:
  assumes "member_state ns n l cs st" "m_serviceCache st2 = m_serviceCache st"
    and "case obj of None \<Rightarrow> \<not> l' \<and> cs' = [] | Some svc \<Rightarrow> (l' \<or> cs' \<noteq> []) \<and> members ns n l' cs' svc"
  shows "member_state ns n l' cs' (snd (run_state (cache_service ns (federatedServiceName n) obj) st2))"
  using assms by (auto simp: member_state_def cache_service_def split: option.splits)

text \<open>A remote service of the name \<open>n\<close> that can be a member.\<close>

definition remote_ok :: "string \<Rightarrow> string \<Rightarrow> CoreService \<Rightarrow> bool" where
  "remote_ok ns n r \<longleftrightarrow> k_Namespace r = ns \<and> k_Name r = n \<and> k_ClusterIP r \<noteq> ClusterIPNone \<and>
     fmlookup (annotations_of r) RemoteDiscoveryAnnotation = None \<and> fmlookup (annotations_of r) LocalDiscoveryAnnotation = None"

lemma created_members:
  assumes "remote_ok ns n r" "name_ok (TargetClusterName (link w))" (is "name_ok ?c")
  shows "members ns n (?c = []) (if ?c = [] then [] else [?c]) (federated_service w r)"
proof -
  have "fm_str (getCommonServiceAnnotations r) RemoteDiscoveryAnnotation = []"
    "fm_str (getCommonServiceAnnotations r) LocalDiscoveryAnnotation = []"
    using assms(1) by (auto simp: getCommonServiceAnnotations_def fm_str_def remote_ok_def Let_def split: option.splits)
  then have "member_annotations n (?c = []) (if ?c = [] then [] else [?c]) (getFederatedServiceAnnotations w r)"
    using assms by (auto simp: member_annotations_def getFederatedServiceAnnotations_def remote_target_eq remote_ok_def)
  moreover have "MirroredResourceLabel |\<in>| fmdom (getCommonServiceLabels r)"
    by (rule fmdomI [of _ _ "''true''"]) (simp add: common_labels)
  ultimately show ?thesis
    using assms(1) by (simp add: members_def federated_service_def zero_Service_def getFederatedServiceLabels_def remote_ok_def)
qed

lemma members_update:
  "members ns n l cs svc \<Longrightarrow> member_annotations n l' cs' ann \<Longrightarrow> members ns n l' cs' (svc\<lparr>k_Annotations := Some ann\<rparr>)"
  by (auto simp: members_def)

lemma turn_none:
  assumes st: "member_state ns n l cs st" and m: "run_state m st = (x, st)"
  shows "member_state ns n l cs (turn env w (ns, federatedServiceName n) m st)"
proof -
  have "turn env w (ns, federatedServiceName n) m st =
      snd (run_state (cache_service ns (federatedServiceName n) (cached st (ns, federatedServiceName n))) st)"
    using turn_eq [of m st x "[]" env w st "[]" "(ns, federatedServiceName n)"] m by simp
  moreover have "case cached st (ns, federatedServiceName n) of None \<Rightarrow> \<not> l \<and> cs = []
      | Some svc \<Rightarrow> (l \<or> cs \<noteq> []) \<and> members ns n l cs svc"
    using st by (auto simp: member_state_def cached_def split: if_splits)
  ultimately show ?thesis using cache_member_state [OF st refl] by simp
qed

lemma turn_create:
  assumes st: "member_state ns n False [] st" and env: "accepts env" and r: "remote_ok ns n r"
    and c: "name_ok (TargetClusterName (link w))" (is "name_ok ?c")
    and m: "run_state m st = (x, st\<lparr>m_calls := m_calls st @ [QueueAdd (CreateFederatedService r)]\<rparr>)"
  shows "member_state ns n (?c = []) (if ?c = [] then [] else [?c]) (turn env w (ns, federatedServiceName n) m st)"
proof -
  let ?key = "(ns, federatedServiceName n)" and ?svc = "federated_service w r"
  let ?st1 = "st\<lparr>m_calls := m_calls st @ [QueueAdd (CreateFederatedService r)]\<rparr>"
  have "k_ClusterIP r \<noteq> ClusterIPNone" using r by (simp add: remote_ok_def)
  with env obtain xs ys where run: "run_state (handleCreateFederatedService env w r) ?st1 =
      (Done, ?st1\<lparr>m_calls := m_calls ?st1 @ xs @ CreateService ?svc # ys\<rparr>)" "list_all silent xs" "list_all silent ys"
    by (rule create_run)
  have mem: "members ns n (?c = []) (if ?c = [] then [] else [?c]) ?svc" using r c by (rule created_members)
  then have "foldl (stored ?key) cur (xs @ CreateService ?svc # ys) = Some ?svc" for cur
    by (simp add: stored_silent run(2,3)) (simp add: stored_def members_def)
  with turn_eq [of m st x "[CreateFederatedService r]" env w _ "xs @ CreateService ?svc # ys" ?key] m run(1)
  have "turn env w ?key m st = snd (run_state (cache_service ns (federatedServiceName n) (Some ?svc))
      (?st1\<lparr>m_calls := m_calls ?st1 @ xs @ CreateService ?svc # ys\<rparr>))"
    by simp
  with mem show ?thesis using cache_member_state [OF st, where obj = "Some ?svc"] by auto
qed

lemma turn_join:
  assumes st: "member_state ns n l cs st" and env: "accepts env" and r: "remote_ok ns n r" and n: "name_ok n"
    and c: "name_ok (TargetClusterName (link w))" (is "name_ok ?c")
    and a: "fmlookup (m_serviceCache st) (ns, federatedServiceName n) = Some a"
    and m: "run_state m st = (x, st\<lparr>m_calls := m_calls st @ [QueueAdd (RemoteServiceJoinsFederatedService a r)]\<rparr>)"
  shows "member_state ns n (l \<or> ?c = []) (if ?c = [] \<or> ?c \<in> set cs then cs else cs @ [?c]) (turn env w (ns, federatedServiceName n) m st)"
proof -
  let ?key = "(ns, federatedServiceName n)" and ?ev = "RemoteServiceJoinsFederatedService a r"
  let ?st1 = "st\<lparr>m_calls := m_calls st @ [QueueAdd ?ev]\<rparr>"
  from st a obtain svc where svc: "fmlookup (m_services st) a = Some svc" "members ns n l cs svc" and ne: "l \<or> cs \<noteq> []"
    by (auto simp: member_state_def split: if_splits)
  then obtain ann where ann: "k_Annotations svc = Some ann" "member_annotations n l cs ann" by (auto simp: members_def)
  note join = join_member [OF ann(2) n c]
  note run = join_run [OF env, of r ?st1 a svc ann w, simplified svc ann]
  show ?thesis
  proof (cases "join_annotations w n ann")
    case None
    with run r svc ann have "handle_all env w [?ev] ?st1 = ?st1" by (simp add: remote_ok_def)
    with turn_eq [of m st x "[?ev]" env w ?st1 "[]" ?key] m
    have "turn env w ?key m st = snd (run_state (cache_service ns (federatedServiceName n) (Some svc)) ?st1)"
      using a svc by (simp add: cached_def)
    moreover have "?c \<noteq> [] \<and> ?c \<in> set cs" using join None by simp
    ultimately show ?thesis using cache_member_state [OF st, where obj = "Some svc"] svc ne by simp
  next
    case (Some ann')
    let ?svc = "svc\<lparr>k_Annotations := Some ann'\<rparr>"
    from run r svc ann Some obtain xs where xs: "handle_all env w [?ev] ?st1 =
        ?st1\<lparr>m_services := fmupd a ?svc (m_services st), m_calls := m_calls ?st1 @ UpdateService ?svc # xs\<rparr>" "list_all silent xs"
      by (auto simp: remote_ok_def)
    have "stored ?key cur (UpdateService ?svc) = Some ?svc" for cur using svc by (simp add: stored_def members_def)
    with turn_eq [of m st x "[?ev]" env w _ "UpdateService ?svc # xs" ?key] m xs
    have "turn env w ?key m st = snd (run_state (cache_service ns (federatedServiceName n) (Some ?svc))
        (?st1\<lparr>m_services := fmupd a ?svc (m_services st), m_calls := m_calls ?st1 @ UpdateService ?svc # xs\<rparr>))"
      by (simp add: stored_silent)
    moreover have "members ns n (l \<or> ?c = []) (if ?c = [] \<or> ?c \<in> set cs then cs else cs @ [?c]) ?svc"
      using join Some members_update [OF svc(2)] by (auto split: if_splits)
    ultimately show ?thesis using cache_member_state [OF st, where obj = "Some ?svc"] ne by auto
  qed
qed

lemma turn_leave_absent:
  assumes st: "member_state ns n l cs st" and env: "accepts env"
    and a: "fmlookup (m_serviceCache st) (ns, federatedServiceName n) = None"
    and m: "run_state m st = (x, st\<lparr>m_calls := m_calls st @ [QueueAdd (RemoteServiceLeavesFederatedService n ns)]\<rparr>)"
  shows "member_state ns n l cs (turn env w (ns, federatedServiceName n) m st)" and "\<not> l" and "cs = []"
proof -
  let ?key = "(ns, federatedServiceName n)" and ?ev = "RemoteServiceLeavesFederatedService n ns"
  let ?st1 = "st\<lparr>m_calls := m_calls st @ [QueueAdd ?ev]\<rparr>"
  show e: "\<not> l" "cs = []" using st a by (auto simp: member_state_def split: if_splits)
  have "fmlookup (m_serviceCache ?st1) ?key = None" using a by simp
  with env obtain xs where xs: "run_state (handleFederatedServiceLeave env w n ns) ?st1 =
      (Done, ?st1\<lparr>m_calls := m_calls ?st1 @ xs\<rparr>)" "list_all silent xs"
    by (rule leave_absent)
  with turn_eq [of m st x "[?ev]" env w _ xs ?key] m
  have "turn env w ?key m st = snd (run_state (cache_service ns (federatedServiceName n) None) (?st1\<lparr>m_calls := m_calls ?st1 @ xs\<rparr>))"
    using a by (simp add: stored_silent cached_def)
  then show "member_state ns n l cs (turn env w ?key m st)" using cache_member_state [OF st, where obj = None] e by simp
qed

lemma turn_leave:
  assumes st: "member_state ns n l cs st" and env: "accepts env" and n: "name_ok n" "n \<noteq> []"
    and c: "name_ok (TargetClusterName (link w))" (is "name_ok ?c")
    and a: "fmlookup (m_serviceCache st) (ns, federatedServiceName n) = Some a"
    and m: "run_state m st = (x, st\<lparr>m_calls := m_calls st @ [QueueAdd (RemoteServiceLeavesFederatedService n ns)]\<rparr>)"
  shows "member_state ns n (l \<and> ?c \<noteq> []) (removeAll ?c cs) (turn env w (ns, federatedServiceName n) m st)"
proof -
  let ?key = "(ns, federatedServiceName n)" and ?ev = "RemoteServiceLeavesFederatedService n ns"
  let ?st1 = "st\<lparr>m_calls := m_calls st @ [QueueAdd ?ev]\<rparr>"
  from st a obtain svc where svc: "fmlookup (m_services st) a = Some svc" "members ns n l cs svc" and ne: "l \<or> cs \<noteq> []"
    by (auto simp: member_state_def split: if_splits)
  then obtain ann where ann: "k_Annotations svc = Some ann" "member_annotations n l cs ann" by (auto simp: members_def)
  have no_empty: "[] \<notin> set cs" using ann(2) by (auto simp: member_annotations_def)
  note leave = leave_member [OF ann(2) n(1) c]
  have "fmlookup (m_serviceCache ?st1) ?key = Some a" "fmlookup (m_services ?st1) a = Some svc" using a svc by simp_all
  with env obtain xs where xs: "list_all silent xs" and run: "case leave_annotations w n ann of
      None \<Rightarrow> run_state (handleFederatedServiceLeave env w n ns) ?st1 = (Done, ?st1\<lparr>m_calls := m_calls ?st1 @ xs\<rparr>)
    | Some ann' \<Rightarrow> \<exists>ds. list_all silent ds \<and> run_state (handleFederatedServiceLeave env w n ns) ?st1 =
        (Done, ?st1\<lparr>m_services := fmupd a (svc\<lparr>k_Annotations := Some ann'\<rparr>) (m_services ?st1),
           m_calls := m_calls ?st1 @ xs @
             (if fm_str ann' RemoteDiscoveryAnnotation = [] \<and> fm_str ann' LocalDiscoveryAnnotation = []
              then DeleteService ns (federatedServiceName n) else UpdateService (svc\<lparr>k_Annotations := Some ann'\<rparr>)) # ds\<rparr>)"
    using ann(1) by (rule leave_run)
  show ?thesis
  proof (cases "leave_annotations w n ann")
    case None
    with run turn_eq [of m st x "[?ev]" env w _ xs ?key] m
    have "turn env w ?key m st = snd (run_state (cache_service ns (federatedServiceName n) (Some svc)) (?st1\<lparr>m_calls := m_calls ?st1 @ xs\<rparr>))"
      using a svc xs by (simp add: stored_silent cached_def)
    moreover have "?c \<noteq> [] \<and> ?c \<notin> set cs" using leave None by simp
    ultimately show ?thesis using cache_member_state [OF st, where obj = "Some svc"] svc ne by simp
  next
    case (Some ann')
    let ?svc = "svc\<lparr>k_Annotations := Some ann'\<rparr>"
    let ?gone = "fm_str ann' RemoteDiscoveryAnnotation = [] \<and> fm_str ann' LocalDiscoveryAnnotation = []"
    let ?w = "if ?gone then DeleteService ns (federatedServiceName n) else UpdateService ?svc"
    obtain ds where ds: "list_all silent ds" "run_state (handleFederatedServiceLeave env w n ns) ?st1 =
        (Done, ?st1\<lparr>m_services := fmupd a ?svc (m_services ?st1), m_calls := m_calls ?st1 @ xs @ ?w # ds\<rparr>)"
      using run unfolding Some option.case by (elim exE conjE) (rule that)
    have new: "member_annotations n (l \<and> ?c \<noteq> []) (removeAll ?c cs) ann'"
      using leave Some no_empty by (auto split: if_splits simp: removeAll_id)
    have gone: "?gone \<longleftrightarrow> \<not> (l \<and> ?c \<noteq> []) \<and> removeAll ?c cs = []"
      using new n(2) join_targets_empty [of n "removeAll ?c cs"] by (auto simp: member_annotations_def)
    have "foldl (stored ?key) cur (xs @ ?w # ds) = (if ?gone then None else Some ?svc)" for cur
      using svc(2) by (simp add: stored_silent xs ds) (simp add: stored_def members_def)
    with turn_eq [of m st x "[?ev]" env w _ "xs @ ?w # ds" ?key] m ds(2)
    have "turn env w ?key m st = snd (run_state (cache_service ns (federatedServiceName n) (if ?gone then None else Some ?svc))
        (?st1\<lparr>m_services := fmupd a ?svc (m_services ?st1), m_calls := m_calls ?st1 @ xs @ ?w # ds\<rparr>))"
      by simp
    with members_update [OF svc(2) new] gone show ?thesis
      using cache_member_state [OF st, where obj = "if ?gone then None else Some ?svc"] by simp
  qed
qed

section \<open>Runs\<close>

text \<open>
  The services of the name \<open>n\<close> are federated only. A cluster called \<open>federated\<close> would give its
  mirror services the names of federated services.
\<close>

fun change_ok :: "string \<Rightarrow> string \<Rightarrow> member_change \<Rightarrow> bool" where
  "change_ok ns n (ServiceSeen env w r) \<longleftrightarrow> accepts env \<and> remote_ok ns n r \<and> name_ok (TargetClusterName (link w)) \<and>
     TargetClusterName (link w) \<noteq> ''federated'' \<and> \<not> isExported env w (k_Labels r) \<and> \<not> isRemoteDiscovery env w (k_Labels r)"
| "change_ok ns n (ServiceDeleted env w r) \<longleftrightarrow> accepts env \<and> remote_ok ns n r \<and> name_ok (TargetClusterName (link w)) \<and>
     \<not> isExported env w (k_Labels r) \<and> \<not> isRemoteDiscovery env w (k_Labels r)"

lemma queue_run [simp]: "run_state (queue_add ev) st = ((), st\<lparr>m_calls := m_calls st @ [QueueAdd ev]\<rparr>)"
  by (simp add: queue_add_def call_def)

lemma seen_run:
  assumes "member_state ns n l cs st" "change_ok ns n (ServiceSeen env w r)"
  shows "run_state (createOrUpdateService env w r) st =
    (if isFederatedServiceMember env w (k_Labels r)
     then (Done, st\<lparr>m_calls := m_calls st @ [QueueAdd (case fmlookup (m_serviceCache st) (ns, federatedServiceName n) of
       None \<Rightarrow> CreateFederatedService r | Some a \<Rightarrow> RemoteServiceJoinsFederatedService a r)]\<rparr>)
     else (Done, case fmlookup (m_serviceCache st) (ns, federatedServiceName n) of
       None \<Rightarrow> st | Some a \<Rightarrow> st\<lparr>m_calls := m_calls st @ [QueueAdd (RemoteServiceLeavesFederatedService n ns)]\<rparr>))"
proof -
  have r: "k_Namespace r = ns" "k_Name r = n" "accepts env" using assms(2) by (simp_all add: remote_ok_def)
  have "mirrorServiceName w n \<noteq> federatedServiceName n"
    using assms(2) by (auto simp: mirrorServiceName_def federatedServiceName_def)
  then have "fmlookup (m_serviceCache st) (ns, mirrorServiceName w n) = None"
    using assms(1) by (auto simp: member_state_def)
  then have q: "run_state (queue_mirror env w r) st = (None, st)"
    using assms(2) r by (simp add: queue_mirror_def local_service_run)
  have "MirroredResourceLabel |\<in>| fmdom (k_Labels svc)"
    if "fmlookup (m_serviceCache st) (ns, federatedServiceName n) = Some a" "fmlookup (m_services st) a = Some svc" for a svc
    using assms(1) that by (auto simp: member_state_def members_def split: if_splits)
  moreover have "\<exists>svc. fmlookup (m_services st) a = Some svc"
    if "fmlookup (m_serviceCache st) (ns, federatedServiceName n) = Some a" for a
    using assms(1) that by (auto simp: member_state_def split: if_splits)
  ultimately have "\<exists>svc. fmlookup (m_services st) a = Some svc \<and> MirroredResourceLabel |\<in>| fmdom (k_Labels svc)"
    if "fmlookup (m_serviceCache st) (ns, federatedServiceName n) = Some a" for a
    using that by blast
  then have "\<exists>svc. run_state (service_at a) st = (svc, st) \<and> MirroredResourceLabel |\<in>| fmdom (k_Labels svc)"
    if "fmlookup (m_serviceCache st) (ns, federatedServiceName n) = Some a" for a
    using that service_at_run by blast
  then show ?thesis
    by (auto simp: createOrUpdateService_def q queue_federated_def r local_service_run split: option.splits)
qed

lemma deleted_run:
  assumes "change_ok ns n (ServiceDeleted env w r)"
  shows "run_state (handleOnDelete env w r) st =
    ((), if isFederatedServiceMember env w (k_Labels r)
         then st\<lparr>m_calls := m_calls st @ [QueueAdd (RemoteServiceLeavesFederatedService n ns)]\<rparr> else st)"
  using assms by (auto simp: handleOnDelete_def remote_ok_def)

text \<open>The clusters that \<open>l\<close> and \<open>cs\<close> stand for.\<close>

definition clusters :: "bool \<Rightarrow> string list \<Rightarrow> string set" where
  "clusters l cs = (if l then insert [] (set cs) else set cs)"

lemma no_empty_member: "member_state ns n l cs st \<Longrightarrow> [] \<notin> set cs"
  by (auto simp: member_state_def members_def member_annotations_def split: if_splits)

lemma leave_step:
  assumes st: "member_state ns n l cs st" and env: "accepts env" "name_ok (TargetClusterName (link w))" and n: "name_ok n" "n \<noteq> []"
    and m: "run_state m st = (x, st\<lparr>m_calls := m_calls st @ [QueueAdd (RemoteServiceLeavesFederatedService n ns)]\<rparr>)"
  shows "\<exists>l' cs'. member_state ns n l' cs' (turn env w (ns, federatedServiceName n) m st) \<and>
    clusters l' cs' = clusters l cs - {TargetClusterName (link w)}"
proof (cases "fmlookup (m_serviceCache st) (ns, federatedServiceName n)")
  case None
  from turn_leave_absent [OF st env(1) None m] show ?thesis by (intro exI [of _ l] exI [of _ cs]) (simp add: clusters_def)
next
  case (Some a)
  from turn_leave [OF st env(1) n env(2) Some m] no_empty_member [OF st] show ?thesis
    by (intro exI conjI) (assumption, auto simp: clusters_def)
qed

lemma member_step_ok:
  assumes st: "member_state ns n l cs st" and ch: "change_ok ns n ch" and n: "name_ok n" "n \<noteq> []"
  shows "\<exists>l' cs'. member_state ns n l' cs' (member_turn (ns, federatedServiceName n) st ch) \<and>
    clusters l' cs' = member_wanted (clusters l cs) ch"
proof (cases ch)
  case (ServiceSeen env w r)
  let ?c = "TargetClusterName (link w)" and ?key = "(ns, federatedServiceName n)"
  have ok: "accepts env" "remote_ok ns n r" "name_ok ?c" using ch ServiceSeen by simp_all
  note run = seen_run [OF st ch [unfolded ServiceSeen]]
  show ?thesis
  proof (cases "isFederatedServiceMember env w (k_Labels r)")
    case member: True
    show ?thesis
    proof (cases "fmlookup (m_serviceCache st) ?key")
      case None
      then have "\<not> l" "cs = []" using st by (auto simp: member_state_def split: if_splits)
      with turn_create [of ns n st env r w _ Done] st ok run None member show ?thesis
        by (intro exI [of _ "?c = []"] exI [of _ "if ?c = [] then [] else [?c]"]) (auto simp: ServiceSeen clusters_def)
    next
      case (Some a)
      with turn_join [OF st ok(1,2) n(1) ok(3) Some] run member show ?thesis
        by (intro exI [of _ "l \<or> ?c = []"] exI [of _ "if ?c = [] \<or> ?c \<in> set cs then cs else cs @ [?c]"])
           (auto simp: ServiceSeen clusters_def)
    qed
  next
    case False
    show ?thesis
    proof (cases "fmlookup (m_serviceCache st) ?key")
      case None
      then have "\<not> l" "cs = []" using st by (auto simp: member_state_def split: if_splits)
      with turn_none [OF st] run None False show ?thesis
        by (intro exI [of _ l] exI [of _ cs]) (simp add: ServiceSeen clusters_def)
    next
      case (Some a)
      with leave_step [OF st ok(1,3) n, of "createOrUpdateService env w r" Done] run False show ?thesis
        by (simp add: ServiceSeen)
    qed
  qed
next
  case (ServiceDeleted env w r)
  let ?c = "TargetClusterName (link w)"
  have ok: "accepts env" "name_ok ?c" using ch ServiceDeleted by simp_all
  note run = deleted_run [OF ch [unfolded ServiceDeleted], of st]
  show ?thesis
  proof (cases "isFederatedServiceMember env w (k_Labels r)")
    case True
    with leave_step [OF st ok n, of "handleOnDelete env w r" "()"] run show ?thesis by (simp add: ServiceDeleted)
  next
    case False
    with turn_none [OF st] run show ?thesis by (intro exI [of _ l] exI [of _ cs]) (simp add: ServiceDeleted)
  qed
qed

lemma member_run_ok:
  assumes "list_all (change_ok ns n) changes" "name_ok n" "n \<noteq> []" "member_state ns n l cs st"
  shows "\<exists>l' cs'. member_state ns n l' cs' (foldl (member_turn (ns, federatedServiceName n)) st changes) \<and>
    clusters l' cs' = foldl member_wanted (clusters l cs) changes"
  using assms
proof (induction changes arbitrary: l cs st)
  case (Cons ch changes)
  from member_step_ok [OF Cons.prems(4) _ Cons.prems(2,3), of ch] Cons.prems(1)
  obtain l1 cs1 where 1: "member_state ns n l1 cs1 (member_turn (ns, federatedServiceName n) st ch)"
    "clusters l1 cs1 = member_wanted (clusters l cs) ch" by auto
  from Cons.IH [OF _ Cons.prems(2,3) 1(1)] Cons.prems(1) 1(2) show ?case by simp
qed auto

definition federated_after :: "string \<Rightarrow> string \<Rightarrow> member_change list \<Rightarrow> CoreService option" where
  "federated_after ns n changes =
     cached (foldl (member_turn (ns, federatedServiceName n)) new_watcher_state changes) (ns, federatedServiceName n)"

definition members_after :: "member_change list \<Rightarrow> string set" where
  "members_after changes = foldl member_wanted {} changes"


section \<open>A sample\<close>

definition sample_mirror_env :: mirror_env where
  "sample_mirror_env =
     \<lparr>me_write = (\<lambda>_ _. None), me_created = (\<lambda>_ svc. svc), me_getEndpoints = (\<lambda>_ _ _. Inl KNotFound),
      me_listServices = (\<lambda>_ _. Inr []), me_getLink = (\<lambda>_. (None, \<lparr>MirrorServices = [], FederatedServices = []\<rparr>)),
      me_lookupIP = (\<lambda>_ _. Inr [''192.0.2.1'']), me_now = length, me_text = (\<lambda>_. ''error''),
      me_selector = (\<lambda>s. case s of None \<Rightarrow> Inr (\<lambda>_. False)
        | Some sel \<Rightarrow> Inr (\<lambda>l. fmpred (\<lambda>k v. fmlookup l k = Some v) (MatchLabels sel))),
      me_keys = sorted_list_of_fset, me_cacheError = None, me_remoteServices = fmempty, me_remoteEndpoints = fmempty,
      me_remoteError = None\<rparr>"

definition sample_link :: "string \<Rightarrow> Link" where
  "sample_link cluster =
     \<lparr>TargetClusterName = cluster, TargetClusterDomain = ''cluster.local'',
      TargetClusterLinkerdNamespace = ''linkerd'', ClusterCredentialsSecret = ''cluster-credentials-'' @ cluster, GatewayAddress = ''gateway.example'',
      GatewayPort = ''4143'', GatewayIdentity = ''gateway.linkerd'', link_ProbeSpec = \<lparr>probe_Path = ''/ready'', probe_Port = ''4191'',
        probe_Period = ''3s'', probe_Timeout = ''1s'', probe_FailureThreshold = ''3''\<rparr>,
      Selector = Some \<lparr>MatchLabels = fmupd ''mirror.linkerd.io/exported'' ''true'' fmempty, MatchExpressions = []\<rparr>,
      RemoteDiscoverySelector = None,
      FederatedServiceSelector = Some \<lparr>MatchLabels = fmupd ''mirror.linkerd.io/federated'' ''member'' fmempty, MatchExpressions = []\<rparr>\<rparr>"

definition sample_watcher :: "string \<Rightarrow> RemoteClusterServiceWatcher" where
  "sample_watcher cluster = \<lparr>serviceMirrorNamespace = ''linkerd-multicluster'', link = sample_link cluster, requeueLimit = 3,
     headlessServicesEnabled = False, namespaceCreationEnabled = False\<rparr>"

definition sample_remote :: "labels \<Rightarrow> CoreService" where
  "sample_remote l = zero_Service\<lparr>k_Name := ''web'', k_Namespace := ''ns'', k_ResourceVersion := ''7'', k_Labels := l,
     k_ClusterIP := ''10.0.0.1''\<rparr>"

abbreviation member_labels :: labels where
  "member_labels \<equiv> fmupd ''mirror.linkerd.io/federated'' ''member'' fmempty"

lemmas sample_defs = sample_mirror_env_def sample_watcher_def sample_link_def sample_remote_def zero_Service_def

lemma sample_selected:
  "isFederatedServiceMember sample_mirror_env (sample_watcher c) (k_Labels (sample_remote member_labels))"
  "\<not> isExported sample_mirror_env (sample_watcher c) (k_Labels (sample_remote member_labels))"
  "\<not> isRemoteDiscovery sample_mirror_env (sample_watcher c) (k_Labels (sample_remote member_labels))"
  by (simp_all add: isFederatedServiceMember_def isExported_def isRemoteDiscovery_def link_selects_def sample_defs fmpred_iff)

lemma sample_cluster: "TargetClusterName (link (sample_watcher c)) = c"
  by (simp add: sample_defs)


end
