(* ===== verification/Mirror_Properties.thy ===== *)
theory Mirror_Properties
  imports Mirror_Federation
begin

text \<open>
  Properties of the handlers of the service mirror: readiness of endpoints, repair of
  endpoints, clean-ups, lost updates and the status of the link.
\<close>

section \<open>Readiness\<close>


section \<open>Lost updates\<close>

lemma split_on_append: "split_on c (s @ c # t) = split_on c s @ split_on c t"
proof (induction s)
  case (Cons x s)
  obtain y ys where "split_on c s = y # ys" by (cases "split_on c s") auto
  with Cons show ?case by simp
qed simp

lemma join_twice:
  assumes "join_annotations w n ann = Some ann'" "TargetClusterName (link w) \<noteq> []"
    and "name_ok n" "name_ok (TargetClusterName (link w))"
  shows "join_annotations w n ann' = None"
proof -
  have "CHR '','' \<notin> set (remote_target w n)"
    using target_no_comma [OF assms(3,4)] by (simp add: remote_target_eq)
  then have "remote_target w n \<in> set (split_on (CHR '','') (remote_target w n))" by (simp add: split_on_no_sep)
  with assms(1,2) show ?thesis
    by (auto simp: join_annotations_def Let_def remoteDiscoveryContains_def split_on_append split: if_splits)
qed

lemma failed_join_state:
  assumes "run_state (handleFederatedServiceJoin env w a remote) st = (Failed (RetryableError es), st')"
  obtains svc ann ann' where "k_ClusterIP remote \<noteq> ClusterIPNone" "join_annotations w (k_Name remote) ann = Some ann'"
    "fmlookup (m_services st') a = Some (svc\<lparr>k_Annotations := Some ann'\<rparr>)"
proof -
  let ?svc = "case fmlookup (m_services st) a of None \<Rightarrow> zero_Service | Some svc \<Rightarrow> svc"
  have ip: "k_ClusterIP remote \<noteq> ClusterIPNone"
    using assms by (auto simp: handleFederatedServiceJoin_def split: if_splits prod.splits)
  from assms ip obtain ann' where j: "join_annotations w (k_Name remote) (annotations_of ?svc) = Some ann'"
    and nn: "k_Annotations ?svc \<noteq> None"
    by (auto simp: handleFederatedServiceJoin_def service_at_def reads_def split: option.splits if_splits)
  let ?new = "?svc\<lparr>k_Annotations := Some ann'\<rparr>"
  let ?st = "st\<lparr>m_services := fmupd a ?new (m_services st), m_calls := m_calls st @ [UpdateService ?new]\<rparr>"
  have "\<exists>m. quiet (m :: unit mirror) \<and> st' = snd (run_state m ?st)"
  proof (cases "me_write env (m_calls st) (UpdateService ?new)")
    case None
    with assms ip j nn show ?thesis
      by (auto simp: handleFederatedServiceJoin_def service_at_def reads_def set_service_def api_write_def call_def
          split: prod.splits)
  next
    case (Some e)
    let ?m = "federated_status env w remote False ''Error'' (''Failed to update federated service: '' @ me_text env e) None"
    from Some assms ip j nn have "st' = snd (run_state ?m ?st)"
      by (auto simp: handleFederatedServiceJoin_def service_at_def reads_def set_service_def api_write_def call_def
          split: prod.splits)
    with quiet_status(1) show ?thesis by blast
  qed
  then obtain m :: "unit mirror" where m: "quiet m" "st' = snd (run_state m ?st)" by (elim exE conjE) (rule that)
  obtain cs where "run_state m ?st = ((), ?st\<lparr>m_calls := m_calls ?st @ cs\<rparr>)" using m(1) by (rule quiet_run_unit)
  with m(2) have "fmlookup (m_services st') a = Some ?new" by simp
  with ip j that show thesis by blast
qed


section \<open>Clean-ups\<close>

text \<open>The cache of a state lists its objects under their names; the order of a listing is not fixed.\<close>

definition keys_ok :: "mirror_env \<Rightarrow> bool" where
  "keys_ok env \<longleftrightarrow> (\<forall>S. set (me_keys env S) = fset S)"

definition cached_endpoints :: "mirror_state \<Rightarrow> string \<times> string \<Rightarrow> CoreEndpoints option" where
  "cached_endpoints st key = Option.bind (fmlookup (m_endpointsCache st) key) (fmlookup (m_endpoints st))"

definition cache_named :: "mirror_state \<Rightarrow> bool" where
  "cache_named st \<longleftrightarrow> (\<forall>key svc. cached st key = Some svc \<longrightarrow> key = (k_Namespace svc, k_Name svc))"

definition delete_call :: "CoreService \<Rightarrow> mirror_call" where
  "delete_call svc = DeleteService (k_Namespace svc) (k_Name svc)"

definition delete_endpoints_call :: "CoreEndpoints \<Rightarrow> mirror_call" where
  "delete_endpoints_call ep = DeleteEndpoints (ke_Namespace ep) (ke_Name ep)"

lemma listed:
  assumes "\<forall>key x. f key = Some x \<longrightarrow> key |\<in>| S"
  shows "x \<in> set (filter P (List.map_filter f keys)) \<Longrightarrow> P x \<and> (\<exists>key. f key = Some x)"
    and "set keys = fset S \<Longrightarrow> set (filter P (List.map_filter f keys)) = {x. P x \<and> (\<exists>key. f key = Some x)}"
  using assms by (fastforce simp: in_set_map_filter)+

lemma list_services_run:
  assumes "me_cacheError env = None"
  shows "\<exists>svcs. run_state (list_services env sel) st = (Inr svcs, st) \<and>
    (\<forall>svc \<in> set svcs. selects sel (k_Labels svc) \<and> (\<exists>key. cached st key = Some svc)) \<and>
    (keys_ok env \<longrightarrow> set svcs = {svc. selects sel (k_Labels svc) \<and> (\<exists>key. cached st key = Some svc)})"
proof -
  let ?keys = "me_keys env (fmdom (m_serviceCache st))"
  let ?svcs = "filter (\<lambda>svc. selects sel (k_Labels svc)) (List.map_filter (cached st) ?keys)"
  have c: "(\<lambda>key. Option.bind (fmlookup (m_serviceCache st) key) (fmlookup (m_services st))) = cached st"
    by (simp add: fun_eq_iff cached_def)
  have run: "run_state (list_services env sel) st = (Inr ?svcs, st)"
    using assms by (simp add: list_services_def reads_def c)
  have dom: "\<forall>key svc. cached st key = Some svc \<longrightarrow> key |\<in>| fmdom (m_serviceCache st)"
    by (auto simp: cached_def bind_eq_Some_conv intro: fmdomI)
  note in_list = listed [where f = "cached st" and S = "fmdom (m_serviceCache st)" and P = "\<lambda>svc. selects sel (k_Labels svc)"
    and keys = ?keys, OF dom]
  have "\<forall>svc \<in> set ?svcs. selects sel (k_Labels svc) \<and> (\<exists>key. cached st key = Some svc)"
    using in_list(1) by blast
  moreover have "keys_ok env \<longrightarrow> set ?svcs = {svc. selects sel (k_Labels svc) \<and> (\<exists>key. cached st key = Some svc)}"
    using in_list(2) unfolding keys_ok_def by blast
  ultimately show ?thesis using run by (intro exI conjI)
qed

lemma list_endpoints_run:
  assumes "me_cacheError env = None" "keys_ok env"
  obtains eps where "run_state (list_endpoints env sel) st = (Inr eps, st)"
    "set eps = {ep. selects sel (ke_Labels ep) \<and> (\<exists>key. cached_endpoints st key = Some ep)}"
proof -
  let ?keys = "me_keys env (fmdom (m_endpointsCache st))"
  let ?eps = "filter (\<lambda>ep. selects sel (ke_Labels ep)) (List.map_filter (cached_endpoints st) ?keys)"
  have c: "(\<lambda>key. Option.bind (fmlookup (m_endpointsCache st) key) (fmlookup (m_endpoints st))) = cached_endpoints st"
    by (simp add: fun_eq_iff cached_endpoints_def)
  have run: "run_state (list_endpoints env sel) st = (Inr ?eps, st)"
    using assms by (simp add: list_endpoints_def reads_def c)
  have dom: "\<forall>key ep. cached_endpoints st key = Some ep \<longrightarrow> key |\<in>| fmdom (m_endpointsCache st)"
    by (auto simp: cached_endpoints_def bind_eq_Some_conv intro: fmdomI)
  note in_list = listed(2) [where f = "cached_endpoints st" and S = "fmdom (m_endpointsCache st)"
    and P = "\<lambda>ep. selects sel (ke_Labels ep)" and keys = ?keys, OF dom]
  have "set ?eps = {ep. selects sel (ke_Labels ep) \<and> (\<exists>key. cached_endpoints st key = Some ep)}"
    using in_list assms(2) unfolding keys_ok_def by blast
  with run show thesis by (rule that)
qed

lemma delete_services_run:
  "accepts env \<Longrightarrow> run_state (delete_services env d svcs) st = ([], st\<lparr>m_calls := m_calls st @ map delete_call svcs\<rparr>)"
  by (induction svcs arbitrary: st) (simp_all add: delete_call_def)

lemma delete_endpoints_run:
  "accepts env \<Longrightarrow> run_state (delete_all_endpoints env eps) st = ([], st\<lparr>m_calls := m_calls st @ map delete_endpoints_call eps\<rparr>)"
  by (induction eps arbitrary: st) (simp_all add: delete_endpoints_call_def)

text \<open>
  C14. When a cluster is unlinked and the API server accepts the deletions, the clean-up deletes
  exactly the services and endpoints of the caches that carry the label of mirrored resources
  and the name of the cluster. Every mirror service and every endpoints object of one the
  watcher ever creates is among them.
\<close>

theorem unlink_deletes_mirrors:
  assumes "accepts env" and "keys_ok env"
  shows "\<exists>svcs eps. run_state (cleanupMirroredResources env w) st =
      (Done, st\<lparr>m_calls := m_calls st @ map delete_call svcs @ map delete_endpoints_call eps\<rparr>) \<and>
    set svcs = {svc. selects (cluster_labels w) (k_Labels svc) \<and> (\<exists>key. cached st key = Some svc)} \<and>
    set eps = {ep. selects (cluster_labels w) (ke_Labels ep) \<and> (\<exists>key. cached_endpoints st key = Some ep)} \<and>
    (\<forall>key r env'. cached st key = Some (mirror_service env' w r) \<longrightarrow> mirror_service env' w r \<in> set svcs) \<and>
    (\<forall>key ep. endpoints_form w ep \<longrightarrow> cached_endpoints st key = Some ep \<longrightarrow> ep \<in> set eps)"
proof -
  have err: "me_cacheError env = None" using assms(1) by (simp add: accepts_def)
  obtain svcs where run: "run_state (list_services env (cluster_labels w)) st = (Inr svcs, st)"
    and "keys_ok env \<longrightarrow> set svcs = {svc. selects (cluster_labels w) (k_Labels svc) \<and> (\<exists>key. cached st key = Some svc)}"
    using list_services_run [OF err, of "cluster_labels w" st] by (elim exE conjE) (rule that)
  from this(2) assms(2) have "set svcs = {svc. selects (cluster_labels w) (k_Labels svc) \<and> (\<exists>key. cached st key = Some svc)}"
    by (rule mp)
  note svcs = run this
  let ?st = "st\<lparr>m_calls := m_calls st @ map delete_call svcs\<rparr>"
  obtain eps where eps: "run_state (list_endpoints env (cluster_labels w)) ?st = (Inr eps, ?st)"
    "set eps = {ep. selects (cluster_labels w) (ke_Labels ep) \<and> (\<exists>key. cached_endpoints ?st key = Some ep)}"
    using err assms(2) by (rule list_endpoints_run)
  have st: "cached_endpoints ?st = cached_endpoints st" by (simp add: fun_eq_iff cached_endpoints_def)
  have "run_state (cleanupMirroredResources env w) st =
      (Done, st\<lparr>m_calls := m_calls st @ map delete_call svcs @ map delete_endpoints_call eps\<rparr>)"
    using svcs(1) eps(1) assms(1) by (simp add: cleanupMirroredResources_def delete_services_run delete_endpoints_run)
  moreover have "mirror_service env' w r \<in> set svcs" if "cached st key = Some (mirror_service env' w r)" for key env' r
    using mirror_service_form(1) [of w env' r] that unfolding mirror_form_def svcs(2) by blast
  moreover have "ep \<in> set eps" if "endpoints_form w ep" "cached_endpoints st key = Some ep" for key ep
    using that unfolding endpoints_form_def eps(2) st by blast
  ultimately show ?thesis using svcs(2) eps(2) [unfolded st] by (intro exI [of _ svcs] exI [of _ eps] conjI allI impI)
qed

lemma federated_not_selected: "federated_form w' svc \<Longrightarrow> \<not> selects (cluster_labels w) (k_Labels svc)"
  by (auto simp: federated_form_def selects_def cluster_labels_def dest: fmdomI)

lemma delete_services_calls:
  "\<exists>errs. run_state (delete_services env d svcs) st = (errs, st\<lparr>m_calls := m_calls st @ map delete_call svcs\<rparr>)"
proof (induction svcs arbitrary: st)
  case (Cons svc svcs)
  from Cons.IH [of "st\<lparr>m_calls := m_calls st @ [delete_call svc]\<rparr>"] show ?case
    by (auto simp: api_write_def call_def delete_call_def)
qed simp

lemma delete_endpoints_calls:
  "\<exists>errs. run_state (delete_all_endpoints env eps) st = (errs, st\<lparr>m_calls := m_calls st @ map delete_endpoints_call eps\<rparr>)"
proof (induction eps arbitrary: st)
  case (Cons ep eps)
  from Cons.IH [of "st\<lparr>m_calls := m_calls st @ [delete_endpoints_call ep]\<rparr>"] show ?case
    by (auto simp: api_write_def call_def delete_endpoints_call_def)
qed simp

lemma cleanup_calls:
  "\<exists>r svcs eps. run_state (cleanupMirroredResources env w) st =
     (r, st\<lparr>m_calls := m_calls st @ map delete_call svcs @ map delete_endpoints_call eps\<rparr>) \<and>
     (\<forall>svc \<in> set svcs. selects (cluster_labels w) (k_Labels svc) \<and> (\<exists>key. cached st key = Some svc))"
proof (cases "me_cacheError env")
  case None
  obtain svcs where svcs: "run_state (list_services env (cluster_labels w)) st = (Inr svcs, st)"
    "\<forall>svc \<in> set svcs. selects (cluster_labels w) (k_Labels svc) \<and> (\<exists>key. cached st key = Some svc)"
    using list_services_run [OF None, of "cluster_labels w" st] by (elim exE conjE) (rule that)
  let ?d = "\<lambda>svc. ''Could not delete service '' @ k_Namespace svc @ ''/'' @ k_Name svc @ '': ''"
  let ?st = "st\<lparr>m_calls := m_calls st @ map delete_call svcs\<rparr>"
  obtain errs where errs: "run_state (delete_services env ?d svcs) st = (errs, ?st)"
    using delete_services_calls [of env ?d svcs st] by (elim exE) (rule that)
  obtain l where l: "run_state (list_endpoints env (cluster_labels w)) ?st = (l, ?st)"
    by (simp add: list_endpoints_def reads_def)
  show ?thesis
  proof (cases l)
    case (Inl e)
    with svcs errs l show ?thesis
      by (intro exI [of _ "list_error env ''could not retrieve endpoints that need cleaning up: '' e"] exI [of _ svcs] exI [of _ "[]"])
         (simp add: cleanupMirroredResources_def)
  next
    case (Inr eps)
    obtain errs' where "run_state (delete_all_endpoints env eps) ?st = (errs', ?st\<lparr>m_calls := m_calls ?st @ map delete_endpoints_call eps\<rparr>)"
      using delete_endpoints_calls [of env eps ?st] by (elim exE) (rule that)
    with svcs errs l Inr show ?thesis
      by (intro exI [of _ "retry_if (errs @ errs')"] exI [of _ svcs] exI [of _ eps]) (simp add: cleanupMirroredResources_def)
  qed
next
  case (Some e)
  then show ?thesis
    by (intro exI [of _ "list_error env ''could not retrieve mirrored services that need cleaning up: '' (KOther e)"]
          exI [of _ "[]"] exI [of _ "[]"])
       (simp add: cleanupMirroredResources_def list_services_def reads_def)
qed

text \<open>
  C37. Unlinking a cluster leaves it in the federated services: whatever the API server
  answers, the clean-up neither deletes nor updates a federated service, since it looks for
  the label with the name of the cluster, which a federated service never has.
\<close>

theorem unlink_leaves_federated:
  assumes "cache_named st" and "cached st key = Some svc" and "federated_form w' svc"
    and run: "run_state (handle_event env w ClusterUnregistered) st = (r, st')"
  shows "cached st' key = Some svc \<and> (\<exists>cs. m_calls st' = m_calls st @ cs \<and> foldl (stored key) (Some svc) cs = Some svc)"
proof -
  obtain r' svcs eps where 1: "run_state (cleanupMirroredResources env w) st =
      (r', st\<lparr>m_calls := m_calls st @ map delete_call svcs @ map delete_endpoints_call eps\<rparr>)"
    and svcs: "\<forall>svc \<in> set svcs. selects (cluster_labels w) (k_Labels svc) \<and> (\<exists>key. cached st key = Some svc)"
    using cleanup_calls [of env w st] by (elim exE conjE) (rule that)
  have key: "key = (k_Namespace svc, k_Name svc)" using assms(1,2) unfolding cache_named_def by blast
  have "(k_Namespace s, k_Name s) \<noteq> key" if "s \<in> set svcs" for s
  proof
    assume same: "(k_Namespace s, k_Name s) = key"
    from svcs that obtain k where "cached st k = Some s" "selects (cluster_labels w) (k_Labels s)" by blast
    moreover from this(1) assms(1) same have "k = key" unfolding cache_named_def by blast
    ultimately have "s = svc" using assms(2) by simp
    with federated_not_selected [OF assms(3)] svcs that show False by blast
  qed
  then have "foldl (stored key) (Some svc) (map delete_call svcs) = Some svc"
    by (induction svcs) (simp_all add: stored_def delete_call_def)
  moreover have "foldl (stored key) cur (map delete_endpoints_call eps) = cur" for cur
    by (induction eps) (simp_all add: stored_def delete_endpoints_call_def)
  ultimately show ?thesis
    using 1 run assms(2) by (auto simp: cached_def)
qed

section \<open>Orphans\<close>

lemma trim_appended: "TrimSuffix (s @ t) t = s"
  by (simp add: TrimSuffix_def)

lemma orphan_names:
  "orphan_name w (mirror_service env w r) = k_Name r"
  "orphan_name w (endpoint_mirror env w h rv (mirrorServiceName w n) r) = k_Name r"
proof -
  have "originalResourceName w (mirrorServiceName w x) = x" for x
    using trim_appended [of x "''-'' @ TargetClusterName (link w)"] by (simp add: originalResourceName_def mirrorServiceName_def)
  moreover have "fmlookup (getMirrorServiceLabels env w r) MirroredHeadlessSvcNameLabel = None"
    by (simp add: mirror_labels common_labels)
  ultimately show "orphan_name w (mirror_service env w r) = k_Name r"
    "orphan_name w (endpoint_mirror env w h rv (mirrorServiceName w n) r) = k_Name r"
    by (simp_all add: orphan_name_def mirror_service_def endpoint_mirror_def zero_Service_def)
qed

definition orphaned :: "mirror_env \<Rightarrow> RemoteClusterServiceWatcher \<Rightarrow> CoreService \<Rightarrow> bool" where
  "orphaned env w svc \<longleftrightarrow> (k_Namespace svc, orphan_name w svc) |\<notin>| fmdom (me_remoteServices env)"

lemma delete_orphans_run:
  assumes "accepts env" "me_remoteError env = None"
  shows "run_state (delete_orphans env w svcs) st = ([], st\<lparr>m_calls := m_calls st @ map delete_call (filter (orphaned env w) svcs)\<rparr>)"
proof (induction svcs arbitrary: st)
  case (Cons svc svcs)
  show ?case
  proof (cases "fmlookup (me_remoteServices env) (k_Namespace svc, orphan_name w svc)")
    case None
    with assms Cons show ?thesis
      by (simp add: remote_service_def cache_get_def orphaned_def fmdom_notI delete_call_def)
  next
    case (Some r)
    then have "\<not> orphaned env w svc" by (simp add: orphaned_def fmdomI)
    with assms Cons Some show ?thesis by (simp add: remote_service_def cache_get_def)
  qed
qed simp

text \<open>
  C15. The clean-up at the start of a watcher deletes exactly the mirror services of its
  cluster whose remote service is gone. The remote service of a mirror is found again from its
  name, and that of an auxiliary service of a headless mirror from its label.
\<close>

theorem orphans_deleted:
  assumes "accepts env" and "keys_ok env" and "me_remoteError env = None"
  shows "\<exists>svcs. run_state (cleanupOrphanedServices env w) st = (Done, st\<lparr>m_calls := m_calls st @ map delete_call svcs\<rparr>) \<and>
    set svcs = {svc. selects (cluster_labels w) (k_Labels svc) \<and> (\<exists>key. cached st key = Some svc) \<and> orphaned env w svc} \<and>
    (\<forall>r env'. orphaned env w (mirror_service env' w r) \<longleftrightarrow> (k_Namespace r, k_Name r) |\<notin>| fmdom (me_remoteServices env)) \<and>
    (\<forall>r env' h rv n. orphaned env w (endpoint_mirror env' w h rv (mirrorServiceName w n) r) \<longleftrightarrow>
       (k_Namespace r, k_Name r) |\<notin>| fmdom (me_remoteServices env))"
proof -
  have err: "me_cacheError env = None" using assms(1) by (simp add: accepts_def)
  obtain svcs where run: "run_state (list_services env (cluster_labels w)) st = (Inr svcs, st)"
    and "keys_ok env \<longrightarrow> set svcs = {svc. selects (cluster_labels w) (k_Labels svc) \<and> (\<exists>key. cached st key = Some svc)}"
    using list_services_run [OF err, of "cluster_labels w" st] by (elim exE conjE) (rule that)
  from this(2) assms(2) have "set svcs = {svc. selects (cluster_labels w) (k_Labels svc) \<and> (\<exists>key. cached st key = Some svc)}"
    by (rule mp)
  then have "set (filter (orphaned env w) svcs) =
      {svc. selects (cluster_labels w) (k_Labels svc) \<and> (\<exists>key. cached st key = Some svc) \<and> orphaned env w svc}"
    unfolding set_filter by blast
  moreover have "run_state (cleanupOrphanedServices env w) st =
      (Done, st\<lparr>m_calls := m_calls st @ map delete_call (filter (orphaned env w) svcs)\<rparr>)"
    using run delete_orphans_run [OF assms(1,3)] by (simp add: cleanupOrphanedServices_def)
  moreover have "k_Namespace (mirror_service env' w r) = k_Namespace r"
    "k_Namespace (endpoint_mirror env' w h rv n r) = k_Namespace r" for env' r h rv n
    by (simp_all add: mirror_service_def endpoint_mirror_def)
  ultimately show ?thesis
    by (intro exI [of _ "filter (orphaned env w) svcs"] conjI allI) (simp_all add: orphaned_def orphan_names)
qed

section \<open>Repair\<close>

definition skipped :: "CoreService \<Rightarrow> bool" where
  "skipped svc \<longleftrightarrow> k_ClusterIP svc = ClusterIPNone \<or> RemoteDiscoveryLabel |\<in>| fmdom (k_Labels svc)"

text \<open>What a repair writes for a mirror service.\<close>

definition repair_call ::
  "mirror_env \<Rightarrow> RemoteClusterServiceWatcher \<Rightarrow> EndpointAddress list \<Rightarrow> mirror_state \<Rightarrow> CoreService \<Rightarrow> mirror_call option" where
  "repair_call env w addrs st svc = (if skipped svc then None
     else Option.bind (cached_endpoints st (k_Namespace svc, k_Name svc)) (\<lambda>ep.
       map_option (\<lambda>subsets. UpdateEndpoints (updateReadiness (gatewayAlive st) (ep\<lparr>ke_Subsets := subsets,
         ke_Annotations := fmupd RemoteGatewayIdentity (GatewayIdentity (link w)) (ke_Annotations ep)\<rparr>)))
         (repaired_subsets env w addrs svc)))"

definition only_probe :: "RemoteClusterServiceWatcher \<Rightarrow> mirror_call \<Rightarrow> bool" where
  "only_probe w c \<longleftrightarrow> \<not> writes_object c \<or> (\<exists>ep. probe_form w ep \<and> (c = CreateEndpoints ep \<or> c = UpdateEndpoints ep))"

lemma repair_service_run:
  assumes "accepts env" "skipped svc \<or> cached_endpoints st (k_Namespace svc, k_Name svc) \<noteq> None"
  shows "run_state (repair_service env w addrs svc) st =
    ((), st\<lparr>m_calls := m_calls st @ (case repair_call env w addrs st svc of None \<Rightarrow> [] | Some c \<Rightarrow> [c])\<rparr>)"
proof (cases "skipped svc")
  case True
  then show ?thesis by (simp add: repair_service_def repair_call_def skipped_def)
next
  case False
  with assms(2) obtain a ep where ep: "fmlookup (m_endpointsCache st) (k_Namespace svc, k_Name svc) = Some a"
    "fmlookup (m_endpoints st) a = Some ep"
    by (auto simp: cached_endpoints_def bind_eq_Some_conv)
  have "run_state (find_endpoints env (k_Namespace svc) (k_Name svc)) st = (Some ep, st)"
    using ep assms(1) by (simp add: find_endpoints_def local_endpoints_def endpoints_at_def reads_def cache_get_def accepts_def)
  with False ep assms(1) show ?thesis
    by (simp add: repair_service_def repair_call_def skipped_def cached_endpoints_def updateMirrorEndpoints_def reads_def
          split: option.splits)
qed

lemma repair_call_calls: "repair_call env w addrs (st\<lparr>m_calls := cs\<rparr>) svc = repair_call env w addrs st svc"
  by (simp add: repair_call_def cached_endpoints_def)

lemma repair_services_run:
  assumes "accepts env" "list_all (\<lambda>svc. skipped svc \<or> cached_endpoints st (k_Namespace svc, k_Name svc) \<noteq> None) svcs"
  shows "run_state (repair_services env w addrs svcs) st =
    ((), st\<lparr>m_calls := m_calls st @ List.map_filter (repair_call env w addrs st) svcs\<rparr>)"
  using assms(2)
proof (induction svcs arbitrary: st)
  case (Cons svc svcs)
  have "list_all (\<lambda>svc. skipped svc \<or> cached_endpoints (st\<lparr>m_calls := cs\<rparr>) (k_Namespace svc, k_Name svc) \<noteq> None) svcs" for cs
    using Cons.prems by (simp add: cached_endpoints_def)
  note IH = Cons.IH [OF this]
  have eta: "repair_call env w addrs (st\<lparr>m_calls := cs\<rparr>) = repair_call env w addrs st" for cs
    by (simp add: fun_eq_iff repair_call_calls)
  from Cons.prems repair_service_run [OF assms(1), of svc st w addrs] show ?case
    by (simp add: IH eta List.map_filter_simps split: option.splits)
qed (simp add: List.map_filter_simps)

lemma resolve_appends: "appends (only_probe w) (resolveGatewayAddress env w)"
proof -
  have "appends (only_probe w) (resolve_all env addrs)" for addrs
    by (induction addrs) (auto simp: only_probe_def intro!: appends_bind appends_call appends_ret split: prod.splits)
  then show ?thesis
    unfolding resolveGatewayAddress_def by (intro appends_bind) (auto intro!: appends_ret split: prod.splits)
qed

lemma probe_appends: "appends (only_probe w) (createOrUpdateGatewayEndpoints env w addrs)"
  unfolding createOrUpdateGatewayEndpoints_def bind_left_identity
  by (auto simp: only_probe_def probe_form_def api_write_def intro!: appends_bind appends_call appends_ret
        split: sum.splits kerror.splits)


section \<open>Status of the link and choice of events\<close>

text \<open>
  The status of a service that is no longer mirrored is taken out of the status of the link
  unless it is the last one: then the list is empty, the patch leaves the field out, and a merge
  patch without a field keeps it.
\<close>

theorem last_status_stays:
  assumes "TargetClusterName (link w) \<noteq> []" and "me_getLink env (m_calls st) = (e, status)"
  shows "run_state (deleteLinkMirrorStatus env w n ns) st =
      ((), st\<lparr>m_calls := m_calls st @ [GetLink, PatchLinkStatus
        (if list_all (status_of n ns) (MirrorServices status) then None
         else Some (filter (\<lambda>s. \<not> status_of n ns s) (MirrorServices status)))
        (omitempty (FederatedServices status))]\<rparr>)"
  using assms
  by (simp add: deleteLinkMirrorStatus_def patchLinkStatus_def api_write_def call_def omitempty_def deleteServiceStatus_def
        filter_empty_conv list_all_iff)

text \<open>
  A service that is exported and is a member of a federated service does not become a
  member when it is first seen: the reaction to it returns as soon as it has queued the
  creation of the mirror service.
\<close>

theorem exported_member_waits:
  assumes "isExported env w (k_Labels service) \<or> isRemoteDiscovery env w (k_Labels service)"
    and "isFederatedServiceMember env w (k_Labels service)" and "me_cacheError env = None"
    and "fmlookup (m_serviceCache st) (k_Namespace service, mirrorServiceName w (k_Name service)) = None"
  shows "run_state (createOrUpdateService env w service) st =
    (Done, st\<lparr>m_calls := m_calls st @ [QueueAdd (RemoteServiceExported service)]\<rparr>)"
  using assms by (simp add: createOrUpdateService_def queue_mirror_def local_service_def reads_def cache_get_def)

section \<open>Samples\<close>

abbreviation west :: RemoteClusterServiceWatcher where
  "west \<equiv> sample_watcher ''west''"

definition dead_state :: mirror_state where
  "dead_state = new_watcher_state\<lparr>gatewayAlive := False\<rparr>"


text \<open>A federated service in the cache, with one member, and an API server that refuses updates.\<close>

definition federated_state :: mirror_state where
  "federated_state = new_watcher_state
     \<lparr>m_services := fmupd 0 (federated_service (sample_watcher ''east'') (sample_remote member_labels)) fmempty,
      m_serviceCache := fmupd (''ns'', ''web-federated'') 0 fmempty, m_next := 1\<rparr>"

definition refusing_env :: mirror_env where
  "refusing_env = sample_mirror_env\<lparr>me_write := (\<lambda>_ c. case c of UpdateService _ \<Rightarrow> Some (KOther ''conflict'') | _ \<Rightarrow> None)\<rparr>"

lemma sample_join:
  "\<exists>ann. join_annotations west ''web'' (annotations_of (federated_service (sample_watcher ''east'') (sample_remote member_labels))) =
     Some ann"
  by (simp add: join_annotations_def federated_service_def getFederatedServiceAnnotations_def
        remote_target_def remoteDiscoveryContains_def sample_defs)

definition lost_state :: mirror_state where
  "lost_state = snd (run_state (handleFederatedServiceJoin refusing_env west 0 (sample_remote member_labels)) federated_state)"


lemma sample_env_ok: "accepts sample_mirror_env" "keys_ok sample_mirror_env" "me_remoteError sample_mirror_env = None"
  by (simp_all add: accepts_def keys_ok_def sample_mirror_env_def sorted_list_of_fset.rep_eq)

definition mirrored_state :: mirror_state where
  "mirrored_state = new_watcher_state
     \<lparr>m_services := fmupd 0 (mirror_service sample_mirror_env west (sample_remote fmempty)) fmempty,
      m_serviceCache := fmupd (''ns'', ''web-west'') 0 fmempty, m_next := 1\<rparr>"

lemma mirrored_cached:
  "cached mirrored_state key = (if key = (''ns'', ''web-west'') then Some (mirror_service sample_mirror_env west (sample_remote fmempty)) else None)"
  by (simp add: cached_def mirrored_state_def new_watcher_state_def)

theorem unlink_deletes_mirrors_witness:
  "\<exists>svcs eps. run_state (cleanupMirroredResources sample_mirror_env west) mirrored_state =
      (Done, mirrored_state\<lparr>m_calls := m_calls mirrored_state @ map delete_call svcs @ map delete_endpoints_call eps\<rparr>) \<and>
    mirror_service sample_mirror_env west (sample_remote fmempty) \<in> set svcs"
proof -
  obtain svcs eps where "run_state (cleanupMirroredResources sample_mirror_env west) mirrored_state =
      (Done, mirrored_state\<lparr>m_calls := m_calls mirrored_state @ map delete_call svcs @ map delete_endpoints_call eps\<rparr>)"
    "\<forall>key r env'. cached mirrored_state key = Some (mirror_service env' west r) \<longrightarrow> mirror_service env' west r \<in> set svcs"
    using unlink_deletes_mirrors [OF sample_env_ok(1,2), of west mirrored_state] by (elim exE conjE) (rule that)
  then show ?thesis using mirrored_cached by (intro exI [of _ svcs] exI [of _ eps]) auto
qed

theorem orphans_deleted_witness:
  "\<exists>svcs. run_state (cleanupOrphanedServices sample_mirror_env west) mirrored_state =
      (Done, mirrored_state\<lparr>m_calls := m_calls mirrored_state @ map delete_call svcs\<rparr>) \<and>
    set svcs = {svc. selects (cluster_labels west) (k_Labels svc) \<and> (\<exists>key. cached mirrored_state key = Some svc) \<and>
      orphaned sample_mirror_env west svc}"
  using orphans_deleted [OF sample_env_ok, of west mirrored_state] by (elim exE conjE) (intro exI conjI)

theorem unlink_leaves_federated_witness:
  "cached (snd (run_state (handle_event sample_mirror_env (sample_watcher ''east'') ClusterUnregistered) federated_state))
     (''ns'', ''web-federated'') = Some (federated_service (sample_watcher ''east'') (sample_remote member_labels))"
proof -
  let ?svc = "federated_service (sample_watcher ''east'') (sample_remote member_labels)"
  have c: "cached federated_state key = (if key = (''ns'', ''web-federated'') then Some ?svc else None)" for key
    by (simp add: cached_def federated_state_def new_watcher_state_def)
  have "cache_named federated_state"
    by (simp add: cache_named_def c) (simp add: federated_service_def federatedServiceName_def sample_defs)
  from unlink_leaves_federated [OF this _ federated_service_form, of "(''ns'', ''web-federated'')"
      "sample_watcher ''east''" "sample_remote member_labels" sample_mirror_env "sample_watcher ''east''"]
  show ?thesis by (simp add: c prod_eq_iff)
qed


definition mirrored_status :: ServiceStatus where
  "mirrored_status = \<lparr>ss_Conditions = [], ss_ControllerName = ''linkerd.io/service-mirror'',
     ss_RemoteRef = \<lparr>obj_Group = [], obj_Kind = ''Service'', obj_Name = ''web'', obj_Namespace = ''ns''\<rparr>\<rparr>"

theorem last_status_stays_witness:
  "run_state (deleteLinkMirrorStatus (sample_mirror_env\<lparr>me_getLink := \<lambda>_. (None, \<lparr>MirrorServices = [mirrored_status],
       FederatedServices = []\<rparr>)\<rparr>) west ''web'' ''ns'') new_watcher_state =
     ((), new_watcher_state\<lparr>m_calls := [GetLink, PatchLinkStatus None None]\<rparr>)"
  using last_status_stays [of west "sample_mirror_env\<lparr>me_getLink := \<lambda>_. (None, \<lparr>MirrorServices = [mirrored_status],
       FederatedServices = []\<rparr>)\<rparr>" new_watcher_state None "\<lparr>MirrorServices = [mirrored_status], FederatedServices = []\<rparr>" "''web''" "''ns''"]
  by (simp add: sample_cluster mirrored_status_def omitempty_def new_watcher_state_def)

abbreviation both_labels :: labels where
  "both_labels \<equiv> fmupd ''mirror.linkerd.io/exported'' ''true'' member_labels"

theorem exported_member_waits_witness:
  "run_state (createOrUpdateService sample_mirror_env west (sample_remote both_labels)) new_watcher_state =
     (Done, new_watcher_state\<lparr>m_calls := [QueueAdd (RemoteServiceExported (sample_remote both_labels))]\<rparr>)"
proof -
  have "isExported sample_mirror_env west (k_Labels (sample_remote both_labels))"
    "isFederatedServiceMember sample_mirror_env west (k_Labels (sample_remote both_labels))"
    by (simp_all add: isFederatedServiceMember_def isExported_def link_selects_def sample_defs fmpred_iff)
  with exported_member_waits [of sample_mirror_env west "sample_remote both_labels" new_watcher_state] sample_env_ok(1)
  show ?thesis by (simp add: accepts_def new_watcher_state_def)
qed

end
