(* ===== verification/Probe_Worker.thy ===== *)
theory Probe_Worker
  imports Mirror_Federation Go_Time
begin

text \<open>
  The probe of a gateway (\<open>probe_worker.go\<close>, \<open>jittered_ticker.go\<close>) and how the watcher of the
  cluster follows it.

  \<^item> The HTTP client is a parameter: the answer to a request is an error or a status code. So is
    the random jitter.
  \<^item> A run of the worker is given by the answers at its ticks; what it sends on the liveness
    channel is a list. That a send waits while the channel is full is left out.
\<close>

section \<open>Model\<close>

record ProbeWorker =
  pw_alive :: bool
  pw_failures :: "64 word"
  pw_gauge :: nat
  pw_successes :: nat
  pw_notSuccesses :: nat

definition NewProbeWorker :: ProbeWorker where
  "NewProbeWorker = \<lparr>pw_alive = False, pw_failures = 0, pw_gauge = 0, pw_successes = 0, pw_notSuccesses = 0\<rparr>"

text \<open>
  \<open>fmul\<close> is the floating-point step of \<open>time.ParseDuration\<close>; the result is in nanoseconds. The
  text of its errors is left out. \<open>newRequest\<close> is the error of making a request for a URL.
\<close>

definition doProbe ::
  "(nat \<Rightarrow> nat \<Rightarrow> nat \<Rightarrow> nat) \<Rightarrow> (string \<Rightarrow> string option) \<Rightarrow> (string \<Rightarrow> int \<Rightarrow> string + int) \<Rightarrow> string \<Rightarrow> ProbeSpec \<Rightarrow> string option" where
  "doProbe fmul newRequest get localGatewayName spec = (case ParseDuration fmul (probe_Timeout spec) of
     None \<Rightarrow> Some ''could not parse timeout''
   | Some timeout \<Rightarrow>
       (let url = ''http://'' @ join_host_port localGatewayName (probe_Port spec) @ probe_Path spec
        in case newRequest url of
             Some e \<Rightarrow> Some (''could not create a GET request to gateway: '' @ e)
           | None \<Rightarrow> (case get url timeout of
               Inl e \<Rightarrow> Some (''problem connecting with gateway: '' @ e)
             | Inr status \<Rightarrow> if status \<noteq> 200 then Some (''gateway returned unexpected status '' @ itoa status) else None)))"

text \<open>A tick: the new worker and what it sends.\<close>

definition probe_tick :: "uint32 \<Rightarrow> ProbeWorker \<Rightarrow> string option \<Rightarrow> ProbeWorker \<times> bool list" where
  "probe_tick failureThreshold pw result = (case result of
     Some _ \<Rightarrow>
       let failures = pw_failures pw + 1; pw1 = pw\<lparr>pw_failures := failures\<rparr>
       in if failures < ucast failureThreshold then (pw1, [])
          else (pw1\<lparr>pw_gauge := 0, pw_notSuccesses := Suc (pw_notSuccesses pw), pw_alive := False\<rparr>,
                if pw_alive pw then [False] else [])
   | None \<Rightarrow>
       (pw\<lparr>pw_failures := 0, pw_gauge := 1, pw_successes := Suc (pw_successes pw), pw_alive := True\<rparr>,
        if \<not> pw_alive pw then [True] else []))"

fun probe_ticks :: "uint32 \<Rightarrow> ProbeWorker \<Rightarrow> string option list \<Rightarrow> ProbeWorker \<times> bool list" where
  "probe_ticks t pw [] = (pw, [])"
| "probe_ticks t pw (r # rs) =
     (let (pw1, sent) = probe_tick t pw r; (pw2, sent') = probe_ticks t pw1 rs in (pw2, sent @ sent'))"

text \<open>\<open>NewTicker\<close> and \<open>calculateDelay\<close>: \<open>rand.Int63n\<close> panics unless its argument is positive.\<close>

definition NewTicker :: "int \<Rightarrow> int \<Rightarrow> (int \<times> int) option" where
  "NewTicker minDuration maxJitter =
     (if minDuration < 0 \<or> maxJitter < 0 then None else Some (minDuration, maxJitter))"

definition calculateDelay :: "(int \<Rightarrow> int) \<Rightarrow> int \<times> int \<Rightarrow> int option" where
  "calculateDelay int63n ticker =
     (if snd ticker \<le> 0 then None else Some (fst ticker + int63n (snd ticker)))"

datatype probe_outcome = ProbeNotStarted string | ProbePanicked | ProbeRan ProbeWorker "bool list"

text \<open>\<open>run\<close>, stopped after the ticks whose probes gave \<open>results\<close>.\<close>

definition probe_run ::
  "(nat \<Rightarrow> nat \<Rightarrow> nat \<Rightarrow> nat) \<Rightarrow> (int \<Rightarrow> int) \<Rightarrow> ProbeSpec option \<Rightarrow> ProbeWorker \<Rightarrow> string option list \<Rightarrow> probe_outcome" where
  "probe_run fmul int63n spec pw results = (case spec of
     None \<Rightarrow> ProbeNotStarted ''Probe spec is nil''
   | Some s \<Rightarrow> (case ParseDuration fmul (probe_Period s) of
       None \<Rightarrow> ProbeNotStarted ''could not parse probe period''
     | Some period \<Rightarrow> (case NewTicker period (period div 10) of
         None \<Rightarrow> ProbePanicked
       | Some ticker \<Rightarrow>
           if calculateDelay int63n ticker = None then ProbePanicked
           else (case parse_uint32 (probe_FailureThreshold s) of
             None \<Rightarrow> ProbeNotStarted ''could not parse failure threshold''
           | Some failureThreshold \<Rightarrow>
               (case probe_ticks failureThreshold pw results of (pw', sent) \<Rightarrow> ProbeRan pw' sent)))))"

section \<open>The watcher follows the probe\<close>

text \<open>The watcher takes the messages in order.\<close>

fun follow_liveness :: "bool list \<Rightarrow> unit mirror" where
  "follow_liveness [] = ret ()"
| "follow_liveness (alive # rest) = do { on_liveness alive; follow_liveness rest }"

text \<open>How many of the last results are failures.\<close>

definition failing :: "string option list \<Rightarrow> nat" where
  "failing rs = length (takeWhile (\<lambda>r. r \<noteq> None) (rev rs))"

lemma failing_simps [simp]: "failing [] = 0" "failing (rs @ [None]) = 0" "failing (rs @ [Some e]) = Suc (failing rs)"
  by (simp_all add: failing_def)

lemma failing_le: "failing rs \<le> length rs"
  using length_takeWhile_le [of "\<lambda>r. r \<noteq> None" "rev rs"] by (simp add: failing_def)

lemma probe_ticks_snoc:
  "probe_ticks t pw (rs @ [r]) =
     (let (pw1, sent) = probe_ticks t pw rs; (pw2, sent') = probe_tick t pw1 r in (pw2, sent @ sent'))"
  by (induction rs arbitrary: pw) (simp_all add: Let_def split: prod.splits)

lemma follow_liveness_alive:
  "gatewayAlive (snd (run_state (follow_liveness sent) st)) = (if sent = [] then gatewayAlive st else last sent)"
  by (induction sent arbitrary: st) (simp_all add: on_liveness_def)

definition alternating :: "bool list \<Rightarrow> bool" where
  "alternating sent \<longleftrightarrow> sent = map even [0..<length sent]"

lemma alternating_snoc: "alternating sent \<Longrightarrow> alternating (sent @ [even (length sent)])"
  by (simp add: alternating_def)

lemma alternating_last:
  assumes "alternating sent" "sent \<noteq> []"
  shows "last sent = odd (length sent)"
proof (cases "length sent")
  case (Suc k)
  then have "sent = map even [0..<Suc k]" using assms(1) unfolding alternating_def by simp
  from arg_cong [OF this, of last] Suc show ?thesis by simp
qed (simp add: assms)

lemma threshold_less:
  assumes "Suc n < 2 ^ 64"
  shows "(of_nat n + 1 :: 64 word) < ucast (t :: uint32) \<longleftrightarrow> Suc n < unat t"
proof -
  have "unat (of_nat (Suc n) :: 64 word) = Suc n" using assms by (simp only: unat_of_nat) simp
  moreover have "unat t < 2 ^ 32" using unsigned_less [of t] by simp
  then have "unat (ucast t :: 64 word) = unat t" by (simp add: unsigned_ucast_eq take_bit_eq_mod)
  ultimately show ?thesis by (simp add: word_less_nat_alt add.commute)
qed

lemma probe_ticks_state:
  assumes "length rs < 2 ^ 64" "probe_ticks t NewProbeWorker rs = (pw, sent)"
  shows "pw_failures pw = of_nat (failing rs) \<and> (pw_alive pw \<longleftrightarrow> None \<in> set rs \<and> failing rs < max 1 (unat t)) \<and>
    alternating sent \<and> (pw_alive pw \<longleftrightarrow> odd (length sent)) \<and> (sent = [] \<longleftrightarrow> None \<notin> set rs)"
  using assms
proof (induction rs arbitrary: pw sent rule: rev_induct)
  case Nil
  then show ?case by (auto simp: NewProbeWorker_def alternating_def)
next
  case (snoc r rs)
  obtain pw1 sent1 where 1: "probe_ticks t NewProbeWorker rs = (pw1, sent1)" by fastforce
  obtain sent2 where 2: "probe_tick t pw1 r = (pw, sent2)" "sent = sent1 @ sent2"
    using snoc.prems(2) 1 by (auto simp: probe_ticks_snoc Let_def split: prod.splits)
  have len: "length rs < 2 ^ 64" using snoc.prems(1) by simp
  have IH: "pw_failures pw1 = of_nat (failing rs)"
    "pw_alive pw1 \<longleftrightarrow> None \<in> set rs \<and> failing rs < max 1 (unat t)" "alternating sent1"
    "pw_alive pw1 \<longleftrightarrow> odd (length sent1)" "sent1 = [] \<longleftrightarrow> None \<notin> set rs"
    using snoc.IH [OF len 1] by blast+
  show ?case
  proof (cases r)
    case None
    with 2 IH alternating_snoc [OF IH(3)] show ?thesis by (auto simp: probe_tick_def)
  next
    case (Some e)
    have "Suc (failing rs) < 2 ^ 64" using failing_le [of rs] snoc.prems(1) by simp
    note less = threshold_less [OF this, of t]
    show ?thesis
    proof (cases "Suc (failing rs) < unat t")
      case True
      with 2 IH less Some show ?thesis by (auto simp: probe_tick_def Let_def)
    next
      case False
      with 2 IH less Some alternating_snoc [OF IH(3)] show ?thesis by (auto simp: probe_tick_def Let_def)
    qed
  qed
qed

text \<open>
  C11. The flag by which a watcher marks endpoints as not ready follows the probes of the
  gateway: once a probe has succeeded, it is false exactly while the threshold of failures in a
  row is reached (a threshold of zero counts as one). What the worker sends alternates,
  starting with the gateway being alive. But a gateway that never answers is never reported:
  nothing is sent, and the flag stays true whatever the number of failures.
\<close>

theorem gateway_flag_follows_probes:
  assumes "length rs < 2 ^ 64" and "probe_ticks t NewProbeWorker rs = (pw, sent)"
  shows "gatewayAlive (snd (run_state (follow_liveness sent) new_watcher_state)) =
      (if None \<in> set rs then failing rs < max 1 (unat t) else True) \<and>
    sent = map even [0..<length sent] \<and> (sent = [] \<longleftrightarrow> None \<notin> set rs)"
proof -
  note st = probe_ticks_state [OF assms]
  have "last sent = odd (length sent)" if "sent \<noteq> []" using st that alternating_last by blast
  with st show ?thesis
    by (auto simp: follow_liveness_alive new_watcher_state_def alternating_def [symmetric])
qed

theorem gateway_flag_follows_probes_witness:
  "gatewayAlive (snd (run_state (follow_liveness (snd (probe_ticks 3 NewProbeWorker
     [None, Some ''refused'', Some ''refused'', Some ''refused'']))) new_watcher_state)) = False"
  using gateway_flag_follows_probes [of "[None, Some ''refused'', Some ''refused'', Some ''refused'']" 3
      "fst (probe_ticks 3 NewProbeWorker [None, Some ''refused'', Some ''refused'', Some ''refused''])"
      "snd (probe_ticks 3 NewProbeWorker [None, Some ''refused'', Some ''refused'', Some ''refused''])"]
  by (simp add: failing_def del: probe_ticks.simps)

text \<open>A probe period below ten nanoseconds, zero in particular, brings the service mirror down.\<close>

lemma short_period_panics:
  assumes "ParseDuration fmul (probe_Period s) = Some period" "period < 10"
  shows "probe_run fmul int63n (Some s) pw rs = ProbePanicked"
proof -
  have "period div 10 \<le> 0" using assms(2) by simp
  with assms show ?thesis by (auto simp: probe_run_def NewTicker_def calculateDelay_def)
qed

end
