(* ===== verification/Link_Runner.thy ===== *)
theory Link_Runner
  imports Mirror_Federation
begin

text \<open>
  How the service mirror follows its Link resource (\<open>cmd/service-mirror/main.go\<close>,
  \<open>link_handlers.go\<close>): the informer's callbacks put links into a bounded channel, and the main
  loop restarts the cluster watcher and the probe for each of them.

  \<^item> The calls of a restart into other packages (metrics, clients, the start of the informers)
    are a parameter: which of them fails, if any. Credentials that cannot be loaded are logged
    and do not by themselves stop the restart.
  \<^item> A worker is known by the link it was made for.
  \<^item> The loop sleeps between a failed restart and the send that requeues its link. The informer
    goes on meanwhile, so the two are separate steps and \<open>requeue\<close> holds the link in between.
\<close>

section \<open>Model\<close>

record NamedLink =
  ln_Name :: string
  ln_Spec :: Link

datatype restart_outcome = MetricsFailed | ClientFailed | StartFailed | Restarted

record runner =
  clusterWatcher :: "NamedLink option"
  probeWorker :: "NamedLink option"
  results :: "NamedLink option list"
  requeue :: "NamedLink option"

abbreviation resultsCapacity :: nat where
  "resultsCapacity \<equiv> 100"

text \<open>A send that gives up when the channel is full.\<close>

definition offer :: "NamedLink option \<Rightarrow> runner \<Rightarrow> runner" where
  "offer l r = (if length (results r) < resultsCapacity then r\<lparr>results := results r @ [l]\<rparr> else r)"

definition link_added :: "string \<Rightarrow> NamedLink option \<Rightarrow> runner \<Rightarrow> runner" where
  "link_added linkName obj r = (case obj of
     None \<Rightarrow> r
   | Some l \<Rightarrow> if ln_Name l = linkName then offer (Some l) r else r)"

definition link_updated :: "string \<Rightarrow> NamedLink option \<Rightarrow> NamedLink option \<Rightarrow> runner \<Rightarrow> runner" where
  "link_updated linkName oldObj currentObj r = (case oldObj of
     None \<Rightarrow> r
   | Some oldLink \<Rightarrow> (case currentObj of
       None \<Rightarrow> r
     | Some currentLink \<Rightarrow>
         if ln_Spec oldLink = ln_Spec currentLink then r
         else if ln_Name currentLink = linkName then offer (Some currentLink) r else r))"

definition link_deleted :: "string \<Rightarrow> NamedLink informer_obj \<Rightarrow> runner \<Rightarrow> runner" where
  "link_deleted linkName obj r = (case informer_object obj of
     None \<Rightarrow> r
   | Some l \<Rightarrow> if ln_Name l = linkName then offer None r else r)"

definition cleanupWorkers :: "runner \<Rightarrow> runner" where
  "cleanupWorkers r = r\<lparr>clusterWatcher := None, probeWorker := None\<rparr>"

definition restartClusterWatcher :: "restart_outcome \<Rightarrow> NamedLink \<Rightarrow> runner \<Rightarrow> bool \<times> runner" where
  "restartClusterWatcher outcome l r =
     (let r1 = cleanupWorkers r
      in if outcome = MetricsFailed then (False, r1)
         else
           let r2 = (if probe_Path (link_ProbeSpec (ln_Spec l)) \<noteq> [] then r1\<lparr>probeWorker := Some l\<rparr> else r1)
           in if outcome = ClientFailed then (False, r2)
              else (outcome = Restarted, r2\<lparr>clusterWatcher := Some l\<rparr>))"

text \<open>
  The branch of the main loop that receives from the channel, up to the sleep after a failed
  restart. With nothing in the channel the loop waits.
\<close>

definition loop_receive :: "restart_outcome \<Rightarrow> runner \<Rightarrow> runner" where
  "loop_receive outcome r = (case results r of
     [] \<Rightarrow> r
   | None # rest \<Rightarrow> cleanupWorkers (r\<lparr>results := rest\<rparr>)
   | Some l # rest \<Rightarrow>
       (case restartClusterWatcher outcome l (r\<lparr>results := rest\<rparr>) of (ok, r') \<Rightarrow>
          if ok then r' else r'\<lparr>requeue := Some l\<rparr>))"

text \<open>The send after the sleep. It blocks while the channel is full.\<close>

definition loop_resend :: "NamedLink \<Rightarrow> runner \<Rightarrow> runner" where
  "loop_resend l r =
     (if length (results r) < resultsCapacity then r\<lparr>results := results r @ [Some l], requeue := None\<rparr> else r)"

section \<open>Runs\<close>

text \<open>
  \<open>Turn\<close> and \<open>Cancelled\<close> are turns of the loop, on a link and on the closed channel of the context.
  While a link waits to be sent again, the only thing the loop can do is to send it.
\<close>

datatype runner_event =
    LinkAdded "NamedLink option"
  | LinkUpdated "NamedLink option" "NamedLink option"
  | LinkDeleted "NamedLink informer_obj"
  | Turn restart_outcome
  | Cancelled

fun runner_step :: "string \<Rightarrow> runner \<Rightarrow> runner_event \<Rightarrow> runner" where
  "runner_step n r (LinkAdded l) = link_added n l r"
| "runner_step n r (LinkUpdated l l') = link_updated n l l' r"
| "runner_step n r (LinkDeleted l) = link_deleted n l r"
| "runner_step n r (Turn outcome) = (case requeue r of None \<Rightarrow> loop_receive outcome r | Some l \<Rightarrow> loop_resend l r)"
| "runner_step n r Cancelled = (case requeue r of None \<Rightarrow> cleanupWorkers r | Some l \<Rightarrow> loop_resend l r)"

abbreviation runner_run :: "string \<Rightarrow> runner \<Rightarrow> runner_event list \<Rightarrow> runner" where
  "runner_run n \<equiv> foldl (runner_step n)"

definition runner_init :: runner where
  "runner_init = \<lparr>clusterWatcher = None, probeWorker = None, results = [], requeue = None\<rparr>"

text \<open>What the events ask for: the last link of the name, or none.\<close>

fun link_wanted :: "string \<Rightarrow> NamedLink option \<Rightarrow> runner_event \<Rightarrow> NamedLink option" where
  "link_wanted n cur (LinkAdded obj) = (case obj of Some l \<Rightarrow> if ln_Name l = n then Some l else cur | None \<Rightarrow> cur)"
| "link_wanted n cur (LinkUpdated oldObj obj) = (case (oldObj, obj) of
     (Some old, Some l) \<Rightarrow> if ln_Spec old \<noteq> ln_Spec l \<and> ln_Name l = n then Some l else cur
   | _ \<Rightarrow> cur)"
| "link_wanted n cur (LinkDeleted obj) = (case informer_object obj of Some l \<Rightarrow> if ln_Name l = n then None else cur | None \<Rightarrow> cur)"
| "link_wanted n cur _ = cur"

text \<open>The runs in which every restart succeeds, the lease is kept and the channel has room.\<close>

fun undisturbed :: "runner_event \<Rightarrow> bool" where
  "undisturbed (Turn outcome) \<longleftrightarrow> outcome = Restarted"
| "undisturbed Cancelled \<longleftrightarrow> False"
| "undisturbed _ \<longleftrightarrow> True"

fun calm :: "string \<Rightarrow> runner \<Rightarrow> runner_event list \<Rightarrow> bool" where
  "calm n r [] \<longleftrightarrow> True"
| "calm n r (ev # evs) \<longleftrightarrow>
     undisturbed ev \<and> length (results r) < resultsCapacity \<and> calm n (runner_step n r ev) evs"

text \<open>The probe that belongs to a watcher.\<close>

definition probe_for :: "NamedLink option \<Rightarrow> NamedLink option" where
  "probe_for l = (case l of None \<Rightarrow> None | Some x \<Rightarrow> if probe_Path (link_ProbeSpec (ln_Spec x)) \<noteq> [] then Some x else None)"

text \<open>The link whose watcher runs once the channel is drained.\<close>

definition upcoming :: "runner \<Rightarrow> NamedLink option" where
  "upcoming r = (if results r = [] then clusterWatcher r else last (results r))"

definition runner_inv :: "runner \<Rightarrow> bool" where
  "runner_inv r \<longleftrightarrow> requeue r = None \<and> probeWorker r = probe_for (clusterWatcher r)"

lemma offer_inv: "runner_inv r \<Longrightarrow> runner_inv (offer l r)"
  by (simp add: runner_inv_def offer_def)

lemma offer_upcoming: "length (results r) < resultsCapacity \<Longrightarrow> upcoming (offer l r) = l"
  by (simp add: offer_def upcoming_def)

lemmas link_handler_defs = link_added_def link_updated_def link_deleted_def
lemmas loop_defs = loop_receive_def loop_resend_def restartClusterWatcher_def cleanupWorkers_def Let_def

lemma loop_receive_ok:
  assumes "runner_inv r"
  shows "runner_inv (loop_receive Restarted r) \<and> upcoming (loop_receive Restarted r) = upcoming r"
  using assms by (auto simp: runner_inv_def upcoming_def loop_defs probe_for_def split: list.splits option.splits)

lemma runner_step_ok:
  assumes "runner_inv r" "length (results r) < resultsCapacity" "undisturbed ev"
  shows "runner_inv (runner_step n r ev) \<and> upcoming (runner_step n r ev) = link_wanted n (upcoming r) ev"
proof (cases ev)
  case (Turn outcome)
  with assms show ?thesis using loop_receive_ok by (simp add: runner_inv_def)
qed (insert assms, auto simp: link_handler_defs offer_inv offer_upcoming split: option.splits)

lemma runner_run_ok:
  assumes "runner_inv r" "calm n r evs"
  shows "runner_inv (runner_run n r evs) \<and> upcoming (runner_run n r evs) = foldl (link_wanted n) (upcoming r) evs"
  using assms
proof (induction evs arbitrary: r)
  case (Cons ev evs)
  then show ?case using runner_step_ok [of r ev n] by simp
qed simp

lemma drain_run:
  assumes "requeue r = None" "results r = q @ [l]"
  shows "results (runner_run n r (replicate (Suc (length q)) (Turn Restarted))) = [] \<and>
    clusterWatcher (runner_run n r (replicate (Suc (length q)) (Turn Restarted))) = l"
  using assms
proof (induction q arbitrary: r)
  case Nil
  then show ?case by (cases l) (simp_all add: loop_defs)
next
  case (Cons x q)
  have "requeue (loop_receive Restarted r) = None" "results (loop_receive Restarted r) = q @ [l]"
    using Cons.prems by (cases x; simp add: loop_defs)+
  then show ?case using Cons.IH Cons.prems(1) by simp
qed

text \<open>
  C12. The service mirror follows its Link. Take any run in which every restart succeeds, the
  lease is kept and the channel is never full. Whenever the channel is empty, the running watcher
  is that of the last link of the name that the informer reported, with a probe exactly if that
  link has a probe path, and nothing runs if the link was deleted.
\<close>

theorem runner_follows_link:
  assumes "calm n runner_init evs" and "results (runner_run n runner_init evs) = []"
  shows "clusterWatcher (runner_run n runner_init evs) = foldl (link_wanted n) None evs \<and>
    probeWorker (runner_run n runner_init evs) = probe_for (foldl (link_wanted n) None evs)"
  using runner_run_ok [of runner_init n evs] assms
  by (simp add: runner_inv_def runner_init_def probe_for_def upcoming_def)

definition named_link :: "string \<Rightarrow> NamedLink" where
  "named_link cluster = \<lparr>ln_Name = ''east'', ln_Spec = sample_link cluster\<rparr>"

theorem runner_follows_link_witness:
  "clusterWatcher (runner_run ''east'' runner_init
     [LinkAdded (Some (named_link ''a'')), LinkUpdated (Some (named_link ''a'')) (Some (named_link ''b'')),
      Turn Restarted, Turn Restarted]) = Some (named_link ''b'')"
  using runner_follows_link [of "''east''" "[LinkAdded (Some (named_link ''a'')),
    LinkUpdated (Some (named_link ''a'')) (Some (named_link ''b'')), Turn Restarted, Turn Restarted]"]
  by (simp add: runner_init_def link_handler_defs offer_def loop_defs named_link_def sample_link_def)

text \<open>
  C36. A failed restart brings back an old link. Its link is sent to the end of the channel, behind
  everything that came later: when the channel is drained by restarts that succeed, the watcher
  that runs is that of the old link, whatever newer links or deletion were waiting behind it.
\<close>

theorem failed_restart_revives_old_link:
  assumes "outcome \<noteq> Restarted" and "requeue r = None"
    and "results r = Some old # later" and "length later < resultsCapacity"
  shows "results (runner_run n r (Turn outcome # Turn Restarted # replicate (Suc (length later)) (Turn Restarted))) = [] \<and>
    clusterWatcher (runner_run n r (Turn outcome # Turn Restarted # replicate (Suc (length later)) (Turn Restarted))) = Some old"
proof -
  define r' where "r' = runner_run n r [Turn outcome, Turn Restarted]"
  have "requeue r' = None" "results r' = later @ [Some old]"
    using assms by (auto simp: r'_def loop_defs)
  from drain_run [OF this] show ?thesis by (simp add: r'_def)
qed

theorem failed_restart_revives_old_link_witness:
  "clusterWatcher (runner_run ''east'' (runner_init\<lparr>results := [Some (named_link ''a''), None]\<rparr>)
     [Turn ClientFailed, Turn Restarted, Turn Restarted, Turn Restarted]) = Some (named_link ''a'')"
  using failed_restart_revives_old_link [of ClientFailed "runner_init\<lparr>results := [Some (named_link ''a''), None]\<rparr>"
      "named_link ''a''" "[None]" "''east''"]
  by (simp add: runner_init_def)

text \<open>
  The loop is the only reader of the channel it sends to: with the channel full and a link waiting
  to be sent again, no event ever changes the state.
\<close>

lemma full_channel_deadlocks:
  assumes "requeue r = Some l" "length (results r) = resultsCapacity"
  shows "runner_run n r evs = r"
proof (induction evs)
  case (Cons ev evs)
  have "runner_step n r ev = r"
    using assms by (cases ev) (auto simp: link_handler_defs offer_def loop_resend_def split: option.splits)
  with Cons show ?case by simp
qed simp

end
