(* ===== verification/Spec2Isabelle.thy ===== *)
theory Spec2Isabelle
  imports Port_Ranges Translator_Queue Watcher_Invariant Profile_Listeners Workload_Profile
    Workload_Controller Mirror_Properties Probe_Worker Link_Runner
begin

text \<open>
  Verification of two controllers of Linkerd: the destination controller
  (\<open>controller/api/destination\<close>), which tells proxies the addresses and the profiles of what they
  talk to, and the service mirror (\<open>multicluster/service-mirror\<close>), which copies services of linked
  clusters into the local one. Paths are relative to \<open>src/\<close>; \<open>watcher/\<close> and
  \<open>external-workload/\<close> are below \<open>controller/api/destination\<close>.

  \<^bold>\<open>The program and its theories.\<close>

  \<^item> \<^emph>\<open>Shared vocabulary.\<close> \<open>Go_Prelude\<close>: Go's integers, maps, strings and the functions of its
    standard library, with their lemmas. \<open>Go_Time\<close>: durations. \<open>Net_Addr\<close>: IP addresses
    (\<open>pkg/addr/addr.go\<close>). \<open>Port_Ranges\<close>: the parser of port lists (\<open>pkg/util\<close>). \<open>Kube_Types\<close>: the
    Kubernetes objects, with the informer caches as the record \<open>k8s_api\<close>. \<open>Sample_Cluster\<close>: the
    cluster on which the witnesses are evaluated.
  \<^item> \<^emph>\<open>Addresses of services.\<close> \<open>watcher/endpoints_watcher.go\<close> keeps a publisher for each service,
    and in it one for each port and host name. \<open>Server_Selection\<close> models which Servers make an
    address opaque, \<open>Port_Publisher\<close> the publisher of a port, \<open>Endpoints_Watcher\<close> the rest of the
    file. A port publisher calls its listeners; \<open>Endpoint_Translator\<close> is the listener of a
    request (\<open>endpoint_translator.go\<close>), with \<open>Workloads\<close> and \<open>Weighted_Addr\<close> for the message of
    one address and \<open>Update_Queue\<close> for the bounded queue and the goroutine between the two.
  \<^item> \<^emph>\<open>Profiles.\<close> \<open>Server_Names\<close> models the names in requests (\<open>server.go\<close>, \<open>watcher/k8s.go\<close>),
    \<open>Profile_Watcher\<close> and \<open>Opaque_Ports\<close> the two watchers of a \<open>GetProfile\<close> request,
    \<open>Profile_Listeners\<close> the chain of listeners behind them, \<open>Profile_Matches\<close> and
    \<open>Profile_Translator\<close> the messages. \<open>Workload_Watcher\<close> and \<open>Workload_Profile\<close> are the same for
    single pods and external workloads (\<open>watcher/workload_watcher.go\<close>,
    \<open>endpoint_profile_translator.go\<close>).
  \<^item> \<^emph>\<open>External workloads.\<close> The controller in \<open>external-workload/\<close> writes endpoint slices for
    workloads outside the cluster: \<open>Slice_Reconciler\<close> (the plan for a group of ports),
    \<open>Slice_Writes\<close> (from plans to requests) and \<open>Workload_Controller\<close> (events, queue, retries).
  \<^item> \<^emph>\<open>Federated services.\<close> \<open>Cluster_Store\<close> (\<open>watcher/cluster_store.go\<close>) keeps the linked clusters,
    \<open>Federated_Services\<close> (\<open>federated_service_watcher.go\<close>) gives every client one translator for
    each member named in the annotations of a federated service.
  \<^item> \<^emph>\<open>Service mirror.\<close> \<open>Mirror_Types\<close> has the resources, events, calls and the state of a watcher,
    \<open>Mirror_Objects\<close> the objects it derives from a remote service and the status of its link,
    \<open>Mirror_Handlers\<close> the handlers of \<open>cluster_watcher.go\<close>, \<open>Mirror_Watcher\<close> the headless services
    of \<open>cluster_watcher_headless.go\<close>, the dispatch of events and the informer callbacks.
    \<open>Probe_Worker\<close> is the probe of the gateway (\<open>probe_worker.go\<close>, \<open>jittered_ticker.go\<close>),
    \<open>Link_Runner\<close> the loop that restarts watcher and probe when the link changes
    (\<open>multicluster/cmd/service-mirror/main.go\<close>, \<open>link_handlers.go\<close>). The service mirror writes the
    annotations of federated services that the destination controller reads.

  \<^bold>\<open>How code becomes definitions.\<close>

  \<^item> A struct is a record, an operation a function from the old state to the new one and to the
    calls it makes of others, in order. Definitions have the names of the code, with a prefix
    where two packages share one (\<open>pp_\<close>, \<open>sp_\<close>, \<open>w_\<close> in the endpoints watcher, \<open>et_\<close> translator,
    \<open>opw_\<close> opaque ports, \<open>ww_\<close>, \<open>wp_\<close> workloads, \<open>fed_\<close>, \<open>fs_\<close> federated services, \<open>k_\<close>, \<open>ke_\<close> the
    objects of the service mirror). A part of a long function has a name of its own, in lower case.
  \<^item> A nil pointer is \<open>None\<close>; a panic is the result \<open>None\<close>, or \<open>Panicked\<close> in the service mirror; an
    error is a value of a sum type. \<open>uint32\<close> and \<open>int32\<close> are words of 32 bits, where overflow can
    happen; \<open>int\<close> is \<open>int\<close> with the range checks of the parsers.
  \<^item> Where aliasing matters there is a store: publishers of workloads (\<open>ww_store\<close>), the local caches
    of the service mirror (\<open>m_services\<close>, \<open>m_endpoints\<close>), stop channels and translators of federated
    services. The handlers of the service mirror are programs of the state monad, every call to
    the API server, the resolver and the queue is kept in \<open>m_calls\<close>.
  \<^item> Goroutines are steps that may be taken in any order: the relations \<open>loop_step\<close>, \<open>queue_step\<close>,
    \<open>ww_step\<close> and \<open>ept_step\<close>, and the lists of operations of the other theories.
  \<^item> Code outside the repository is a parameter with named assumptions: the caches (\<open>k8s_api\<close>),
    \<open>k8s.io/endpointslice\<close> (\<open>slice_util\<close>, \<open>slice_util_ok\<close>), the listers and the queue of the workload
    controller (\<open>ec_env\<close>), the API server, resolver and clock of the service mirror (\<open>mirror_env\<close>,
    \<open>accepts\<close>), the order in which a map is walked (\<open>is_range\<close>, \<open>keys_ok\<close>), floating point in
    \<open>time.ParseDuration\<close> (\<open>fmul\<close>), random jitter.

  \<^bold>\<open>Contracts.\<close> An interface between components is a locale, interpreted on the definitions of the
  model.

  \<^item> \<open>map_diff\<close> (\<open>Diff_Contract\<close>): the two diffs of address sets; \<open>pd\<close> on \<open>diffAddresses\<close>, \<open>td\<close> on
    \<open>diffEndpoints\<close>.
  \<^item> \<open>endpoint_listener\<close> (\<open>Endpoint_Listener\<close>): the callbacks of a port publisher; \<open>tr\<close> on the
    endpoint translator.
  \<^item> \<open>profile_listener\<close> and \<open>ports_listener\<close>: the callbacks of the profile and the opaque ports
    watchers; \<open>primary_child\<close>, \<open>backup_child\<close> and \<open>adaptor\<close> on the listeners of a request.
  \<^item> \<open>call_invariant\<close> and \<open>mirror_calls\<close> (\<open>Mirror_Writes\<close>): a property of every call of the service
    mirror, proved handler by handler once; \<open>typed\<close> for the form of the objects, \<open>dead\<close> for readiness
    under a dead gateway.

  \<^bold>\<open>What is shown.\<close>

  \<^item> \<^emph>\<open>From the cluster to the client.\<close> In this theory: a translator has the addresses of its
    publisher, and an idle stream leaves the client with the addresses selected from them.
    \<open>Publisher_Runs\<close> and \<open>Watcher_Invariant\<close> have the invariants of publishers and watcher,
    \<open>Translator_Client\<close> the filters and the messages, \<open>Translator_Queue\<close> that the queue loses nothing
    up to its capacity and that a drained translator ends.
  \<^item> \<^emph>\<open>Profiles.\<close> The last profile a client gets is the one of what the watchers hold
    (\<open>Profile_Listeners\<close>, \<open>Workload_Profile\<close>), translation keeps the meaning of matches and sends every
    valid profile.
  \<^item> \<^emph>\<open>External workloads.\<close> Reconciliation returns, places every endpoint once, settles, and its
    requests lead to exactly these slices; a service that is not queued needs no change, zones apart.
  \<^item> \<^emph>\<open>Federated services.\<close> \<open>Mirror_Federation\<close> shows that the annotations the mirrors write are read
    back as the members, \<open>Federated_Services\<close> that each client has one translator for each.
  \<^item> \<^emph>\<open>Service mirror.\<close> The form of everything it creates (\<open>Mirror_Writes\<close>); readiness, repairs and
    clean-ups (\<open>Mirror_Properties\<close>); the liveness flag (\<open>Probe_Worker\<close>); the running watcher
    (\<open>Link_Runner\<close>).
  \<^item> \<^emph>\<open>Flaws.\<close> Theorems of the same theories state what goes wrong: panics, lost updates and
    late or missing changes, each with the condition under which it happens.

  \<^bold>\<open>Bounds.\<close> Every definition terminates by its equations but two loops of \<open>Slice_Reconciler\<close>:
  \<open>fill_endpoints\<close>, with a measure, and \<open>fill_rest\<close>, a partial function that is proved to return.
  No definition has fuel. The capacity of the update queues is 100, as in the code, the channel of links
  has 100 places as well, and a service is retried 15 times. The counter of failed probes is a word
  of 64 bits: its theorem is for fewer than \<open>2 ^ 64\<close> probes.

  \<^bold>\<open>Not modelled.\<close>

  \<^item> Of the modelled files: logging, Prometheus registration and latency histograms, the registration
    of handlers with informers, contexts and locks (an operation under a lock is one step), the gRPC
    streams and the construction of the server, leader election and flags of the service mirror, and
    its watcher of the local cluster.
  \<^item> \<open>controller/k8s\<close>, \<open>controller/gen\<close>: clients, caches and generated code; their contents are
    parameters, the resource types used are records.
  \<^item> \<open>pkg/healthcheck\<close>, \<open>cli\<close>, the \<open>cmd\<close> packages: sequences of cluster requests, flags, rendering of
    charts and of terminal output. Their results are those of the API server and of Helm.
  \<^item> \<open>pkg/inject\<close>, \<open>controller/proxy-injector\<close>, \<open>controller/webhook\<close>: values rendered by Helm
    templates that are not Go code, compared as JSON by a library; HTTP and TLS servers.
  \<^item> \<open>pkg/identity\<close>, \<open>pkg/tls\<close>: X.509 through the crypto libraries, which would be parameters
    throughout.
  \<^item> \<open>viz\<close>, \<open>web\<close>: queries to Prometheus, tap streams, HTTP routing and templates.
\<close>

section \<open>From the publisher to the translator\<close>

lemma subscribe_run_in_step:
  assumes inv: "pp_inv pp" and empty: "et_view et = fmempty"
    and run: "pp_run pp (OpSubscribe l # ops) = Some (pp', em)"
    and fresh: "fresh_subs pp (OpSubscribe l # ops)" and stays: "OpUnsubscribe l \<notin> set ops"
  shows "view_covers (et_view (foldl (et_state rng) et (events_for l em))) pp' \<and>
    ((\<forall>op \<in> set ops. \<not> slice_port_update pp op) \<longrightarrow>
       view_sync (et_view (foldl (et_state rng) et (events_for l em))) pp')"
proof -
  obtain pp1 em1 where 1: "pp_subscribe pp l = (pp1, em1)" by fastforce
  with run obtain em2 where 2: "pp_run pp1 ops = Some (pp', em2)" and em: "em = em1 @ em2"
    by (auto split: option.splits)
  let ?s = "foldl (et_state rng) et (events_for l em1)"
  have step: "pp_step pp (OpSubscribe l) = Some (pp1, em1)" by (simp add: 1)
  have sync: "view_sync (et_view ?s) pp1"
    using inv tr.sync_after_subscribe [OF 1 _ empty] by (simp add: pp_inv_def)
  have inv1: "pp_inv pp1" using pp_step_inv [OF step inv] fresh by simp
  have l: "l \<in> set (pp_listeners pp1)" using pp_step_listeners [OF step] by simp
  have fresh1: "fresh_subs pp1 ops" using fresh by (simp add: 1)
  have su: "slice_port_update pp1 op = slice_port_update pp op" for op
    using pp_step_slices [OF step] by (cases op) auto
  have "tr.in_step rng exact l pp1 pp' em2" if "exact \<longrightarrow> (\<forall>op \<in> set ops. \<not> slice_port_update pp op)" for exact
    using tr.run_in_step [OF 2 fresh1 inv1 l stays] that by (auto simp: su)
  from this [of False] this [of True] sync show ?thesis
    by (auto simp: tr.in_step_def em view_sync_def)
qed


text \<open>A publisher with two addresses and nobody listening.\<close>

definition two_zone_publisher :: portPublisher where
  "two_zone_publisher =
     \<lparr>pp_id = zero_ID, pp_targetPort = IntVal 80, pp_srcPort = 80, pp_hostname = [],
      pp_enableEndpointSlices = True, pp_exists = True, pp_addresses = two_zones, pp_listeners = [],
      pp_metrics = newEndpointsMetrics, pp_localTrafficPolicy = False\<rparr>"

lemma two_zone_publisher_run:
  "pp_run two_zone_publisher [OpSubscribe 7] =
     Some (two_zone_publisher\<lparr>pp_listeners := [7], pp_metrics := setSubscribers 1 newEndpointsMetrics\<rparr>,
           [(7, EvAdd two_zones)])"
  "pp_inv two_zone_publisher" "fresh_subs two_zone_publisher [OpSubscribe 7]"
  by (simp_all add: two_zone_publisher_def pp_subscribe_def Let_def pp_inv_def exists_ok_def)
     (simp add: two_zones_def)


section \<open>From the publisher to the client\<close>

text \<open>
  The entries of a set that \<open>selectAddressFamily\<close> keeps.
\<close>

definition family_kept :: "bool \<Rightarrow> ID fset \<Rightarrow> ID \<Rightarrow> bool" where
  "family_kept ipv6 ids i \<longleftrightarrow>
     i |\<in>| ids \<and> \<not> (IPFamily i = IPv6Protocol \<and> \<not> ipv6) \<and>
     \<not> (IPFamily i = IPv4Protocol \<and> ipv6 \<and> i\<lparr>IPFamily := IPv6Protocol\<rparr> |\<in>| ids)"

lemma et_state_config:
  "et_enableIPv6 (et_state rng et ev) = et_enableIPv6 et"
  "et_enableEndpointFiltering (et_state rng et ev) = et_enableEndpointFiltering et"
  by (simp_all add: et_state_eq Let_def)

lemma et_run_state:
  "et_run rng et evs = Some (et', msgs) \<Longrightarrow> et' = foldl (et_state rng) et evs"
proof (induction evs arbitrary: et msgs)
  case (Cons ev evs)
  then show ?case by (auto simp: et_state_def split: option.splits)
qed simp

lemma foldl_et_state_config:
  "et_enableIPv6 (foldl (et_state rng) et evs) = et_enableIPv6 et"
  "et_enableEndpointFiltering (foldl (et_state rng) et evs) = et_enableEndpointFiltering et"
  by (induction evs arbitrary: et) (simp_all add: et_state_config)



end
